(* ===== verification/Prelude.thy ===== *)
theory Prelude
  imports Main "HOL-Library.Word" "HOL-Library.AList" "HOL-Library.Multiset"
    "HOL-Library.Char_ord" "HOL-Library.List_Lexorder" "HOL-Library.Product_Lexorder"
begin

text \<open>
  The Python the program is written in, as far as the program uses it.

  \<^item> Exceptions are values: a call that may raise returns \<open>py_err + 'a\<close>, \<open>Inl\<close> for the
    raised exception (its class and its message), \<open>Inr\<close> for the returned value.
  \<^item> \<open>int\<close> is unbounded. \<open>str\<close> is a list of characters; the texts of the program are ASCII
    (hexadecimal, decimal, JSON keys), and case folding is the ASCII one.
  \<^item> A value of static type \<open>Any\<close> is a \<open>pyval\<close>; \<open>str\<close>, \<open>int\<close> and truth testing of such a value are
    \<open>py_str\<close>, \<open>py_int\<close> and \<open>truthy\<close>. A \<open>dict\<close> keeps the order of insertion, so it is an
    association list and assignment is \<open>AList.update\<close>.
  \<^item> \<open>sorted(xs, key=f)\<close> is the library's \<open>sort_key f xs\<close>: both sort stably. Strings, tuples
    and lists compare lexicographically, by \<open>List_Lexorder\<close> and \<open>Product_Lexorder\<close>.
  The text of a message raised by the interpreter itself (rather than by the program) is
  abbreviated.
\<close>

named_theorems key_simps \<open>unfolding the canonical keys that are hashed\<close>
named_theorems py_simps \<open>unfolding the conversions of dynamic values\<close>

section \<open>Exceptions as values\<close>

datatype exc = ValueError | KeyError | TypeError | IndexError | AttributeError
  | RuntimeError | AssertionError | FileNotFoundError | OverflowError | ExternalError

datatype py_err = Raise (exc_class: exc) (exc_msg: string)

type_synonym 'a res = "py_err + 'a"

definition rbind :: "'a res \<Rightarrow> ('a \<Rightarrow> 'b res) \<Rightarrow> 'b res" where
  "rbind r f = (case r of Inl e \<Rightarrow> Inl e | Inr x \<Rightarrow> f x)"

lemma rbind_simps [simp]: "rbind (Inl e) f = Inl e" "rbind (Inr x) f = f x"
  by (simp_all add: rbind_def)

lemma rbind_Inr: "rbind r f = Inr y \<longleftrightarrow> (\<exists>x. r = Inr x \<and> f x = Inr y)"
  by (cases r) auto

lemma rbind_Inl: "rbind r f = Inl e \<longleftrightarrow> r = Inl e \<or> (\<exists>x. r = Inr x \<and> f x = Inl e)"
  by (cases r) auto

lemma rbind_InrE:
  assumes "rbind r f = Inr y"
  obtains x where "r = Inr x" "f x = Inr y"
  using assms by (cases r) auto

lemma rbind_cong [fundef_cong]:
  "r = r' \<Longrightarrow> (\<And>x. r' = Inr x \<Longrightarrow> f x = f' x) \<Longrightarrow> rbind r f = rbind r' f'"
  by (cases r') auto

fun mapR :: "('a \<Rightarrow> 'b res) \<Rightarrow> 'a list \<Rightarrow> 'b list res" where
  "mapR f [] = Inr []"
| "mapR f (x # xs) = rbind (f x) (\<lambda>y. rbind (mapR f xs) (\<lambda>ys. Inr (y # ys)))"

lemma mapR_cong [fundef_cong]:
  "xs = ys \<Longrightarrow> (\<And>x. x \<in> set ys \<Longrightarrow> f x = g x) \<Longrightarrow> mapR f xs = mapR g ys"
  by (induction xs arbitrary: ys) (auto intro!: rbind_cong)

lemma list_all2_set1: "list_all2 P xs ys \<Longrightarrow> x \<in> set xs \<Longrightarrow> \<exists>y \<in> set ys. P x y"
  by (induction rule: list_all2_induct) auto

lemma list_all2_set2: "list_all2 P xs ys \<Longrightarrow> y \<in> set ys \<Longrightarrow> \<exists>x \<in> set xs. P x y"
  by (induction rule: list_all2_induct) auto

lemma mapR_Inr: "mapR f xs = Inr ys \<longleftrightarrow> list_all2 (\<lambda>x y. f x = Inr y) xs ys"
  by (induction xs arbitrary: ys) (auto simp: rbind_Inr list_all2_Cons1)

lemma mapR_total: "(\<And>x. x \<in> set xs \<Longrightarrow> f x = Inr (g x)) \<Longrightarrow> mapR f xs = Inr (map g xs)"
  by (induction xs) auto

lemma mapR_length: "mapR f xs = Inr ys \<Longrightarrow> length ys = length xs"
  by (auto simp: mapR_Inr dest: list_all2_lengthD)

lemma mapR_map: "mapR f (map g xs) = mapR (\<lambda>x. f (g x)) xs"
  by (induction xs) simp_all

lemma mapR_append:
  "mapR f (xs @ ys) = rbind (mapR f xs) (\<lambda>us. rbind (mapR f ys) (\<lambda>vs. Inr (us @ vs)))"
proof (induction xs)
  case (Cons x xs)
  then show ?case by (cases "f x"; cases "mapR f xs"; cases "mapR f ys") simp_all
qed (cases "mapR f ys"; simp)

text \<open>A loop that threads a state and stops at the first exception.\<close>

fun foldR :: "('a \<Rightarrow> 's \<Rightarrow> 's res) \<Rightarrow> 'a list \<Rightarrow> 's \<Rightarrow> 's res" where
  "foldR f [] s = Inr s"
| "foldR f (x # xs) s = rbind (f x s) (\<lambda>s'. foldR f xs s')"

lemma foldR_inv:
  assumes "foldR f xs s = Inr s'" "P s"
    and "\<And>x s t. x \<in> set xs \<Longrightarrow> P s \<Longrightarrow> f x s = Inr t \<Longrightarrow> P t"
  shows "P s'"
  using assms by (induction xs arbitrary: s) (auto simp: rbind_Inr)

lemma find_SomeD: "find P xs = Some x \<Longrightarrow> x \<in> set xs \<and> P x"
  by (induction xs) (auto split: if_splits)

section \<open>Text\<close>

definition lower_char :: "char \<Rightarrow> char" where
  "lower_char c = (let n = (of_char c :: nat) in if 65 \<le> n \<and> n \<le> 90 then char_of (n + 32) else c)"

definition upper_char :: "char \<Rightarrow> char" where
  "upper_char c = (let n = (of_char c :: nat) in if 97 \<le> n \<and> n \<le> 122 then char_of (n - 32) else c)"

definition lower :: "string \<Rightarrow> string" where "lower s = map lower_char s"

definition upper :: "string \<Rightarrow> string" where "upper s = map upper_char s"

lemma lower_char_idem [simp]: "lower_char (lower_char c) = lower_char c"
  by (simp add: lower_char_def Let_def)

lemma lower_idem [simp]: "lower (lower s) = lower s"
  by (simp add: lower_def)

lemma lower_Nil [simp]: "lower [] = []"
  by (simp add: lower_def)

lemma lower_eq_Nil [simp]: "lower s = [] \<longleftrightarrow> s = []"
  by (simp add: lower_def)

lemma lower_append [simp]: "lower (s @ t) = lower s @ lower t"
  by (simp add: lower_def)

lemma length_lower [simp]: "length (lower s) = length s"
  by (simp add: lower_def)

lemma lower_drop: "lower (drop n s) = drop n (lower s)"
  by (simp add: lower_def drop_map)

lemma lower_take: "lower (take n s) = take n (lower s)"
  by (simp add: lower_def take_map)

definition starts_with :: "string \<Rightarrow> string \<Rightarrow> bool" where
  "starts_with s p = (take (length p) s = p)"

definition ends_with :: "string \<Rightarrow> string \<Rightarrow> bool" where
  "ends_with s p = (length p \<le> length s \<and> drop (length s - length p) s = p)"

lemma starts_with_append [simp]: "starts_with (p @ s) p"
  by (simp add: starts_with_def)

definition strip_0x :: "string \<Rightarrow> string" where
  "strip_0x s = (if starts_with s ''0x'' \<or> starts_with s ''0X'' then drop 2 s else s)"

subsection \<open>Joining and splitting\<close>

fun join :: "string \<Rightarrow> string list \<Rightarrow> string" where
  "join sep [] = []"
| "join sep [x] = x"
| "join sep (x # y # ys) = x @ sep @ join sep (y # ys)"

fun split_on :: "char \<Rightarrow> string \<Rightarrow> string list" where
  "split_on c [] = [[]]"
| "split_on c (x # xs) =
     (if x = c then [] # split_on c xs
      else (case split_on c xs of [] \<Rightarrow> [[x]] | p # ps \<Rightarrow> (x # p) # ps))"

lemma split_on_free: "c \<notin> set p \<Longrightarrow> split_on c p = [p]"
  by (induction p) auto

lemma split_on_append: "c \<notin> set p \<Longrightarrow> split_on c (p @ c # s) = p # split_on c s"
  by (induction p) auto

lemma split_on_join:
  "ps \<noteq> [] \<Longrightarrow> \<forall>p \<in> set ps. c \<notin> set p \<Longrightarrow> split_on c (join [c] ps) = ps"
  by (induction "[c]" ps rule: join.induct) (auto simp: split_on_free split_on_append)

lemma join_inj:
  assumes "\<forall>p \<in> set ps \<union> set qs. c \<notin> set p" "ps \<noteq> []" "qs \<noteq> []"
  shows "join [c] ps = join [c] qs \<longleftrightarrow> ps = qs"
proof -
  have "split_on c (join [c] ps) = ps" "split_on c (join [c] qs) = qs"
    using assms by (simp_all add: split_on_join)
  then show ?thesis by metis
qed

subsection \<open>Decimal numbers\<close>

definition digit_char :: "nat \<Rightarrow> char" where "digit_char d = char_of (48 + d)"

fun show_nat :: "nat \<Rightarrow> string" where
  "show_nat n = (if n < 10 then [digit_char n] else show_nat (n div 10) @ [digit_char (n mod 10)])"

declare show_nat.simps [simp del]

definition show_int :: "int \<Rightarrow> string" where
  "show_int i = (if i < 0 then CHR ''-'' # show_nat (nat (- i)) else show_nat (nat i))"

definition is_ws :: "char \<Rightarrow> bool" where
  "is_ws c = (let n = (of_char c :: nat) in n = 32 \<or> 9 \<le> n \<and> n \<le> 13)"

definition strip_ws :: "string \<Rightarrow> string" where
  "strip_ws s = rev (dropWhile is_ws (rev (dropWhile is_ws s)))"

definition hex_val :: "char \<Rightarrow> nat option" where
  "hex_val c = (let n = (of_char c :: nat) in
     if 48 \<le> n \<and> n \<le> 57 then Some (n - 48)
     else if 97 \<le> n \<and> n \<le> 102 then Some (n - 87)
     else if 65 \<le> n \<and> n \<le> 70 then Some (n - 55) else None)"

fun parse_num :: "nat \<Rightarrow> nat \<Rightarrow> bool \<Rightarrow> string \<Rightarrow> nat option" where
  "parse_num b acc prev [] = (if prev then Some acc else None)"
| "parse_num b acc prev (c # cs) =
     (if c = CHR ''_'' then (if prev then parse_num b acc False cs else None)
      else (case hex_val c of None \<Rightarrow> None
            | Some d \<Rightarrow> if d < b then parse_num b (acc * b + d) True cs else None))"

definition parse_signed :: "(string \<Rightarrow> nat option) \<Rightarrow> string \<Rightarrow> int option" where
  "parse_signed p s = (case strip_ws s of [] \<Rightarrow> None
     | c # cs \<Rightarrow> if c = CHR ''-'' then map_option (\<lambda>n. - int n) (p cs)
                else if c = CHR ''+'' then map_option int (p cs)
                else map_option int (p (c # cs)))"

definition parse_int :: "string \<Rightarrow> int option" where
  "parse_int s = parse_signed (parse_num 10 0 False) s"

definition parse_hex :: "string \<Rightarrow> int option" where
  "parse_hex s = parse_signed
     (\<lambda>t. if starts_with t ''0x'' \<or> starts_with t ''0X''
          then (case drop 2 t of [] \<Rightarrow> None
                | c # cs \<Rightarrow> parse_num 16 0 False (if c = CHR ''_'' then cs else c # cs))
          else parse_num 16 0 False t) s"


definition is_digit :: "char \<Rightarrow> bool" where
  "is_digit c = (let n = (of_char c :: nat) in 48 \<le> n \<and> n \<le> 57)"

lemma of_char_digit: "d < 10 \<Longrightarrow> (of_char (digit_char d) :: nat) = 48 + d"
  by (simp add: digit_char_def)

lemma is_digit_digit_char [simp]: "d < 10 \<Longrightarrow> is_digit (digit_char d)"
  by (simp add: is_digit_def of_char_digit)

lemma hex_val_digit [simp]: "d < 10 \<Longrightarrow> hex_val (digit_char d) = Some d"
  by (simp add: hex_val_def of_char_digit)

lemma is_digit_lits [simp]:
  "\<not> is_digit CHR ''_''" "\<not> is_digit CHR ''-''" "\<not> is_digit CHR ''+''"
  "\<not> is_digit CHR ''|''" "\<not> is_digit CHR '',''"
  by (simp_all add: is_digit_def)

lemma show_nat_digits: "c \<in> set (show_nat n) \<Longrightarrow> is_digit c"
proof (induction n rule: show_nat.induct)
  case (1 n)
  show ?case
  proof (cases "n < 10")
    case True
    with "1.prems" show ?thesis by (simp add: show_nat.simps [of n])
  next
    case False
    with "1.prems" have "c \<in> set (show_nat (n div 10)) \<or> c = digit_char (n mod 10)"
      by (auto simp: show_nat.simps [of n])
    with "1.IH" False show ?thesis by auto
  qed
qed

lemma show_nat_not_Nil [simp]: "show_nat n \<noteq> []"
  by (subst show_nat.simps) simp

lemma show_int_chars: "c \<in> set (show_int i) \<Longrightarrow> is_digit c \<or> c = CHR ''-''"
  using show_nat_digits [of c "nat i"] show_nat_digits [of c "nat (- i)"]
  by (auto simp: show_int_def split: if_splits)

lemma show_int_not_Nil [simp]: "show_int i \<noteq> []"
  by (simp add: show_int_def)

lemma digits_free: "\<not> is_digit c \<Longrightarrow> c \<noteq> CHR ''-'' \<Longrightarrow> c \<notin> set (show_int i)"
  using show_int_chars by blast

lemma pipe_free_int [simp]: "CHR ''|'' \<notin> set (show_int i)"
  by (rule digits_free) simp_all

lemma comma_free_int [simp]: "CHR '','' \<notin> set (show_int i)"
  by (rule digits_free) simp_all

lemma parse_num_show_nat_append:
  "parse_num 10 a p (show_nat n @ s) = parse_num 10 (a * 10 ^ length (show_nat n) + n) True s"
proof (induction n arbitrary: a p s rule: show_nat.induct)
  case (1 n)
  have nu: "d < 10 \<Longrightarrow> digit_char d \<noteq> CHR ''_''" for d
    by (metis is_digit_digit_char is_digit_lits(1))
  show ?case
  proof (cases "n < 10")
    case True
    then show ?thesis by (simp add: show_nat.simps [of n] nu)
  next
    case False
    let ?t = "digit_char (n mod 10) # s"
    have "parse_num 10 a p (show_nat n @ s) = parse_num 10 a p (show_nat (n div 10) @ ?t)"
      using False by (simp add: show_nat.simps [of n])
    also have "\<dots> = parse_num 10 (a * 10 ^ length (show_nat (n div 10)) + n div 10) True ?t"
      using 1 False by blast
    also have "\<dots> = parse_num 10 ((a * 10 ^ length (show_nat (n div 10)) + n div 10) * 10
        + n mod 10) True s"
      by (simp add: nu)
    finally show ?thesis
      using False by (simp add: show_nat.simps [of n] algebra_simps)
  qed
qed

definition hex_lower :: "char \<Rightarrow> bool" where
  "hex_lower c = (is_digit c \<or> (let n = (of_char c :: nat) in 97 \<le> n \<and> n \<le> 102))"

lemma parse_num_show_nat [simp]: "parse_num 10 0 p (show_nat n) = Some n"
  using parse_num_show_nat_append [of 0 p n "[]"] by simp

lemma dropWhile_none: "(\<And>c. c \<in> set t \<Longrightarrow> \<not> P c) \<Longrightarrow> dropWhile P t = t"
  by (cases t) auto

lemma strip_ws_free:
  assumes "\<And>c. c \<in> set s \<Longrightarrow> \<not> is_ws c"
  shows "strip_ws s = s"
proof -
  have "dropWhile is_ws s = s" "dropWhile is_ws (rev s) = rev s"
    using assms by (auto intro!: dropWhile_none)
  then show ?thesis by (simp add: strip_ws_def)
qed

lemma strip_ws_show_int [simp]: "strip_ws (show_int i) = show_int i"
proof (rule strip_ws_free)
  fix c assume "c \<in> set (show_int i)"
  then have "is_digit c \<or> c = CHR ''-''" by (rule show_int_chars)
  then show "\<not> is_ws c" by (auto simp: is_ws_def is_digit_def Let_def)
qed

lemma parse_int_show_int [simp]: "parse_int (show_int i) = Some i"
proof (cases "i < 0")
  case True
  then show ?thesis
    by (simp add: parse_int_def parse_signed_def) (simp add: show_int_def)
next
  case False
  obtain c cs where c: "show_nat (nat i) = c # cs" by (cases "show_nat (nat i)") auto
  then have "is_digit c" using show_nat_digits [of c "nat i"] by auto
  then have "c \<noteq> CHR ''-''" "c \<noteq> CHR ''+''" by auto
  then have "parse_int (show_int i) = map_option int (parse_num 10 0 False (show_nat (nat i)))"
    using False c by (simp add: parse_int_def parse_signed_def) (simp add: show_int_def)
  with False show ?thesis by simp
qed

lemma show_int_inj [simp]: "show_int i = show_int j \<longleftrightarrow> i = j"
  by (metis option.inject parse_int_show_int)

subsection \<open>Bytes and hexadecimal text\<close>

type_synonym byte = "8 word"

fun from_hex :: "string \<Rightarrow> byte list res" where
  "from_hex [] = Inr []"
| "from_hex (c # cs) =
     (if is_ws c then from_hex cs
      else case (hex_val c, cs) of
        (Some h, d # ds) \<Rightarrow>
          (case hex_val d of
             None \<Rightarrow> Inl (Raise ValueError ''non-hexadecimal number found in fromhex() arg'')
           | Some l \<Rightarrow> rbind (from_hex ds) (\<lambda>bs. Inr (of_nat (16 * h + l) # bs)))
      | _ \<Rightarrow> Inl (Raise ValueError ''non-hexadecimal number found in fromhex() arg''))"

definition nibble_char :: "nat \<Rightarrow> char" where
  "nibble_char n = (if n < 10 then char_of (48 + n) else char_of (87 + n))"

definition byte_hex :: "byte \<Rightarrow> string" where
  "byte_hex b = [nibble_char (unat b div 16), nibble_char (unat b mod 16)]"

definition to_hex :: "byte list \<Rightarrow> string" where
  "to_hex bs = concat (map byte_hex bs)"

lemma hex_val_nibble: "n < 16 \<Longrightarrow> hex_val (nibble_char n) = Some n"
  by (simp add: hex_val_def nibble_char_def Let_def)

lemma is_ws_nibble: "n < 16 \<Longrightarrow> \<not> is_ws (nibble_char n)"
  by (simp add: is_ws_def nibble_char_def Let_def)

lemma byte_nat_lt: "unat (b :: byte) < 256"
  using unsigned_less [of b] by simp

lemma from_to_hex [simp]: "from_hex (to_hex bs) = Inr bs"
proof (induction bs)
  case (Cons b bs)
  have "unat b div 16 < 16" "unat b mod 16 < 16" using byte_nat_lt [of b] by auto
  with Cons show ?case by (simp add: to_hex_def byte_hex_def hex_val_nibble is_ws_nibble)
qed (simp add: to_hex_def)

lemma length_to_hex [simp]: "length (to_hex bs) = 2 * length bs"
  by (induction bs) (simp_all add: to_hex_def byte_hex_def)

lemma to_hex_inj [simp]: "to_hex as = to_hex bs \<longleftrightarrow> as = bs"
  by (metis from_to_hex sum.inject(2))

text \<open>\<open>s.encode()\<close>: UTF-8, for code points below 256.\<close>

definition utf8 :: "string \<Rightarrow> byte list" where
  "utf8 s = concat (map (\<lambda>c. let n = (of_char c :: nat) in
     if n < 128 then [of_nat n] else [of_nat (192 + n div 64), of_nat (128 + n mod 64)]) s)"

section \<open>Dynamic values\<close>

datatype pyval = PNone | PBool bool | PInt int | PStr string | PBytes "byte list"
  | PList "pyval list" | PTuple "pyval list" | PDict "(string \<times> pyval) list"

type_synonym pydict = "(string \<times> pyval) list"

primrec truthy :: "pyval \<Rightarrow> bool" where
  "truthy PNone = False"
| "truthy (PBool b) = b"
| "truthy (PInt i) = (i \<noteq> 0)"
| "truthy (PStr s) = (s \<noteq> [])"
| "truthy (PBytes bs) = (bs \<noteq> [])"
| "truthy (PList xs) = (xs \<noteq> [])"
| "truthy (PTuple xs) = (xs \<noteq> [])"
| "truthy (PDict d) = (d \<noteq> [])"

text \<open>\<open>repr\<close> quotes with an apostrophe, or with a quotation mark where the text holds an
  apostrophe and no quotation mark; escapes inside the quotes are not modelled.\<close>

definition repr_str :: "string \<Rightarrow> string" where
  "repr_str s = (let q = (if CHR 0x27 \<in> set s \<and> CHR 0x22 \<notin> set s then [CHR 0x22] else [CHR 0x27])
     in q @ s @ q)"

text \<open>\<open>str(exc)\<close>: a \<open>KeyError\<close> shows the \<open>repr\<close> of its key.\<close>

definition exc_str :: "py_err \<Rightarrow> string" where
  "exc_str e = (if exc_class e = KeyError then repr_str (exc_msg e) else exc_msg e)"

fun py_repr :: "pyval \<Rightarrow> string" where
  "py_repr PNone = ''None''"
| "py_repr (PBool b) = (if b then ''True'' else ''False'')"
| "py_repr (PInt i) = show_int i"
| "py_repr (PStr s) = repr_str s"
| "py_repr (PBytes bs) = ''b'' @ [CHR 0x27] @ concat (map (\<lambda>b. [CHR 0x5C] @ ''x'' @ byte_hex b) bs)
     @ [CHR 0x27]"
| "py_repr (PList xs) = ''['' @ join '', '' (map py_repr xs) @ '']''"
| "py_repr (PTuple xs) = ''('' @ join '', '' (map py_repr xs) @ (if length xs = 1 then '',)'' else '')'')"
| "py_repr (PDict d) =
     ''{'' @ join '', '' (map (\<lambda>(k, v). repr_str k @ '': '' @ py_repr v) d) @ ''}''"

definition py_str :: "pyval \<Rightarrow> string" where
  "py_str v = (case v of PStr s \<Rightarrow> s | _ \<Rightarrow> py_repr v)"

lemma py_str_simps [simp]:
  "py_str (PStr s) = s" "py_str (PInt i) = show_int i" "py_str PNone = ''None''"
  by (simp_all add: py_str_def)

definition value_error :: "string \<Rightarrow> 'a res" where
  "value_error msg = Inl (Raise ValueError msg)"

definition py_int :: "pyval \<Rightarrow> int res" where
  "py_int v = (case v of
     PInt i \<Rightarrow> Inr i
   | PBool b \<Rightarrow> Inr (if b then 1 else 0)
   | PStr s \<Rightarrow> (case parse_int s of Some i \<Rightarrow> Inr i
                | None \<Rightarrow> value_error ''invalid literal for int() with base 10'')
   | PBytes bs \<Rightarrow> (case parse_int (map (\<lambda>b. char_of (unat b)) bs) of Some i \<Rightarrow> Inr i
                | None \<Rightarrow> value_error ''invalid literal for int() with base 10'')
   | _ \<Rightarrow> Inl (Raise TypeError
       ''int() argument must be a string, a bytes-like object or a real number''))"

lemma py_int_simps [simp]:
  "py_int (PInt i) = Inr i" "py_int (PStr (show_int i)) = Inr i"
  by (simp_all add: py_int_def)

definition int_base16 :: "string \<Rightarrow> int res" where
  "int_base16 s = (case parse_hex s of Some i \<Rightarrow> Inr i
     | None \<Rightarrow> value_error ''invalid literal for int() with base 16'')"

subsection \<open>Dictionaries\<close>

definition dict_get :: "(string \<times> pyval) list \<Rightarrow> string \<Rightarrow> pyval" where
  \<comment> \<open>\<open>d.get(k)\<close>\<close>
  "dict_get d k = (case map_of d k of None \<Rightarrow> PNone | Some v \<Rightarrow> v)"

definition dict_get_or :: "('k \<times> 'v) list \<Rightarrow> 'k \<Rightarrow> 'v \<Rightarrow> 'v" where
  \<comment> \<open>\<open>d.get(k, default)\<close>\<close>
  "dict_get_or d k v0 = (case map_of d k of None \<Rightarrow> v0 | Some v \<Rightarrow> v)"

definition dict_index :: "(string \<times> 'v) list \<Rightarrow> string \<Rightarrow> 'v res" where
  \<comment> \<open>\<open>d[k]\<close>\<close>
  "dict_index d k = (case map_of d k of None \<Rightarrow> Inl (Raise KeyError k) | Some v \<Rightarrow> Inr v)"

text \<open>Iterating over a JSON or YAML sequence of mappings; anything else is ill-typed.\<close>

definition as_dict :: "pyval \<Rightarrow> pydict res" where
  "as_dict x = (case x of PDict d \<Rightarrow> Inr d | _ \<Rightarrow> Inl (Raise TypeError ''a mapping is required''))"

definition dict_items :: "pyval \<Rightarrow> pydict list res" where
  "dict_items v = (case v of
     PList xs \<Rightarrow> mapR as_dict xs
   | _ \<Rightarrow> Inl (Raise TypeError ''a sequence of mappings is required''))"

lemma map_of_size:
  "map_of d k = Some v \<Longrightarrow> size v < size (PDict d)"
  by (induction d) (auto split: if_splits)

lemma dict_items_size:
  assumes "dict_items v = Inr ds" "d \<in> set ds"
  shows "size (PDict d) < size v"
proof -
  obtain xs where v: "v = PList xs" using assms(1) by (cases v) (auto simp: dict_items_def)
  then have "list_all2 (\<lambda>x d. as_dict x = Inr d) xs ds"
    using assms(1) by (simp add: dict_items_def mapR_Inr)
  with assms(2) obtain x where "x \<in> set xs" "as_dict x = Inr d"
    by (blast dest: list_all2_set2)
  moreover from this(2) have "x = PDict d" by (simp add: as_dict_def split: pyval.splits)
  ultimately have "PDict d \<in> set xs" by simp
  then have "size (PDict d) < size_list size xs"
    by (induction xs) auto
  with v show ?thesis by simp
qed

text \<open>The text of an optional value, and a sequence; anything else is ill-typed.\<close>

definition opt_str :: "pyval \<Rightarrow> string option" where
  \<comment> \<open>the text of an optional column\<close>
  "opt_str v = (if v = PNone then None else Some (py_str v))"

definition as_list :: "pyval \<Rightarrow> pyval list res" where
  "as_list v = (case v of PList xs \<Rightarrow> Inr xs | PTuple xs \<Rightarrow> Inr xs
     | _ \<Rightarrow> Inl (Raise TypeError ''a sequence is required''))"

definition want_int :: "pyval \<Rightarrow> int res" where
  "want_int v = (case v of PInt i \<Rightarrow> Inr i | _ \<Rightarrow> Inl (Raise TypeError ''an integer is required''))"

definition want_str :: "pyval \<Rightarrow> string res" where
  "want_str v = (case v of PStr s \<Rightarrow> Inr s | _ \<Rightarrow> Inl (Raise TypeError ''a string is required''))"

definition py_lower :: "pyval \<Rightarrow> string res" where
  \<comment> \<open>\<open>v.lower()\<close>\<close>
  "py_lower v = (case v of PStr s \<Rightarrow> Inr (lower s)
     | _ \<Rightarrow> Inl (Raise AttributeError ''object has no attribute lower''))"

definition py_int16 :: "pyval \<Rightarrow> int res" where
  \<comment> \<open>\<open>int(v, 16)\<close>\<close>
  "py_int16 v = (case v of PStr s \<Rightarrow> int_base16 s
     | _ \<Rightarrow> Inl (Raise TypeError ''int() with a base converts strings only''))"

lemma want_simps [simp]: "want_int (PInt i) = Inr i" "want_str (PStr s) = Inr s"
  by (simp_all add: want_int_def want_str_def)

lemma want_strs: "mapR want_str (map PStr xs) = Inr xs"
  by (induction xs) (simp_all add: want_str_def)

text \<open>\<open>a or b\<close> on dynamic values.\<close>

definition py_or :: "pyval \<Rightarrow> pyval \<Rightarrow> pyval" where
  "py_or a b = (if truthy a then a else b)"

lemma map_of_dict_update: "map_of (AList.update k v d) = (map_of d)(k \<mapsto> v)"
  by (rule update_conv')

lemma dict_keys_update:
  "map fst (AList.update k v d) = (if k \<in> set (map fst d) then map fst d else map fst d @ [k])"
  by (simp add: update_keys)

text \<open>\<open>dict.fromkeys\<close> and grouping loops: \<open>group_into f xs\<close> is the dictionary a loop over \<open>xs\<close>
  builds with \<open>d.setdefault(f x, []).append(x)\<close>.\<close>

definition dict_append :: "'k \<Rightarrow> 'v \<Rightarrow> ('k \<times> 'v list) list \<Rightarrow> ('k \<times> 'v list) list" where
  "dict_append k v d = AList.update k (dict_get_or d k [] @ [v]) d"

definition group_into :: "('v \<Rightarrow> 'k) \<Rightarrow> 'v list \<Rightarrow> ('k \<times> 'v list) list" where
  "group_into f xs = fold (\<lambda>x. dict_append (f x) x) xs []"

lemma update_map_keys:
  "\<lbrakk>distinct ks; k \<in> set ks\<rbrakk> \<Longrightarrow>
    AList.update k v (map (\<lambda>k. (k, g k)) ks) = map (\<lambda>k'. (k', if k' = k then v else g k')) ks"
proof (induction ks)
  case (Cons k' ks)
  then show ?case by (cases "k' = k") auto
qed simp

lemma update_new_key:
  "k \<notin> set (map fst d) \<Longrightarrow> AList.update k v d = d @ [(k, v)]"
  by (induction d) auto

lemma dict_get_or_map_keys:
  "k \<in> set ks \<Longrightarrow> dict_get_or (map (\<lambda>k. (k, g k)) ks) k d = g k"
  by (induction ks) (auto simp: dict_get_or_def)

lemma dict_get_or_absent: "k \<notin> set (map fst d) \<Longrightarrow> dict_get_or d k v = v"
  by (simp add: dict_get_or_def map_of_eq_None_iff [THEN iffD2])

text \<open>What grouping builds: the keys in order of first appearance, each with its elements in order.\<close>

lemma group_into_conv:
  "\<exists>ks. distinct ks \<and> set ks = f ` set xs \<and>
     group_into f xs = map (\<lambda>k. (k, filter (\<lambda>x. f x = k) xs)) ks"
proof (induction xs rule: rev_induct)
  case (snoc x xs)
  then obtain ks where ks: "distinct ks" "set ks = f ` set xs"
    "group_into f xs = map (\<lambda>k. (k, filter (\<lambda>x. f x = k) xs)) ks" by blast
  have eq: "group_into f (xs @ [x]) = dict_append (f x) x (group_into f xs)" by (simp add: group_into_def)
  show ?case
  proof (cases "f x \<in> set ks")
    case True
    have "group_into f (xs @ [x]) = map (\<lambda>k. (k, filter (\<lambda>x. f x = k) (xs @ [x]))) ks"
      unfolding eq ks(3) dict_append_def
      by (simp add: update_map_keys [OF ks(1) True] dict_get_or_map_keys [OF True])
    with ks True show ?thesis by (intro exI [of _ ks]) auto
  next
    case False
    then have none: "filter (\<lambda>y. f y = f x) xs = []" using ks(2) by (auto simp: filter_empty_conv image_iff)
    have "group_into f (xs @ [x]) = map (\<lambda>k. (k, filter (\<lambda>x. f x = k) (xs @ [x]))) (ks @ [f x])"
      unfolding eq ks(3) dict_append_def using False none
      by (auto simp: update_new_key dict_get_or_absent comp_def)
    with ks False show ?thesis by (intro exI [of _ "ks @ [f x]"]) auto
  qed
qed (simp add: group_into_def)

lemma mset_concat_groups:
  "distinct ks \<Longrightarrow> mset (concat (map (\<lambda>k. filter (\<lambda>x. f x = k) xs) ks)) =
     filter_mset (\<lambda>x. f x \<in> set ks) (mset xs)"
proof (induction ks)
  case (Cons k ks)
  then have "mset (concat (map (\<lambda>k. filter (\<lambda>x. f x = k) xs) (k # ks))) =
      filter_mset (\<lambda>x. f x = k) (mset xs) + filter_mset (\<lambda>x. f x \<in> set ks) (mset xs)" by simp
  also have "\<dots> = filter_mset (\<lambda>x. f x = k \<or> f x \<in> set ks) (mset xs)"
    using Cons.prems by (intro multiset_eqI) auto
  finally show ?case by simp
qed simp

lemma group_intoE:
  obtains ks where "distinct ks" "set ks = f ` set xs"
    "group_into f xs = map (\<lambda>k. (k, filter (\<lambda>x. f x = k) xs)) ks"
  using group_into_conv [of f xs] by (elim exE conjE)

lemma group_into_mset: "mset (concat (map snd (group_into f xs))) = mset xs"
proof -
  obtain ks where ks: "distinct ks" "set ks = f ` set xs"
    "group_into f xs = map (\<lambda>k. (k, filter (\<lambda>x. f x = k) xs)) ks"
    by (rule group_intoE)
  have "mset (concat (map snd (group_into f xs))) = filter_mset (\<lambda>x. f x \<in> set ks) (mset xs)"
    using mset_concat_groups [OF ks(1), of f xs] by (simp add: ks(3) comp_def)
  also have "filter (\<lambda>x. f x \<in> set ks) xs = xs" using ks(2) by (simp add: filter_id_conv)
  then have "filter_mset (\<lambda>x. f x \<in> set ks) (mset xs) = mset xs" by (metis mset_filter)
  finally show ?thesis .
qed

lemma group_into_elem:
  assumes "(k, ys) \<in> set (group_into f xs)"
  shows "ys = filter (\<lambda>x. f x = k) xs \<and> ys \<noteq> []"
proof -
  obtain ks where ks: "set ks = f ` set xs"
    "group_into f xs = map (\<lambda>k. (k, filter (\<lambda>x. f x = k) xs)) ks"
    by (rule group_intoE)
  then have "ys = filter (\<lambda>x. f x = k) xs" "k \<in> f ` set xs" using assms by auto
  moreover from this(2) have "filter (\<lambda>x. f x = k) xs \<noteq> []" by (auto simp: filter_empty_conv)
  ultimately show ?thesis by simp
qed

lemma group_into_keys: "distinct (map fst (group_into f xs))" "set (map fst (group_into f xs)) = f ` set xs"
  using group_into_conv [of f xs] by (auto simp: comp_def simp del: set_map)

lemma hex_val_underscore: "hex_val CHR ''_'' = None"
  by (simp add: hex_val_def)

text \<open>\<open>d[k] = d.get(k, 0) + v\<close>, and the loop that sums amounts per key.\<close>

definition dict_add :: "'k \<Rightarrow> int \<Rightarrow> ('k \<times> int) list \<Rightarrow> ('k \<times> int) list" where
  "dict_add k v d = AList.update k (dict_get_or d k 0 + v) d"

definition sum_by_key :: "('k \<times> int) list \<Rightarrow> ('k \<times> int) list" where
  "sum_by_key kvs = fold (\<lambda>(k, v). dict_add k v) kvs []"

lemma sum_by_key_snoc: "sum_by_key (kvs @ [(k, v)]) = dict_add k v (sum_by_key kvs)"
  by (simp add: sum_by_key_def)

lemma sum_by_key_get:
  "dict_get_or (sum_by_key kvs) k 0 = sum_list (map snd (filter (\<lambda>(k', v). k' = k) kvs))"
proof (induction kvs rule: rev_induct)
  case (snoc kv kvs)
  then show ?case
    by (cases kv) (auto simp: sum_by_key_snoc dict_add_def dict_get_or_def update_conv')
qed (simp add: sum_by_key_def dict_get_or_def)

lemma sum_by_key_keys:
  "set (map fst (sum_by_key kvs)) = set (map fst kvs)" "distinct (map fst (sum_by_key kvs))"
proof (induction kvs rule: rev_induct)
  case (snoc kv kvs)
  {
    case 1
    then show ?case using snoc(1)
      by (cases kv) (auto simp: sum_by_key_snoc dict_add_def dict_keys_update simp del: set_map)
  next
    case 2
    then show ?case using snoc(2) by (cases kv) (simp add: sum_by_key_snoc dict_add_def distinct_update)
  }
qed (simp_all add: sum_by_key_def)

lemma sum_by_key_mem:
  "(k, s) \<in> set (sum_by_key kvs) \<longleftrightarrow>
     k \<in> fst ` set kvs \<and> s = sum_list (map snd (filter (\<lambda>(k', v). k' = k) kvs))"
proof -
  have d: "distinct (map fst (sum_by_key kvs))" by (rule sum_by_key_keys)
  have "(k, s) \<in> set (sum_by_key kvs) \<longleftrightarrow> map_of (sum_by_key kvs) k = Some s" using d by simp
  also have "\<dots> \<longleftrightarrow> k \<in> set (map fst (sum_by_key kvs)) \<and> s = dict_get_or (sum_by_key kvs) k 0"
    by (cases "map_of (sum_by_key kvs) k") (auto simp: dict_get_or_def map_of_eq_None_iff image_iff dest!: map_of_SomeD, force+)
  finally show ?thesis using sum_by_key_keys(1) [of kvs] by (simp add: sum_by_key_get)
qed

lemma dict_add_total: "distinct (map fst d) \<Longrightarrow> sum_list (map snd (dict_add k v d)) = sum_list (map snd d) + v"
  unfolding dict_add_def dict_get_or_def
  by (induction d) (auto simp: update_new_key split: option.splits)

lemma sum_by_key_total: "sum_list (map snd (sum_by_key kvs)) = sum_list (map snd kvs)"
proof (induction kvs rule: rev_induct)
  case (snoc kv kvs)
  then show ?case by (cases kv) (simp add: sum_by_key_snoc dict_add_total sum_by_key_keys)
qed (simp add: sum_by_key_def)

text \<open>A loop that may raise and adds to an accumulator, as a sum.\<close>

lemma foldR_append: "foldR f (xs @ ys) s = rbind (foldR f xs s) (foldR f ys)"
proof (induction xs arbitrary: s)
  case (Cons x xs)
  then show ?case by (cases "f x s") simp_all
qed simp

lemma foldR_sum:
  fixes f :: "'a \<Rightarrow> int \<Rightarrow> int res"
  assumes "\<And>x acc. x \<in> set xs \<Longrightarrow> f x acc = rbind (g x) (\<lambda>v. Inr (acc + v))"
  shows "foldR f xs acc = rbind (mapR g xs) (\<lambda>vs. Inr (acc + sum_list vs))"
  using assms
proof (induction xs arbitrary: acc)
  case (Cons x xs)
  then show ?case by (cases "g x"; cases "mapR g xs") simp_all
qed simp

text \<open>\<open>hex(n)\<close>.\<close>

fun show_hex_nat :: "nat \<Rightarrow> string" where
  "show_hex_nat n = (if n < 16 then [nibble_char n] else show_hex_nat (n div 16) @ [nibble_char (n mod 16)])"

declare show_hex_nat.simps [simp del]

definition py_hex :: "int \<Rightarrow> string" where
  "py_hex i = (if i < 0 then ''-0x'' @ show_hex_nat (nat (- i)) else ''0x'' @ show_hex_nat (nat i))"

lemma nibble_not_underscore: "n < 16 \<Longrightarrow> nibble_char n \<noteq> CHR ''_''"
  by (metis (mono_tags) hex_val_nibble hex_val_underscore option.distinct(1))

lemma parse_num_show_hex_append:
  "parse_num 16 a p (show_hex_nat n @ s) = parse_num 16 (a * 16 ^ length (show_hex_nat n) + n) True s"
proof (induction n arbitrary: a p s rule: show_hex_nat.induct)
  case (1 n)
  show ?case
  proof (cases "n < 16")
    case True
    then show ?thesis by (simp add: show_hex_nat.simps [of n] nibble_not_underscore hex_val_nibble)
  next
    case False
    let ?t = "nibble_char (n mod 16) # s"
    have "parse_num 16 a p (show_hex_nat n @ s) = parse_num 16 a p (show_hex_nat (n div 16) @ ?t)"
      using False by (simp add: show_hex_nat.simps [of n])
    also have "\<dots> = parse_num 16 (a * 16 ^ length (show_hex_nat (n div 16)) + n div 16) True ?t"
      using 1 False by blast
    also have "\<dots> = parse_num 16 ((a * 16 ^ length (show_hex_nat (n div 16)) + n div 16) * 16
        + n mod 16) True s"
      by (simp add: nibble_not_underscore hex_val_nibble)
    finally show ?thesis using False by (simp add: show_hex_nat.simps [of n] algebra_simps)
  qed
qed

lemma show_hex_chars: "c \<in> set (show_hex_nat n) \<Longrightarrow> \<exists>d < 16. c = nibble_char d"
proof (induction n rule: show_hex_nat.induct)
  case (1 n)
  show ?case
  proof (cases "n < 16")
    case True
    with "1.prems" have "c = nibble_char n" by (simp add: show_hex_nat.simps [of n])
    with True show ?thesis by (intro exI [of _ n]) simp
  next
    case False
    have "show_hex_nat n = show_hex_nat (n div 16) @ [nibble_char (n mod 16)]"
      using False by (simp add: show_hex_nat.simps [of n])
    with "1.prems" have "c \<in> set (show_hex_nat (n div 16)) \<or> c = nibble_char (n mod 16)"
      by (simp only: set_append Un_iff) auto
    then show ?thesis
    proof
      assume "c \<in> set (show_hex_nat (n div 16))"
      then show ?thesis by (rule "1.IH" [OF False])
    next
      assume "c = nibble_char (n mod 16)"
      then show ?thesis by (intro exI [of _ "n mod 16"]) simp
    qed
  qed
qed

lemma show_hex_not_Nil [simp]: "show_hex_nat n \<noteq> []"
  by (subst show_hex_nat.simps) simp

subsection \<open>Bytes as numbers\<close>

definition be_value :: "byte list \<Rightarrow> nat" where
  "be_value bs = fold (\<lambda>b n. 256 * n + unat b) bs 0"

lemma be_value_snoc: "be_value (bs @ [b]) = 256 * be_value bs + unat b"
  by (simp add: be_value_def)

lemma byte_hex_value:
  "parse_num 16 a p (byte_hex b @ s) = parse_num 16 (256 * a + unat b) True s"
proof -
  have "unat b div 16 < 16" "unat b mod 16 < 16" using byte_nat_lt [of b] by auto
  then show ?thesis by (simp add: byte_hex_def nibble_not_underscore hex_val_nibble algebra_simps)
qed

lemma parse_num_to_hex:
  "parse_num 16 a p (to_hex bs @ s) = parse_num 16 (fold (\<lambda>b n. 256 * n + unat b) bs a) (p \<or> bs \<noteq> []) s"
proof (induction bs arbitrary: a p)
  case (Cons b bs)
  then show ?case by (simp add: to_hex_def byte_hex_value)
qed (simp add: to_hex_def)

lemma be_value_zero: "be_value bs = 0 \<longleftrightarrow> set bs \<subseteq> {0}"
  by (induction bs rule: rev_induct) (auto simp: be_value_snoc unat_eq_zero be_value_def [of "[]"])

lemma be_value_bound: "be_value bs < 256 ^ length bs"
proof (induction bs rule: rev_induct)
  case (snoc b bs)
  then have "256 * be_value bs + 256 \<le> 256 * 256 ^ length bs" by simp
  with byte_nat_lt [of b] show ?case by (simp add: be_value_snoc)
qed (simp add: be_value_def)

lemma to_hex_chars: "c \<in> set (to_hex bs) \<Longrightarrow> \<exists>d < 16. c = nibble_char d"
proof -
  assume "c \<in> set (to_hex bs)"
  then obtain b where b: "c \<in> set (byte_hex b)" by (auto simp: to_hex_def)
  have lt: "unat b div 16 < 16" "unat b mod 16 < 16" using byte_nat_lt [of b] by auto
  from b have "c = nibble_char (unat b div 16) \<or> c = nibble_char (unat b mod 16)" by (simp add: byte_hex_def)
  with lt show ?thesis by blast
qed

lemma nibble_facts:
  assumes "d < 16"
  shows "nibble_char d \<notin> {CHR ''x'', CHR ''X'', CHR ''-'', CHR ''+'', CHR ''_''}"
    and "lower_char (nibble_char d) = nibble_char d"
proof -
  have "hex_val c = None" if "c \<in> {CHR ''x'', CHR ''X'', CHR ''-'', CHR ''+'', CHR ''_''}" for c
    using that by (elim insertE) (simp_all add: hex_val_def)
  with hex_val_nibble [OF assms] show "nibble_char d \<notin> {CHR ''x'', CHR ''X'', CHR ''-'', CHR ''+'', CHR ''_''}"
    by (metis option.distinct(1))
  show "lower_char (nibble_char d) = nibble_char d"
    using assms by (simp add: lower_char_def nibble_char_def Let_def)
qed

lemma lower_to_hex [simp]: "lower (to_hex bs) = to_hex bs"
proof -
  have "map lower_char (to_hex bs) = map (\<lambda>c. c) (to_hex bs)"
    by (rule map_cong) (use to_hex_chars nibble_facts(2) in blast)+
  then show ?thesis by (simp add: lower_def)
qed

lemma int_base16_nibbles:
  assumes "s \<noteq> []" "\<And>c. c \<in> set s \<Longrightarrow> \<exists>d < 16. c = nibble_char d" "parse_num 16 0 False s = Some n"
  shows "int_base16 (''0x'' @ s) = Inr (int n)" "int_base16 s = Inr (int n)"
proof -
  obtain c cs where s: "s = c # cs" using assms(1) by (cases s) auto
  have nib: "x \<notin> {CHR ''x'', CHR ''X'', CHR ''-'', CHR ''+'', CHR ''_''} \<and> \<not> is_ws x" if "x \<in> set s" for x
    using assms(2) [OF that] nibble_facts(1) is_ws_nibble by (elim exE conjE) simp
  have ws: "\<not> is_ws x" if "x \<in> set (''0x'' @ s)" for x
  proof -
    from that have "x = CHR ''0'' \<or> x = CHR ''x'' \<or> x \<in> set s" by simp
    then show ?thesis using nib by (elim disjE) (simp_all add: is_ws_def)
  qed
  have "strip_ws (''0x'' @ s) = ''0x'' @ s" by (rule strip_ws_free) (rule ws)
  then show "int_base16 (''0x'' @ s) = Inr (int n)"
    using assms(3) nib by (simp add: int_base16_def parse_hex_def parse_signed_def s starts_with_def)
  have "strip_ws s = s" by (rule strip_ws_free) (use nib in blast)
  moreover have "\<not> starts_with s ''0x'' \<and> \<not> starts_with s ''0X''"
  proof (cases cs)
    case (Cons d ds)
    then show ?thesis using nib [of d] by (simp add: s starts_with_def)
  qed (simp add: s starts_with_def)
  ultimately show "int_base16 s = Inr (int n)"
    using assms(3) nib [of c] by (simp add: int_base16_def parse_hex_def parse_signed_def s)
qed

lemma int_base16_to_hex:
  assumes "bs \<noteq> []"
  shows "int_base16 (''0x'' @ to_hex bs) = Inr (int (be_value bs))" "int_base16 (to_hex bs) = Inr (int (be_value bs))"
proof -
  have "parse_num 16 0 False (to_hex bs) = Some (be_value bs)"
    using parse_num_to_hex [of 0 False bs "[]"] assms by (simp add: be_value_def)
  moreover have "to_hex bs \<noteq> []" using assms length_to_hex [of bs] by (cases "to_hex bs") auto
  ultimately have "int_base16 (''0x'' @ to_hex bs) = Inr (int (be_value bs))
      \<and> int_base16 (to_hex bs) = Inr (int (be_value bs))"
    by (intro conjI int_base16_nibbles to_hex_chars)
  then show "int_base16 (''0x'' @ to_hex bs) = Inr (int (be_value bs))" "int_base16 (to_hex bs) = Inr (int (be_value bs))"
    by simp_all
qed

lemma strip_0x_prefixed [simp]: "strip_0x (''0x'' @ s) = s"
  by (simp add: strip_0x_def starts_with_def)

lemma drop_to_hex: "drop (2 * n) (to_hex bs) = to_hex (drop n bs)"
proof (induction n arbitrary: bs)
  case (Suc n)
  then show ?case by (cases bs) (simp_all add: to_hex_def byte_hex_def)
qed simp

lemma int_base16_hex:
  assumes "0 \<le> i"
  shows "int_base16 (py_hex i) = Inr i"
proof -
  have "parse_num 16 0 False (show_hex_nat (nat i)) = Some (nat i)"
    using parse_num_show_hex_append [of 0 False "nat i" "[]"] by simp
  then have "int_base16 (''0x'' @ show_hex_nat (nat i)) = Inr (int (nat i))"
    by (intro int_base16_nibbles(1) show_hex_chars) simp_all
  with assms show ?thesis by (simp add: py_hex_def)
qed

lemma set_update_subset: "set (AList.update k v d) \<subseteq> insert (k, v) (set d)"
  by (induction d) auto

section \<open>Substrings\<close>

fun contains :: "string \<Rightarrow> string \<Rightarrow> bool" where
  \<comment> \<open>\<open>sub in s\<close>\<close>
  "contains sub [] = (sub = [])"
| "contains sub (c # s) = (starts_with (c # s) sub \<or> contains sub s)"

lemma contains_iff: "contains sub s \<longleftrightarrow> (\<exists>pre post. s = pre @ sub @ post)"
proof (induction s)
  case (Cons c s)
  have "starts_with (c # s) sub \<longleftrightarrow> (\<exists>post. c # s = sub @ post)"
    unfolding starts_with_def by (metis append_eq_conv_conj append_take_drop_id)
  then show ?case using Cons by (auto simp: append_eq_Cons_conv Cons_eq_append_conv)
qed auto

end
