(* ===== verification/Py_Float.thy ===== *)
theory Py_Float
  imports Prelude "HOL-Library.Log_Nat"
begin

text \<open>
  The floats of the source: IEEE doubles, as the rationals they stand for. \<open>nearest_double\<close> rounds to
  the nearest one, ties to the even significand, with the subnormal spacing at the bottom; converting
  an integer and dividing two integers raise \<open>OverflowError\<close> where the result is out of range.
\<close>

section \<open>Rounding\<close>

text \<open>The exponent of the leading bit of a positive rational.\<close>

definition rat_log2 :: "rat \<Rightarrow> int" where
  "rat_log2 x = (case quotient_of x of (a, b) \<Rightarrow>
     (let k = bitlen a - bitlen b in if 2 powi k \<le> x then k else k - 1))"

text \<open>The nearest integer, an even one when two are equally near.\<close>

definition round_even :: "rat \<Rightarrow> int" where
  "round_even x = (let f = \<lfloor>x\<rfloor>; d = x - of_int f in
     if d < 1 / 2 \<or> (d = 1 / 2 \<and> even f) then f else f + 1)"

text \<open>The spacing of the doubles around a rational.\<close>

definition double_ulp :: "rat \<Rightarrow> rat" where
  "double_ulp x = 2 powi (max (rat_log2 \<bar>x\<bar> - 52) (- 1074))"

definition nearest_double :: "rat \<Rightarrow> rat" where
  "nearest_double x = (if x = 0 then 0 else of_int (round_even (x / double_ulp x)) * double_ulp x)"

definition checked_double :: "rat \<Rightarrow> rat res" where
  "checked_double x = (let y = nearest_double x in
     if 2 ^ 1024 \<le> \<bar>y\<bar> then Inl (Raise OverflowError ''too large to convert to float'') else Inr y)"

text \<open>\<open>float(n)\<close>, and \<open>m / n\<close> of two integers.\<close>

definition py_float :: "int \<Rightarrow> rat res" where
  "py_float n = checked_double (of_int n)"

definition py_truediv :: "int \<Rightarrow> int \<Rightarrow> rat res" where
  "py_truediv m n = checked_double (of_int m / of_int n)"

section \<open>Error bounds\<close>

lemma pow2_less: "(2 :: rat) powi m < 2 powi n \<longleftrightarrow> m < n"
  by (metis linorder_not_less one_less_numeral_iff power_int_increasing power_int_strict_increasing
      semiring_norm(76) order_less_le one_le_numeral order_less_irrefl order_less_le_trans)

lemma rat_log2_bounds:
  assumes "0 < x" shows "2 powi rat_log2 x \<le> x" "x < 2 powi (rat_log2 x + 1)"
proof -
  obtain a b where ab: "quotient_of x = (a, b)" by (cases "quotient_of x")
  then have b: "0 < b" and x: "x = of_int a / of_int b"
    by (simp_all add: quotient_of_denom_pos quotient_of_div)
  with assms have a: "0 < a" by (simp add: zero_less_divide_iff)
  have bits: "(2 :: rat) powi (bitlen n - 1) \<le> of_int n" "of_int n < (2 :: rat) powi bitlen n" if "0 < n" for n
  proof -
    have n: "1 \<le> bitlen n" using that by (simp add: bitlen_alt_def)
    have "of_int (2 ^ nat (bitlen n - 1)) \<le> (of_int n :: rat)" "of_int n < (of_int (2 ^ nat (bitlen n)) :: rat)"
      using bitlen_bounds [OF that] by (simp_all only: of_int_le_iff of_int_less_iff)
    with n show "(2 :: rat) powi (bitlen n - 1) \<le> of_int n" "of_int n < (2 :: rat) powi bitlen n"
      by (simp_all add: power_int_def)
  qed
  let ?k = "bitlen a - bitlen b"
  have "(2 :: rat) powi (?k - 1) * of_int b \<le> 2 powi (?k - 1) * 2 powi bitlen b"
    using bits(2) [OF b] by (intro mult_left_mono) auto
  also have "\<dots> = 2 powi (bitlen a - 1)" by (simp flip: power_int_add)
  also have "\<dots> \<le> of_int a" using bits(1) [OF a] .
  finally have lo: "2 powi (?k - 1) \<le> x" using b by (simp add: x le_divide_eq)
  have "of_int a < (2 :: rat) powi bitlen a" using bits(2) [OF a] .
  also have "\<dots> = 2 powi (?k + 1) * 2 powi (bitlen b - 1)" by (simp flip: power_int_add)
  also have "\<dots> \<le> 2 powi (?k + 1) * of_int b"
    using bits(1) [OF b] by (intro mult_left_mono) auto
  finally have hi: "x < 2 powi (?k + 1)" using b by (simp add: x divide_less_eq)
  show "2 powi rat_log2 x \<le> x" "x < 2 powi (rat_log2 x + 1)"
    using lo hi by (auto simp: rat_log2_def ab Let_def)
qed

lemma round_even_error: "\<bar>of_int (round_even x) - x\<bar> \<le> 1 / 2"
proof -
  have "0 \<le> x - of_int \<lfloor>x\<rfloor>" "x - of_int \<lfloor>x\<rfloor> < 1" by linarith+
  then show ?thesis by (simp add: round_even_def Let_def abs_le_iff)
qed

lemma round_even_of_int [simp]: "round_even (of_int n) = n"
  by (simp add: round_even_def)

lemma round_even_le: "x \<le> of_int n \<Longrightarrow> round_even x \<le> n"
proof -
  assume x: "x \<le> of_int n"
  show ?thesis
  proof (cases "x = of_int n")
    case False
    with x have "\<lfloor>x\<rfloor> < n" by (simp add: floor_less_iff)
    then show ?thesis by (simp add: round_even_def Let_def)
  qed simp
qed

lemma round_even_nonneg: "0 \<le> x \<Longrightarrow> 0 \<le> round_even x"
proof -
  assume "0 \<le> x"
  then have "0 \<le> \<lfloor>x\<rfloor>" by simp
  then show ?thesis by (simp add: round_even_def Let_def)
qed

lemma double_ulp_pos [simp]: "0 < double_ulp x"
  by (simp add: double_ulp_def)

text \<open>Half a unit in the last place: one part in \<open>2 ^ 53\<close>, or half the least subnormal.\<close>

lemma nearest_double_error: "\<bar>nearest_double x - x\<bar> \<le> max (\<bar>x\<bar> / 2 ^ 53) (2 powi (- 1075))"
proof (cases "x = 0")
  case False
  let ?u = "double_ulp x"
  have "nearest_double x - x = (of_int (round_even (x / ?u)) - x / ?u) * ?u"
    using False by (simp add: nearest_double_def algebra_simps less_imp_neq [symmetric])
  also have "\<bar>\<dots>\<bar> \<le> 1 / 2 * ?u"
    unfolding abs_mult using round_even_error by (intro mult_mono) (auto intro: less_imp_le)
  also have "\<dots> \<le> max (\<bar>x\<bar> / 2 ^ 53) (2 powi (- 1075))"
  proof (cases "rat_log2 \<bar>x\<bar> - 52 \<le> - 1074")
    case True
    then have "1 / 2 * ?u = 2 powi (- 1) * 2 powi (- 1074)" by (simp add: double_ulp_def max_def)
    also have "\<dots> = 2 powi (- 1075)" by (simp flip: power_int_add)
    finally show ?thesis by simp
  next
    case big: False
    then have "1 / 2 * ?u = 2 powi (- 1) * 2 powi (rat_log2 \<bar>x\<bar> - 52)" by (simp add: double_ulp_def max_def)
    also have "\<dots> = 2 powi rat_log2 \<bar>x\<bar> / 2 powi 53"
      by (simp add: power_int_diff flip: power_int_add)
    also have "\<dots> \<le> \<bar>x\<bar> / 2 ^ 53" using rat_log2_bounds(1) [of "\<bar>x\<bar>"] False by (simp add: divide_right_mono)
    finally show ?thesis by simp
  qed
  finally show ?thesis .
qed (simp add: nearest_double_def)

lemma double_ulp_inverse:
  assumes "rat_log2 \<bar>x\<bar> \<le> 52" obtains k where "1 / double_ulp x = 2 ^ k"
proof
  let ?e = "max (rat_log2 \<bar>x\<bar> - 52) (- 1074)"
  have e: "?e = - int (nat (- ?e))" using assms by simp
  show "1 / double_ulp x = 2 ^ nat (- ?e)"
    unfolding double_ulp_def by (subst e) (simp add: power_int_minus divide_inverse del: of_nat_nat int_nat_eq)
qed

lemma nearest_double_int:
  assumes "\<bar>n\<bar> < 2 ^ 53" shows "nearest_double (of_int n) = of_int n"
proof (cases "n = 0")
  case False
  let ?x = "of_int n :: rat"
  have "(2 :: rat) powi rat_log2 \<bar>?x\<bar> \<le> \<bar>?x\<bar>" using rat_log2_bounds(1) False by simp
  also have "\<dots> < 2 powi 53"
  proof -
    have "of_int \<bar>n\<bar> < (of_int (2 ^ 53) :: rat)" using assms by (simp only: of_int_less_iff)
    then show ?thesis by simp
  qed
  finally have "rat_log2 \<bar>?x\<bar> < 53" using pow2_less by blast
  then obtain k where k: "1 / double_ulp ?x = 2 ^ k" using double_ulp_inverse [of ?x] by auto
  have "?x / double_ulp ?x = ?x * (1 / double_ulp ?x)" by simp
  also have "\<dots> = of_int (n * 2 ^ k)" by (simp only: k of_int_mult of_int_power of_int_numeral)
  finally have q: "?x / double_ulp ?x = of_int (n * 2 ^ k)" .
  have "of_int (round_even (?x / double_ulp ?x)) = ?x / double_ulp ?x"
    unfolding q round_even_of_int ..
  then show ?thesis using double_ulp_pos [of ?x] False by (simp add: nearest_double_def del: double_ulp_pos)
qed (simp add: nearest_double_def)

lemma tiny_less: "(2 :: rat) powi (- 1075) < 1 / 2 ^ 53"
proof -
  have "(2 :: rat) powi (- 1075) < 2 powi (- 53)" by (simp only: pow2_less)
  also have "\<dots> = 1 / 2 ^ 53" by (simp add: power_int_def power_one_over)
  finally show ?thesis .
qed

lemma nearest_double_int_error: "\<bar>nearest_double (of_int n) - of_int n\<bar> \<le> \<bar>of_int n\<bar> / 2 ^ 53"
proof (cases "n = 0")
  case False
  then have "1 \<le> \<bar>n\<bar>" by simp
  then have "(of_int 1 :: rat) \<le> of_int \<bar>n\<bar>" by (simp only: of_int_le_iff)
  then have "(1 :: rat) / 2 ^ 53 \<le> \<bar>of_int n\<bar> / 2 ^ 53" by (intro divide_right_mono) simp_all
  with tiny_less nearest_double_error [of "of_int n"] show ?thesis by linarith
qed (simp add: nearest_double_def)

text \<open>The quotient of two rounded integers, rounded: within four units of \<open>2 ^ -53\<close>.\<close>

lemma rounded_quotient:
  assumes "\<bar>a - A\<bar> \<le> \<bar>A\<bar> / 2 ^ 53" "\<bar>b - B\<bar> \<le> B / 2 ^ 53" "0 < B"
  shows "\<bar>nearest_double (a / b) - A / B\<bar> \<le> \<bar>A / B\<bar> / 2 ^ 51 + 2 powi (- 1075)"
proof -
  have lo: "4 / 5 * B \<le> b" using assms(2,3) unfolding abs_le_iff by (simp add: field_simps)
  then have b: "0 < b" using assms(3) by linarith
  have "(a / b - A / B) * b = (a - A) - A / B * (b - B)" using b assms(3) by (simp add: field_simps)
  then have "\<bar>a / b - A / B\<bar> * b = \<bar>(a - A) - A / B * (b - B)\<bar>" using b by (metis abs_mult abs_of_pos)
  also have "\<dots> \<le> \<bar>a - A\<bar> + \<bar>A / B\<bar> * \<bar>b - B\<bar>" unfolding abs_mult [symmetric] by (rule abs_triangle_ineq4)
  also have "\<dots> \<le> \<bar>A\<bar> / 2 ^ 53 + \<bar>A / B\<bar> * (B / 2 ^ 53)"
    using assms by (intro add_mono mult_left_mono) simp_all
  also have "\<dots> = \<bar>A / B\<bar> * B / 2 ^ 52" using assms(3) by (simp add: abs_divide)
  finally have "\<bar>a / b - A / B\<bar> * b \<le> \<bar>A / B\<bar> * B / 2 ^ 52" .
  moreover have "\<bar>a / b - A / B\<bar> * (4 / 5 * B) \<le> \<bar>a / b - A / B\<bar> * b" using lo by (rule mult_left_mono) simp
  ultimately have "(\<bar>a / b - A / B\<bar> * (4 / 5)) * B \<le> (\<bar>A / B\<bar> / 2 ^ 52) * B" by (simp add: mult.assoc)
  then have 1: "\<bar>a / b - A / B\<bar> * (4 / 5) \<le> \<bar>A / B\<bar> / 2 ^ 52" using assms(3) by (simp only: mult_le_cancel_right_pos)
  have "\<bar>a / b\<bar> \<le> \<bar>a / b - A / B\<bar> + \<bar>A / B\<bar>"
    using abs_triangle_ineq [of "a / b - A / B" "A / B"] by simp
  moreover have "\<bar>nearest_double (a / b) - a / b\<bar> \<le> \<bar>a / b\<bar> / 2 ^ 53 + 2 powi (- 1075)"
    using nearest_double_error [of "a / b"] by (rule order_trans) (simp add: max_def)
  moreover have "\<bar>nearest_double (a / b) - A / B\<bar> \<le> \<bar>nearest_double (a / b) - a / b\<bar> + \<bar>a / b - A / B\<bar>"
    using abs_triangle_ineq [of "nearest_double (a / b) - a / b" "a / b - A / B"] by simp
  moreover have "y \<le> q / 2 ^ 51 + t" if "d * (4 / 5) \<le> q / 2 ^ 52" "x \<le> d + q" "z \<le> x / 2 ^ 53 + t" "y \<le> z + d" "0 \<le> q"
    for d q x y z t :: rat using that by (simp add: field_simps)
  ultimately show ?thesis using 1 abs_ge_zero by blast
qed

lemma nearest_double_nonneg: "0 \<le> x \<Longrightarrow> 0 \<le> nearest_double x"
  by (simp add: nearest_double_def round_even_nonneg less_imp_le)

lemma nearest_double_le_one:
  assumes "0 \<le> x" "x \<le> 1" shows "nearest_double x \<le> 1"
proof (cases "x = 0")
  case False
  have "(2 :: rat) powi rat_log2 x \<le> 2 powi 0" using rat_log2_bounds(1) [of x] assms False by simp
  then have "rat_log2 \<bar>x\<bar> \<le> 52" using pow2_less [of 0 "rat_log2 x"] assms by fastforce
  then obtain k where k: "1 / double_ulp x = 2 ^ k" by (rule double_ulp_inverse)
  have "x / double_ulp x \<le> 1 / double_ulp x" using assms by (simp add: divide_right_mono less_imp_le)
  also have "\<dots> = of_int (2 ^ k)" by (simp add: k)
  finally have "round_even (x / double_ulp x) \<le> 2 ^ k" by (rule round_even_le)
  then have "of_int (round_even (x / double_ulp x)) \<le> (of_int (2 ^ k) :: rat)"
    by (simp only: of_int_le_iff)
  then have "of_int (round_even (x / double_ulp x)) \<le> 1 / double_ulp x" by (simp add: k)
  then have "of_int (round_even (x / double_ulp x)) * double_ulp x \<le> 1" by (simp add: le_divide_eq)
  with False show ?thesis by (simp add: nearest_double_def)
qed (simp add: nearest_double_def)

text \<open>A share of at most \<open>2 ^ 53\<close> cases rounds to one only when it is one.\<close>

lemma nearest_double_share:
  assumes "0 \<le> m" "m \<le> n" "0 < n" "n \<le> 2 ^ 53"
  shows "0 \<le> nearest_double (of_int m / of_int n)" "nearest_double (of_int m / of_int n) \<le> 1"
    "nearest_double (of_int m / of_int n) = 1 \<longleftrightarrow> m = n"
proof -
  let ?x = "of_int m / of_int n :: rat"
  have x: "0 \<le> ?x" "?x \<le> 1" using assms by (simp_all add: divide_le_eq)
  then show "0 \<le> nearest_double ?x" "nearest_double ?x \<le> 1"
    by (simp_all only: nearest_double_nonneg nearest_double_le_one)
  have "nearest_double ?x < 1" if "m < n"
  proof -
    have "(of_int (m + 1) :: rat) \<le> of_int n" "(of_int n :: rat) \<le> of_int (2 ^ 53)"
      using that assms(4) by (simp_all only: of_int_le_iff)
    then have "?x \<le> 1 - 1 / 2 ^ 53" using assms(3) by (simp add: field_simps)
    moreover have "nearest_double ?x \<le> ?x + max (?x / 2 ^ 53) (2 powi (- 1075))"
      using nearest_double_error [of ?x] unfolding abs_of_nonneg [OF x(1)] by linarith
    moreover note tiny_less
    moreover have "?x / 2 ^ 53 < 1 / 2 ^ 53" using that assms by (simp add: divide_less_eq)
    ultimately show ?thesis by linarith
  qed
  moreover have "nearest_double 1 = 1" using nearest_double_int [of 1] by simp
  ultimately show "nearest_double ?x = 1 \<longleftrightarrow> m = n" using assms by fastforce
qed

end
