(* ===== verification/Sha256.thy ===== *)
theory Sha256
  imports Prelude
begin

unbundle bit_operations_syntax

text \<open>
  \<open>hashlib.sha256(s.encode()).hexdigest()\<close>, the function behind every durable identifier of the
  pipeline, after FIPS 180-4, on 32-bit words; and the interface of a deterministic identifier:
  a canonical key that is hashed.
\<close>

type_synonym w32 = "32 word"

definition rotr :: "nat \<Rightarrow> w32 \<Rightarrow> w32" where
  "rotr n x = (drop_bit n x) OR (push_bit (32 - n) x)"

text \<open>The constants: the first 32 fractional bits of the cube roots of the first 64 primes, and of
  the square roots of the first eight. \<open>root_bits e x k r\<close> refines the integer \<open>e\<close>-th root of \<open>x\<close>
  from the bits \<open>r\<close> already found, one bit at a time.\<close>

fun root_bits :: "nat \<Rightarrow> int \<Rightarrow> nat \<Rightarrow> int \<Rightarrow> int" where
  "root_bits e x 0 r = r"
| "root_bits e x (Suc k) r = (let r' = r + 2 ^ k in root_bits e x k (if r' ^ e \<le> x then r' else r))"

definition fraction_bits :: "nat \<Rightarrow> int \<Rightarrow> w32" where
  "fraction_bits e p = of_int (root_bits e (p * 2 ^ (32 * e)) 36 0)"

definition small_primes :: "int list" where
  "small_primes = filter (\<lambda>n. \<forall>d \<in> set [2..17]. d < n \<longrightarrow> n mod d \<noteq> 0) [2..311]"

definition sha_k :: "w32 list" where
  "sha_k = map (fraction_bits 3) small_primes"

type_synonym sha_state = "w32 \<times> w32 \<times> w32 \<times> w32 \<times> w32 \<times> w32 \<times> w32 \<times> w32"

definition sha_init :: sha_state where
  "sha_init = (fraction_bits 2 2, fraction_bits 2 3, fraction_bits 2 5, fraction_bits 2 7,
     fraction_bits 2 11, fraction_bits 2 13, fraction_bits 2 17, fraction_bits 2 19)"

text \<open>Padding to whole 64-byte blocks, with the bit length in the last eight bytes.\<close>

definition sha_pad :: "byte list \<Rightarrow> byte list" where
  "sha_pad bs = (let l = length bs; z = (119 - l mod 64) mod 64 in
     bs @ [0x80] @ replicate z 0 @ map (\<lambda>i. of_int ((8 * int l) div 256 ^ (7 - i))) [0..<8])"

fun words_of :: "byte list \<Rightarrow> w32 list" where
  "words_of (a # b # c # d # bs) =
     (push_bit 24 (ucast a) OR push_bit 16 (ucast b) OR push_bit 8 (ucast c) OR ucast d)
       # words_of bs"
| "words_of _ = []"

text \<open>The message schedule, newest word first: sixteen words of the block, then 48 more.\<close>

definition sched_word :: "w32 list \<Rightarrow> w32" where
  "sched_word ws = (let w2 = ws ! 1; w15 = ws ! 14 in
     (rotr 17 w2 XOR rotr 19 w2 XOR drop_bit 10 w2) + ws ! 6
     + (rotr 7 w15 XOR rotr 18 w15 XOR drop_bit 3 w15) + ws ! 15)"

primrec schedule :: "nat \<Rightarrow> w32 list \<Rightarrow> w32 list" where
  "schedule 0 ws = ws"
| "schedule (Suc n) ws = schedule n (sched_word ws # ws)"

fun sha_round :: "w32 \<times> w32 \<Rightarrow> sha_state \<Rightarrow> sha_state" where
  "sha_round (k, w) (a, b, c, d, e, f, g, h) =
     (let t1 = h + (rotr 6 e XOR rotr 11 e XOR rotr 25 e) + ((e AND f) XOR ((NOT e) AND g)) + k + w;
          t2 = (rotr 2 a XOR rotr 13 a XOR rotr 22 a) + ((a AND b) XOR (a AND c) XOR (b AND c))
      in (t1 + t2, a, b, c, d + t1, e, f, g))"

fun state_add :: "sha_state \<Rightarrow> sha_state \<Rightarrow> sha_state" where
  "state_add (a, b, c, d, e, f, g, h) (a', b', c', d', e', f', g', h') =
     (a + a', b + b', c + c', d + d', e + e', f + f', g + g', h + h')"

definition compress :: "w32 list \<Rightarrow> sha_state \<Rightarrow> sha_state" where
  "compress block st = state_add st (fold sha_round (zip sha_k (rev (schedule 48 (rev block)))) st)"

function blocks :: "w32 list \<Rightarrow> sha_state \<Rightarrow> sha_state" where
  "blocks ws st = (if ws = [] then st else blocks (drop 16 ws) (compress (take 16 ws) st))"
  by pat_completeness auto
termination by (relation "measure (\<lambda>(ws, _). length ws)") auto

declare blocks.simps [simp del]

definition word_bytes :: "w32 \<Rightarrow> byte list" where
  "word_bytes w = [ucast (drop_bit 24 w), ucast (drop_bit 16 w), ucast (drop_bit 8 w), ucast w]"

definition sha256 :: "byte list \<Rightarrow> byte list" where
  "sha256 bs = (case blocks (words_of (sha_pad bs)) sha_init of (a, b, c, d, e, f, g, h) \<Rightarrow>
     concat (map word_bytes [a, b, c, d, e, f, g, h]))"

definition sha256_hex :: "string \<Rightarrow> string" where
  "sha256_hex s = to_hex (sha256 (utf8 s))"

lemma length_sha256 [simp]: "length (sha256 bs) = 32"
  by (simp add: sha256_def word_bytes_def split: prod.splits)

lemma length_sha256_hex [simp]: "length (sha256_hex s) = 64"
  by (simp add: sha256_hex_def)


section \<open>Identifiers that hash a canonical key\<close>

text \<open>
  Every identifier of the pipeline is \<open>sha256("tag|field|field|...")\<close>. The interface below is
  what replay relies on: the identifier is a function of the fields alone, and, as long as no
  field holds the separator, two keys are equal only when all fields are. The digest itself is
  a 256-bit function of texts of any length, so it cannot be injective; where a lemma needs
  two digests to differ it asks for the two keys at hand not to collide.
\<close>

definition pipe_free :: "string list \<Rightarrow> bool" where
  "pipe_free ps = (\<forall>p \<in> set ps. CHR ''|'' \<notin> set p)"

lemma pipe_free_simps [simp]:
  "pipe_free []" "pipe_free (p # ps) = (CHR ''|'' \<notin> set p \<and> pipe_free ps)"
  by (simp_all add: pipe_free_def)

definition canonical_key :: "string \<Rightarrow> string list \<Rightarrow> string" where
  "canonical_key tag fields = join ''|'' (tag # fields)"

lemma canonical_key_inj:
  assumes "CHR ''|'' \<notin> set tag" "pipe_free fs" "pipe_free gs"
  shows "canonical_key tag fs = canonical_key tag gs \<longleftrightarrow> fs = gs"
proof -
  have "join [CHR ''|''] (tag # fs) = join [CHR ''|''] (tag # gs) \<longleftrightarrow> tag # fs = tag # gs"
    by (rule join_inj) (use assms in \<open>auto simp: pipe_free_def\<close>)
  then show ?thesis by (simp add: canonical_key_def)
qed

lemma canonical_key_tag:
  assumes "CHR ''|'' \<notin> set tag" "CHR ''|'' \<notin> set tag'" "fs \<noteq> []" "gs \<noteq> []"
    and "canonical_key tag fs = canonical_key tag' gs"
  shows "tag = tag'"
proof -
  have "hd (split_on CHR ''|'' (canonical_key t xs)) = t" if "CHR ''|'' \<notin> set t" "xs \<noteq> []" for t xs
    using that by (cases xs) (simp_all add: canonical_key_def split_on_append)
  then show ?thesis using assms by metis
qed

text \<open>No two distinct texts among these keys share a digest.\<close>

definition collision_free :: "string set \<Rightarrow> bool" where
  "collision_free ks = inj_on sha256_hex ks"

locale hashed_id =
  fixes ident :: "'a \<Rightarrow> string" and tag :: string and fields :: "'a \<Rightarrow> string list"
  assumes ident_hash: "ident x = sha256_hex (canonical_key tag (fields x))"
    and tag_free: "CHR ''|'' \<notin> set tag"
begin

lemma ident_length: "length (ident x) = 64"
  by (simp add: ident_hash)

lemma ident_replay: "fields x = fields y \<Longrightarrow> ident x = ident y"
  by (simp add: ident_hash)

lemma ident_distinct:
  assumes "pipe_free (fields x)" "pipe_free (fields y)"
    and "collision_free {canonical_key tag (fields x), canonical_key tag (fields y)}"
  shows "ident x = ident y \<longleftrightarrow> fields x = fields y"
  using assms canonical_key_inj [OF tag_free assms(1,2)]
  by (auto simp: ident_hash collision_free_def dest: inj_onD)

end

text \<open>Two families of identifiers with different tags live in different name spaces.\<close>

locale two_hashed_ids = a: hashed_id ident tag fields + b: hashed_id ident' tag' fields'
  for ident :: "'a \<Rightarrow> string" and tag fields and ident' :: "'b \<Rightarrow> string" and tag' fields' +
  assumes tags_differ: "tag \<noteq> tag'"
    and fields_ne: "fields x \<noteq> []" and fields_ne': "fields' y \<noteq> []"
begin

lemma name_spaces_apart:
  assumes "collision_free {canonical_key tag (fields x), canonical_key tag' (fields' y)}"
  shows "ident x \<noteq> ident' y"
proof
  assume "ident x = ident' y"
  then have "canonical_key tag (fields x) = canonical_key tag' (fields' y)"
    using assms by (auto simp: a.ident_hash b.ident_hash collision_free_def dest: inj_onD)
  then have "tag = tag'"
    by (rule canonical_key_tag [OF a.tag_free b.tag_free fields_ne fields_ne'])
  with tags_differ show False ..
qed

end

end
