(* ===== verification/Evm_Types.thy ===== *)
theory Evm_Types
  imports Sha256
begin

text \<open>
  \<open>decoder/types.py\<close>: the records shared by all components, with a prefix on each field that
  tells the records apart. \<open>RawTrace\<close> is recursive, so it is a datatype over a record of the
  fields of one call frame. The union \<open>DecodedEvent | DecodedCall | None\<close> of a decode result is
  an option of a two-constructor datatype.
\<close>

section \<open>Raw artifacts\<close>

record BlockHeader =
  bh_chain_id :: int
  bh_block_number :: int
  bh_block_hash :: string
  bh_parent_hash :: string
  bh_timestamp :: int
  bh_miner :: "string option"
  bh_base_fee_per_gas :: "int option"

record Transaction =
  tx_chain_id :: int
  tx_block_number :: int
  tx_block_hash :: string
  tx_tx_hash :: string
  tx_tx_index :: int
  tx_from_addr :: string
  tx_to_addr :: "string option"
  tx_value :: int
  tx_input_data :: string
  tx_gas :: int
  tx_gas_price :: "int option"
  tx_max_fee_per_gas :: "int option"
  tx_max_priority_fee_per_gas :: "int option"
  tx_nonce :: int

record Block =
  bk_header :: BlockHeader
  bk_transaction_hashes :: "string list"
  bk_full_transactions :: "Transaction list option"

record Receipt =
  rc_chain_id :: int
  rc_block_number :: int
  rc_block_hash :: string
  rc_tx_hash :: string
  rc_tx_index :: int
  rc_status :: int
  rc_gas_used :: int
  rc_effective_gas_price :: "int option"
  rc_cumulative_gas_used :: int
  rc_contract_address :: "string option"
  rc_logs_count :: int

record RawLog =
  lg_chain_id :: int
  lg_block_number :: int
  lg_block_hash :: string
  lg_tx_hash :: string
  lg_tx_index :: int
  lg_log_index :: int
  lg_address :: string
  lg_topics :: "string list"
  lg_data :: string

record TraceFrame =
  tf_chain_id :: int
  tf_block_number :: int
  tf_tx_hash :: string
  tf_type :: string
  tf_from_addr :: string
  tf_to_addr :: "string option"
  tf_value :: int
  tf_gas :: int
  tf_gas_used :: int
  tf_input_data :: string
  tf_output :: string
  tf_error :: "string option"
  tf_revert_reason :: "string option"
  tf_trace_address :: "int list"

datatype RawTrace = RawTrace (frame: TraceFrame) (calls: "RawTrace list")

record TokenBalance =
  tb_chain_id :: int
  tb_block_number :: int
  tb_token_address :: string
  tb_holder_address :: string
  tb_balance :: int

section \<open>Decoded artifacts\<close>

record DecodedEvent =
  de_raw_log_id :: string
  de_decoded_event_id :: string
  de_chain_id :: int
  de_block_number :: int
  de_tx_hash :: string
  de_log_index :: int
  de_contract_address :: string
  de_event_name :: string
  de_event_signature :: string
  de_indexed_params :: pydict
  de_data_params :: pydict

record DecodedCall =
  dc_raw_trace_call_id :: string
  dc_chain_id :: int
  dc_block_number :: int
  dc_tx_hash :: string
  dc_trace_address :: "int list"
  dc_contract_address :: "string option"
  dc_method_name :: string
  dc_method_selector :: string
  dc_params :: pydict
  dc_success :: bool
  dc_parent_success :: bool

record TraceTokenCall =
  tt_raw_trace_call_id :: string
  tt_chain_id :: int
  tt_block_number :: int
  tt_tx_hash :: string
  tt_trace_address :: "int list"
  tt_token_address :: string
  tt_method_name :: string
  tt_from_addr :: string
  tt_to_addr :: string
  tt_amount :: int

datatype DecodeFailureReason = Unknown_topic | Abi_mismatch | Malformed_data
  | Unregistered_contract | Phase_not_found

datatype decoded = DEvent DecodedEvent | DCall DecodedCall

record DecodeResult =
  dr_raw_id :: string
  dr_success :: bool
  dr_decoded :: "decoded option"
  dr_failure_reason :: "DecodeFailureReason option"
  dr_failure_detail :: "string option"

section \<open>Contracts, reorgs, writes\<close>

record Phase =
  ph_contract_address :: string
  ph_abi_version :: string
  ph_from_block :: int
  ph_to_block :: "int option"

record ContractMeta =
  cm_contract_address :: string
  cm_role :: string
  cm_deployed_block :: int
  cm_phases :: "Phase list"

record Abi =
  abi_version :: string
  json_abi :: "pydict list"

record ReorgEvent =
  re_chain_id :: int
  re_block_number :: int
  re_old_block_hash :: string
  re_new_block_hash :: string
  re_detected_at :: int

record PromotionResult =
  pr_chain_id :: int
  pr_promoted_from_block :: int
  pr_promoted_to_block :: int
  pr_promoted_count :: int
  pr_conflicts :: "ReorgEvent list"

record WriteResult =
  wr_gcs_path :: string
  wr_rows :: int
  wr_bytes_written :: int
  wr_run_partition_id :: string

text \<open>The records of the source-manifest sink and of a replay, which the functions declared to return
  them do not build yet.\<close>

record SourceRecord =
  so_run_id :: string
  so_source_name :: string
  so_chain_id :: int
  so_partition_key :: string
  so_gcs_paths :: "string list"
  so_rows :: int
  so_watermark_block :: int

record RunLineage =
  li_run_id :: string
  li_dag_id :: string
  li_sources :: "SourceRecord list"
  li_manifest_ids :: "string list"
  li_started_at :: int
  li_completed_at :: "int option"

record ReplayResult =
  rr_chain_id :: int
  rr_from_block :: int
  rr_to_block :: int
  rr_new_run_partition_id :: string
  rr_raw_rows_deleted :: int
  rr_raw_rows_reingested :: int
  rr_marts_hash_stable :: bool
  rr_mismatched_marts :: "string list"

section \<open>Call trees\<close>

text \<open>The node of a call tree at a path of child positions, and the frames in depth-first
  order.\<close>

fun node_at :: "RawTrace \<Rightarrow> nat list \<Rightarrow> RawTrace option" where
  "node_at t [] = Some t"
| "node_at t (i # p) = (if i < length (calls t) then node_at (calls t ! i) p else None)"

text \<open>A frame succeeded when it carries neither an error nor a revert reason; every strict
  ancestor of the node at a path succeeded.\<close>

definition frame_ok :: "TraceFrame \<Rightarrow> bool" where
  "frame_ok f = (tf_error f = None \<and> tf_revert_reason f = None)"

fun ancestors_ok :: "RawTrace \<Rightarrow> nat list \<Rightarrow> bool" where
  "ancestors_ok t [] = True"
| "ancestors_ok t (i # p) =
     (frame_ok (frame t) \<and> (if i < length (calls t) then ancestors_ok (calls t ! i) p else False))"

lemma node_at_append:
  "node_at t (p @ q) = (case node_at t p of None \<Rightarrow> None | Some s \<Rightarrow> node_at s q)"
  by (induction t p rule: node_at.induct) auto

text \<open>The equality of records and trees is decidable, the size of a tree its number of calls.\<close>

fun tree_size :: "RawTrace \<Rightarrow> nat" where
  "tree_size (RawTrace f cs) = Suc (sum_list (map tree_size cs))"

end
