(* ===== verification/Abi_Registry.thy ===== *)
theory Abi_Registry
  imports Evm_Types
begin

text \<open>
  \<open>decoder/abi_registry.py\<close>: the versioned ABI registry. A registry is the dictionary from
  lowercase address to the phases of the contract with their ABIs. Parameters: \<open>keccak\<close> is
  \<open>eth_utils.crypto.keccak\<close> on text; the YAML documents are given as parsed values, in the order
  of the sorted file names with the stem of each; \<open>abi_dir\<close> gives the parsed ABI file of a name,
  \<open>None\<close> where the file does not exist. The interface of a lookup by address and block, shared
  with the contract registry, is the locale \<open>phase_lookup\<close>.
\<close>

section \<open>Canonical signatures\<close>

function canonical_type :: "pydict \<Rightarrow> string res" where
  "canonical_type d = rbind (dict_index d ''type'') (\<lambda>tv.
     let t = py_str tv in
     if starts_with t ''tuple'' then
       (case map_of d ''components'' of
          None \<Rightarrow> Inr (''()'' @ drop (length ''tuple'') t)
        | Some cv \<Rightarrow> rbind (dict_items cv) (\<lambda>cs. rbind (mapR canonical_type cs) (\<lambda>ts.
            Inr (''('' @ join '','' ts @ '')'' @ drop (length ''tuple'') t))))
     else Inr t)"
  by pat_completeness auto
termination
proof (relation "measure (\<lambda>d. size (PDict d))", goal_cases)
  case 1 show ?case by simp
next
  case (2 d tv t cv cs c)
  then have "size cv < size (PDict d)" "size (PDict c) < size cv"
    by (auto dest: map_of_size dict_items_size)
  then show ?case by simp
qed

declare canonical_type.simps [simp del]

definition input_defs :: "pydict \<Rightarrow> string \<Rightarrow> pydict list res" where
  \<comment> \<open>\<open>d.get(k, [])\<close>, iterated\<close>
  "input_defs d k = (case map_of d k of None \<Rightarrow> Inr [] | Some v \<Rightarrow> dict_items v)"

definition canonical_event_signature :: "pydict \<Rightarrow> string res" where
  "canonical_event_signature event =
     rbind (input_defs event ''inputs'') (\<lambda>inputs.
     rbind (mapR canonical_type inputs) (\<lambda>types.
     rbind (dict_index event ''name'') (\<lambda>name.
       Inr (py_str name @ ''('' @ join '','' types @ '')''))))"

definition canonical_method_signature :: "pydict \<Rightarrow> string res" where
  "canonical_method_signature method =
     rbind (input_defs method ''inputs'') (\<lambda>inputs.
     rbind (mapR canonical_type inputs) (\<lambda>types.
     rbind (dict_index method ''name'') (\<lambda>name.
       Inr (py_str name @ ''('' @ join '','' types @ '')''))))"

text \<open>The first entry of a kind with a name.\<close>

fun find_entry :: "string \<Rightarrow> pyval \<Rightarrow> pydict list \<Rightarrow> pydict option" where
  "find_entry kind name [] = None"
| "find_entry kind name (e # es) =
     (if dict_get e ''type'' = PStr kind \<and> dict_get e ''name'' = name then Some e
      else find_entry kind name es)"

definition event_signature :: "(string \<Rightarrow> byte list) \<Rightarrow> Abi \<Rightarrow> pyval \<Rightarrow> string res" where
  "event_signature keccak abi event_name =
     (case find_entry ''event'' event_name (json_abi abi) of
        Some entry \<Rightarrow> rbind (canonical_event_signature entry) (\<lambda>sig.
          Inr (''0x'' @ to_hex (keccak sig)))
      | None \<Rightarrow> Inl (Raise KeyError
          (''event '' @ py_repr event_name @ '' not in ABI '' @ abi_version abi)))"

definition method_selector :: "(string \<Rightarrow> byte list) \<Rightarrow> Abi \<Rightarrow> pyval \<Rightarrow> string res" where
  "method_selector keccak abi method_name =
     (case find_entry ''function'' method_name (json_abi abi) of
        Some entry \<Rightarrow> rbind (canonical_method_signature entry) (\<lambda>sig.
          Inr (''0x'' @ take 8 (to_hex (keccak sig))))
      | None \<Rightarrow> Inl (Raise KeyError
          (''method '' @ py_repr method_name @ '' not in ABI '' @ abi_version abi)))"

section \<open>Phases and the interface of a lookup\<close>

definition covers :: "Phase \<Rightarrow> int \<Rightarrow> bool" where
  "covers p b = (ph_from_block p \<le> b \<and> (case ph_to_block p of None \<Rightarrow> True | Some t \<Rightarrow> b \<le> t))"

text \<open>At most one of the phases covers any block.\<close>

definition disjoint_phases :: "Phase list \<Rightarrow> bool" where
  "disjoint_phases ps = (\<forall>b. length (filter (\<lambda>p. covers p b) ps) \<le> 1)"

lemma disjoint_phases_Cons: "disjoint_phases (p # ps) \<Longrightarrow> disjoint_phases ps"
  unfolding disjoint_phases_def
proof
  fix b assume "\<forall>b. length (filter (\<lambda>p. covers p b) (p # ps)) \<le> 1"
  from this [THEN spec, of b] show "length (filter (\<lambda>p. covers p b) ps) \<le> 1"
    by (simp split: if_splits)
qed

text \<open>
  \<open>get r a b\<close> is the value of the first phase of the address that covers the block;
  a \<open>KeyError\<close> where the address is unknown or no phase covers the block.
\<close>

locale phase_lookup =
  fixes get :: "'r \<Rightarrow> string \<Rightarrow> int \<Rightarrow> 'v res"
    and entries :: "'r \<Rightarrow> string \<Rightarrow> (Phase \<times> 'v) list option"
  assumes get_unknown: "entries r (lower a) = None \<Longrightarrow> \<exists>m. get r a b = Inl (Raise KeyError m)"
    and get_uncovered: "entries r (lower a) = Some es \<Longrightarrow> \<forall>(p, v) \<in> set es. \<not> covers p b \<Longrightarrow>
      \<exists>m. get r a b = Inl (Raise KeyError m)"
    and get_first: "entries r (lower a) = Some (xs @ (p, v) # ys) \<Longrightarrow>
      \<forall>(q, w) \<in> set xs. \<not> covers q b \<Longrightarrow> covers p b \<Longrightarrow> get r a b = Inr v"
begin

lemma get_cases:
  obtains (unknown) m where "entries r (lower a) = None" "get r a b = Inl (Raise KeyError m)"
  | (uncovered) es m where "entries r (lower a) = Some es" "\<forall>(p, v) \<in> set es. \<not> covers p b"
      "get r a b = Inl (Raise KeyError m)"
  | (found) xs p v ys where "entries r (lower a) = Some (xs @ (p, v) # ys)"
      "\<forall>(q, w) \<in> set xs. \<not> covers q b" "covers p b" "get r a b = Inr v"
proof (cases "entries r (lower a)")
  case None
  then show ?thesis using get_unknown unknown by blast
next
  case (Some es)
  show ?thesis
  proof (cases "\<forall>(p, v) \<in> set es. \<not> covers p b")
    case True
    then show ?thesis using Some get_uncovered uncovered by blast
  next
    case False
    then have "\<exists>e \<in> set es. covers (fst e) b" by force
    from split_list_first_prop [OF this] obtain xs e ys where
      es: "es = xs @ e # ys" "covers (fst e) b" "\<forall>z \<in> set xs. \<not> covers (fst z) b"
      by blast
    then have e: "entries r (lower a) = Some (xs @ (fst e, snd e) # ys)"
      "\<forall>(q, w) \<in> set xs. \<not> covers q b" using Some by auto
    show ?thesis by (rule found [OF e es(2) get_first [OF e es(2)]])
  qed
qed

lemma get_case_insensitive: "get r (lower a) b = get r (lower (lower a)) b"
  by simp

lemma get_sound:
  assumes "get r a b = Inr v"
  shows "\<exists>es p. entries r (lower a) = Some es \<and> (p, v) \<in> set es \<and> covers p b"
  using assms by (cases rule: get_cases [of r a b]) auto

lemma get_only_KeyError:
  assumes "get r a b = Inl e"
  shows "exc_class e = KeyError"
  using assms by (cases rule: get_cases [of r a b]) auto

text \<open>With disjoint phases the order of the entries does not matter.\<close>

lemma get_unique:
  assumes es: "entries r (lower a) = Some es" and d: "disjoint_phases (map fst es)"
    and pv: "(p, v) \<in> set es" "covers p b"
  shows "get r a b = Inr v"
proof -
  obtain xs e ys where s: "es = xs @ e # ys" "covers (fst e) b" "\<forall>z \<in> set xs. \<not> covers (fst z) b"
    using split_list_first_prop [of es "\<lambda>e. covers (fst e) b"] by (metis fst_conv pv)
  have "entries r (lower a) = Some (xs @ (fst e, snd e) # ys)"
    "\<forall>(q, w) \<in> set xs. \<not> covers q b" using es s by auto
  then have g: "get r a b = Inr (snd e)"
    using get_first [of r a xs "fst e" "snd e" ys b] s(2) by simp
  have "length (filter (\<lambda>p. covers p b) (map fst ys)) = 0"
    using d s unfolding disjoint_phases_def by (auto dest!: spec [where x = b])
  then have "\<forall>z \<in> set ys. \<not> covers (fst z) b" by (auto simp: filter_empty_conv)
  with s pv have "(p, v) = e" by auto
  with g show ?thesis by auto
qed

end

section \<open>The registry\<close>

type_synonym AbiRegistry = "(string \<times> (Phase \<times> Abi) list) list"

definition phase_of_def :: "string \<Rightarrow> pydict \<Rightarrow> Phase res" where
  "phase_of_def address phase_def =
     rbind (dict_index phase_def ''abi_version'') (\<lambda>version.
     rbind (rbind (dict_index phase_def ''from_block'') py_int) (\<lambda>from_block.
     rbind (if dict_get phase_def ''to_block'' \<noteq> PNone
            then rbind (py_int (dict_get phase_def ''to_block'')) (\<lambda>t. Inr (Some t))
            else Inr None) (\<lambda>to_block.
       Inr \<lparr>ph_contract_address = address, ph_abi_version = py_str version,
             ph_from_block = from_block, ph_to_block = to_block\<rparr>)))"

definition abi_phase :: "string \<Rightarrow> (string \<Rightarrow> pydict list option) \<Rightarrow> string \<Rightarrow> pyval \<Rightarrow> pydict
    \<Rightarrow> (Phase \<times> Abi) res" where
  "abi_phase abis_dir abi_dir address role phase_def =
     rbind (phase_of_def address phase_def) (\<lambda>phase.
       let abi_file_name = py_str (py_or (dict_get phase_def ''abi_file'')
                                         (PStr (py_str role @ ''.json''))) in
       case abi_dir abi_file_name of
         None \<Rightarrow> Inl (Raise FileNotFoundError
           (''ABI file '' @ repr_str (abis_dir @ ''/'' @ abi_file_name) @ '' missing for ''
            @ address @ ''@'' @ ph_abi_version phase))
       | Some j \<Rightarrow> Inr (phase, \<lparr>abi_version = ph_abi_version phase, json_abi = j\<rparr>))"

definition doc_contracts :: "pyval \<Rightarrow> pydict list res" where
  "doc_contracts doc = (case (if truthy doc then doc else PDict []) of
     PDict d \<Rightarrow> input_defs d ''contracts''
   | _ \<Rightarrow> Inl (Raise AttributeError ''object has no attribute get''))"

definition abi_load_contract :: "string \<Rightarrow> (string \<Rightarrow> pydict list option) \<Rightarrow> string \<Rightarrow> pydict
    \<Rightarrow> AbiRegistry \<Rightarrow> AbiRegistry res" where
  "abi_load_contract abis_dir abi_dir stem contract reg =
     rbind (dict_index contract ''address'') (\<lambda>av.
       let address = lower (py_str av); role = dict_get_or contract ''role'' (PStr stem) in
       rbind (input_defs contract ''phases'') (\<lambda>pds.
       rbind (mapR (abi_phase abis_dir abi_dir address role) pds) (\<lambda>phases.
         Inr (AList.update address phases reg))))"

definition load_from_config :: "string \<Rightarrow> (string \<Rightarrow> pydict list option) \<Rightarrow> (string \<times> pyval) list
    \<Rightarrow> AbiRegistry res" where
  "load_from_config abis_dir abi_dir yaml_files =
     foldR (\<lambda>(stem, doc) reg. rbind (doc_contracts doc) (\<lambda>cs.
       foldR (abi_load_contract abis_dir abi_dir stem) cs reg)) yaml_files []"

fun scan_phases :: "(Phase \<times> Abi) list \<Rightarrow> int \<Rightarrow> Abi option" where
  "scan_phases [] block_number = None"
| "scan_phases ((phase, abi) # rest) block_number =
     (if block_number < ph_from_block phase then scan_phases rest block_number
      else if ph_to_block phase \<noteq> None \<and> block_number > the (ph_to_block phase)
        then scan_phases rest block_number
      else Some abi)"

definition registry_get :: "AbiRegistry \<Rightarrow> string \<Rightarrow> int \<Rightarrow> Abi res" where
  "registry_get reg contract_address block_number = (let addr = lower contract_address in
     case map_of reg addr of
       None \<Rightarrow> Inl (Raise KeyError (''address '' @ repr_str addr @ '' not in ABI registry''))
     | Some es \<Rightarrow> (case scan_phases es block_number of
         Some abi \<Rightarrow> Inr abi
       | None \<Rightarrow> Inl (Raise KeyError (''no ABI phase covers block '' @ show_int block_number
           @ '' for address '' @ repr_str addr))))"

definition registry_addresses :: "AbiRegistry \<Rightarrow> string list" where
  "registry_addresses reg = map fst reg"

definition registry_phases :: "AbiRegistry \<Rightarrow> string \<Rightarrow> Phase list" where
  "registry_phases reg contract_address = (case map_of reg (lower contract_address) of
     None \<Rightarrow> [] | Some es \<Rightarrow> map fst es)"

lemma scan_skip: "\<forall>(q, w) \<in> set xs. \<not> covers q b \<Longrightarrow> scan_phases (xs @ ys) b = scan_phases ys b"
proof (induction xs)
  case (Cons x xs)
  obtain q w where x: "x = (q, w)" by (cases x)
  with Cons.prems have "\<not> covers q b" by simp
  then have "scan_phases (x # xs @ ys) b = scan_phases (xs @ ys) b"
    by (auto simp: x covers_def split: option.splits)
  with Cons show ?case by simp
qed simp

lemma scan_hit: "covers p b \<Longrightarrow> scan_phases ((p, v) # ys) b = Some v"
  by (auto simp: covers_def split: option.splits)

interpretation abi: phase_lookup registry_get map_of
proof
  fix r :: AbiRegistry and a b es
  assume "map_of r (lower a) = Some es" "\<forall>(p, v) \<in> set es. \<not> covers p b"
  then show "\<exists>m. registry_get r a b = Inl (Raise KeyError m)"
    using scan_skip [of es b "[]"] by (simp add: registry_get_def Let_def)
next
  fix r :: AbiRegistry and a xs p v ys b
  assume "map_of r (lower a) = Some (xs @ (p, v) # ys)" "\<forall>(q, w) \<in> set xs. \<not> covers q b" "covers p b"
  then show "registry_get r a b = Inr v"
    using scan_skip [of xs b "(p, v) # ys"] scan_hit [of p b v ys]
    by (simp add: registry_get_def Let_def)
qed (simp add: registry_get_def Let_def)

section \<open>Validation of phases\<close>

definition opt_block :: "int option \<Rightarrow> string" where
  "opt_block b = (case b of None \<Rightarrow> ''inf'' | Some n \<Rightarrow> show_int n)"

fun no_overlap_sorted :: "Phase list \<Rightarrow> unit res" where
  "no_overlap_sorted (prev # cur # rest) =
     (if (case ph_to_block prev of None \<Rightarrow> True | Some e \<Rightarrow> e \<ge> ph_from_block cur)
      then value_error (''overlapping phases for '' @ ph_contract_address cur @ '': ''
        @ ph_abi_version prev @ '' ends at '' @ opt_block (ph_to_block prev) @ '', ''
        @ ph_abi_version cur @ '' starts at '' @ show_int (ph_from_block cur))
      else no_overlap_sorted (cur # rest))"
| "no_overlap_sorted _ = Inr ()"

definition ensure_no_overlap :: "Phase list \<Rightarrow> unit res" where
  "ensure_no_overlap phases = no_overlap_sorted (sort_key ph_from_block phases)"

text \<open>Before the next phase: the phase is closed and ends before the other one starts.\<close>

definition ends_before :: "Phase \<Rightarrow> Phase \<Rightarrow> bool" where
  "ends_before p q = (\<exists>e. ph_to_block p = Some e \<and> e < ph_from_block q)"

definition nonempty_phase :: "Phase \<Rightarrow> bool" where
  "nonempty_phase p = covers p (ph_from_block p)"

lemma no_overlap_sorted_iff:
  "sorted (map ph_from_block ps) \<Longrightarrow> no_overlap_sorted ps = Inr () \<longleftrightarrow> sorted_wrt ends_before ps"
proof (induction ps rule: no_overlap_sorted.induct)
  case (1 p q ps)
  have step: "no_overlap_sorted (p # q # ps) = Inr () \<longleftrightarrow>
      ends_before p q \<and> no_overlap_sorted (q # ps) = Inr ()"
    by (auto simp: ends_before_def value_error_def split: option.splits)
  have ih: "no_overlap_sorted (q # ps) = Inr () \<longleftrightarrow> sorted_wrt ends_before (q # ps)"
    if "ends_before p q"
  proof -
    have "\<not> (case ph_to_block p of None \<Rightarrow> True | Some e \<Rightarrow> ph_from_block q \<le> e)"
      using that by (auto simp: ends_before_def)
    then show ?thesis using "1.IH" "1.prems" by simp
  qed
  have "no_overlap_sorted (p # q # ps) = Inr () \<longleftrightarrow> ends_before p q \<and> sorted_wrt ends_before (q # ps)"
    using step ih by blast
  moreover have "ends_before p q \<Longrightarrow> \<forall>r \<in> set ps. ends_before p r"
    using "1.prems" by (force simp: ends_before_def)
  ultimately show ?case by auto
qed simp_all

lemma ends_before_disjoint: "sorted_wrt ends_before ps \<Longrightarrow> disjoint_phases ps"
proof (induction ps)
  case (Cons p ps)
  have "length (filter (\<lambda>p. covers p b) (p # ps)) \<le> 1" for b
  proof (cases "covers p b")
    case True
    have "\<not> covers q b" if "q \<in> set ps" for q
      using True Cons.prems that by (fastforce simp: ends_before_def covers_def)
    then have "filter (\<lambda>p. covers p b) ps = []" by (simp add: filter_empty_conv)
    then show ?thesis by simp
  next
    case False
    then show ?thesis using Cons by (simp add: disjoint_phases_def)
  qed
  then show ?case by (simp add: disjoint_phases_def)
qed (simp add: disjoint_phases_def)

lemma disjoint_ends_before:
  "\<lbrakk>disjoint_phases ps; sorted (map ph_from_block ps); \<forall>p \<in> set ps. nonempty_phase p\<rbrakk>
    \<Longrightarrow> sorted_wrt ends_before ps"
proof (induction ps)
  case (Cons p ps)
  have "ends_before p q" if q: "q \<in> set ps" for q
  proof -
    let ?b = "ph_from_block q"
    have "covers q ?b" using Cons.prems(3) q by (simp add: nonempty_phase_def)
    then have "filter (\<lambda>p. covers p ?b) ps \<noteq> []" using q by (auto simp: filter_empty_conv)
    then have "\<not> covers p ?b"
      using Cons.prems(1) unfolding disjoint_phases_def
      by (auto dest!: spec [where x = ?b] split: if_splits)
    moreover have "ph_from_block p \<le> ?b" using Cons.prems(2) q by simp
    ultimately show ?thesis by (auto simp: covers_def ends_before_def split: option.splits)
  qed
  moreover have "sorted_wrt ends_before ps"
    using Cons disjoint_phases_Cons [OF Cons.prems(1)] by simp
  ultimately show ?case by simp
qed simp

lemma disjoint_phases_mset: "mset ps = mset qs \<Longrightarrow> disjoint_phases ps = disjoint_phases qs"
  unfolding disjoint_phases_def by (metis mset_filter size_mset)

lemma no_overlap_iff_disjoint:
  assumes "\<forall>p \<in> set ps. nonempty_phase p"
  shows "no_overlap_sorted (sort_key ph_from_block ps) = Inr () \<longleftrightarrow> disjoint_phases ps"
proof -
  let ?s = "sort_key ph_from_block ps"
  have "disjoint_phases ps = disjoint_phases ?s" by (rule disjoint_phases_mset) simp
  then show ?thesis
    using assms ends_before_disjoint [of ?s] disjoint_ends_before [of ?s]
    by (auto simp: no_overlap_sorted_iff)
qed

section \<open>What a loaded registry holds\<close>

definition abi_registry_wf :: "(string \<Rightarrow> pydict list option) \<Rightarrow> AbiRegistry \<Rightarrow> bool" where
  "abi_registry_wf abi_dir reg = (\<forall>(a, es) \<in> set reg. lower a = a \<and>
     (\<forall>(p, abi) \<in> set es. ph_contract_address p = a \<and> abi_version abi = ph_abi_version p
        \<and> (\<exists>name. abi_dir name = Some (json_abi abi))))"

lemma phase_of_def_address: "phase_of_def a d = Inr p \<Longrightarrow> ph_contract_address p = a"
  by (auto simp: phase_of_def_def rbind_Inr)

lemma abi_phase_wf:
  "abi_phase dir abi_dir a role d = Inr (p, abi) \<Longrightarrow>
     ph_contract_address p = a \<and> abi_version abi = ph_abi_version p \<and>
     (\<exists>name. abi_dir name = Some (json_abi abi))"
  by (fastforce simp: abi_phase_def rbind_Inr Let_def phase_of_def_address split: option.splits)

lemma abi_registry_wf_update:
  assumes "abi_registry_wf abi_dir reg" "mapR (abi_phase dir abi_dir (lower a) role) pds = Inr es"
  shows "abi_registry_wf abi_dir (AList.update (lower a) es reg)"
proof -
  have "ph_contract_address p = lower a \<and> abi_version abi = ph_abi_version p
      \<and> (\<exists>name. abi_dir name = Some (json_abi abi))" if "(p, abi) \<in> set es" for p abi
    using list_all2_set2 [OF assms(2) [unfolded mapR_Inr] that] by (blast dest: abi_phase_wf)
  then have new: "\<forall>(p, abi) \<in> set es. ph_contract_address p = lower a
      \<and> abi_version abi = ph_abi_version p \<and> (\<exists>name. abi_dir name = Some (json_abi abi))"
    by blast
  show ?thesis
    unfolding abi_registry_wf_def
  proof
    fix e assume "e \<in> set (AList.update (lower a) es reg)"
    then have "e = (lower a, es) \<or> e \<in> set reg"
      using set_update_subset [of "lower a" es reg] by (auto dest: subsetD)
    then show "case e of (a, es) \<Rightarrow> lower a = a \<and> (\<forall>(p, abi) \<in> set es. ph_contract_address p = a
        \<and> abi_version abi = ph_abi_version p \<and> (\<exists>name. abi_dir name = Some (json_abi abi)))"
    proof
      assume "e = (lower a, es)"
      then show ?thesis using new by simp
    next
      assume "e \<in> set reg"
      with assms(1) show ?thesis unfolding abi_registry_wf_def by (rule bspec)
    qed
  qed
qed

lemma abi_load_contract_wf:
  assumes "abi_load_contract dir abi_dir stem c reg = Inr reg'" "abi_registry_wf abi_dir reg"
  shows "abi_registry_wf abi_dir reg'"
  using assms unfolding abi_load_contract_def Let_def
  by (auto elim!: rbind_InrE intro: abi_registry_wf_update)

lemma load_from_config_wf:
  assumes "load_from_config dir abi_dir files = Inr reg"
  shows "abi_registry_wf abi_dir reg"
proof (rule foldR_inv [OF assms [unfolded load_from_config_def]], goal_cases)
  case 1 show ?case by (simp add: abi_registry_wf_def)
next
  case (2 x s t)
  then obtain stem cs where "foldR (abi_load_contract dir abi_dir stem) cs s = Inr t"
    by (auto simp: rbind_Inr split: prod.splits)
  from foldR_inv [OF this, of "abi_registry_wf abi_dir"] 2(2) abi_load_contract_wf
  show ?case by blast
qed

end
