(* ===== verification/Event_Decoder.thy ===== *)
theory Event_Decoder
  imports Abi_Registry
begin

text \<open>
  \<open>decoder/event_decoder.py\<close>: decoding a log against an ABI. Parameters: \<open>keccak\<close> as in the
  registry, and \<open>abi_decode\<close>, the function \<open>eth_abi.abi.decode\<close> from a list of ABI types and a
  byte string to the decoded values, which may raise. A \<open>DecodeResult\<close> is a value; an
  exception that leaves the function is the \<open>Inl\<close> of the model.
\<close>

definition ERC20_TRANSFER_TOPIC0 :: string where
  "ERC20_TRANSFER_TOPIC0 = ''0xddf252ad1be2c89b69c2b068fc378daa952ba7f163c4a11628f55a4df523b3ef''"

section \<open>Identifiers\<close>

definition raw_log_fields :: "RawLog \<Rightarrow> string list" where
  "raw_log_fields log = [show_int (lg_chain_id log), show_int (lg_block_number log),
     lower (lg_tx_hash log), show_int (lg_log_index log)]"

definition compute_raw_log_id :: "RawLog \<Rightarrow> string" where
  "compute_raw_log_id log = sha256_hex (canonical_key ''raw_log'' (raw_log_fields log))"

definition decoded_event_fields :: "DecodedEvent \<Rightarrow> string list" where
  "decoded_event_fields de = [show_int (de_chain_id de), show_int (de_block_number de),
     lower (de_tx_hash de), show_int (de_log_index de)]"

definition compute_decoded_event_id :: "DecodedEvent \<Rightarrow> string" where
  "compute_decoded_event_id de =
     sha256_hex (canonical_key ''decoded_event'' (decoded_event_fields de))"

interpretation raw_log_id: hashed_id compute_raw_log_id "''raw_log''" raw_log_fields
  by unfold_locales (simp_all add: compute_raw_log_id_def)

interpretation decoded_event_id:
  hashed_id compute_decoded_event_id "''decoded_event''" decoded_event_fields
  by unfold_locales (simp_all add: compute_decoded_event_id_def)

interpretation raw_and_decoded: two_hashed_ids compute_raw_log_id "''raw_log''" raw_log_fields
  compute_decoded_event_id "''decoded_event''" decoded_event_fields
  by unfold_locales (simp_all add: raw_log_fields_def decoded_event_fields_def)

section \<open>Topics and data\<close>

definition topic_to_address :: "string \<Rightarrow> string res" where
  "topic_to_address topic_hex =
     (let t = (if starts_with topic_hex ''0x'' then topic_hex else ''0x'' @ topic_hex) in
      if length t \<noteq> 66
      then value_error (''topic must be 32 bytes (66 hex chars w/ 0x), got '' @ show_int (int (length t)))
      else Inr (''0x'' @ lower (drop (length t - 40) t)))"

definition hex_to_bytes :: "string \<Rightarrow> byte list res" where
  "hex_to_bytes hex_str =
     (let s = (if starts_with hex_str ''0x'' then drop 2 hex_str else hex_str) in
      if s = [] then Inr []
      else if length s mod 2 \<noteq> 0 then value_error (''odd-length hex string: '' @ repr_str hex_str)
      else from_hex s)"

fun find_event_loop :: "(string \<Rightarrow> byte list) \<Rightarrow> Abi \<Rightarrow> string \<Rightarrow> pydict list \<Rightarrow> pydict option res" where
  "find_event_loop keccak abi target [] = Inr None"
| "find_event_loop keccak abi target (entry # rest) =
     (if dict_get entry ''type'' \<noteq> PStr ''event'' then find_event_loop keccak abi target rest
      else if truthy (dict_get entry ''anonymous'') then find_event_loop keccak abi target rest
      else (case rbind (dict_index entry ''name'') (event_signature keccak abi) of
          Inl e \<Rightarrow> if exc_class e = KeyError \<or> exc_class e = ValueError
                   then find_event_loop keccak abi target rest else Inl e
        | Inr sig \<Rightarrow> if lower sig = target then Inr (Some entry)
                   else find_event_loop keccak abi target rest))"

definition find_event_abi :: "(string \<Rightarrow> byte list) \<Rightarrow> Abi \<Rightarrow> string \<Rightarrow> pydict option res" where
  "find_event_abi keccak abi topic0 =
     (let t = lower topic0; target = (if starts_with t ''0x'' then t else ''0x'' @ t)
      in find_event_loop keccak abi target (json_abi abi))"

section \<open>Decoding one log\<close>

definition decode_failure :: "string \<Rightarrow> DecodeFailureReason \<Rightarrow> string \<Rightarrow> DecodeResult" where
  "decode_failure raw_id reason detail =
     \<lparr>dr_raw_id = raw_id, dr_success = False, dr_decoded = None,
      dr_failure_reason = Some reason, dr_failure_detail = Some detail\<rparr>"

text \<open>The event entry and the number of topics it consumes, or the failure found on the way.\<close>

definition select_event :: "(string \<Rightarrow> byte list) \<Rightarrow> RawLog \<Rightarrow> Abi
    \<Rightarrow> (DecodeResult + pydict \<times> nat) res" where
  "select_event keccak log abi = (let raw_id = compute_raw_log_id log in
     case lg_topics log of
       [] \<Rightarrow> (case find (\<lambda>e. dict_get e ''type'' = PStr ''event'' \<and> truthy (dict_get e ''anonymous''))
                 (json_abi abi) of
           None \<Rightarrow> Inr (Inl (decode_failure raw_id Unknown_topic
             ''anonymous log; no anonymous event in ABI''))
         | Some anon \<Rightarrow> Inr (Inr (anon, 0)))
     | topic0 # _ \<Rightarrow> rbind (find_event_abi keccak abi topic0) (\<lambda>found. case found of
           None \<Rightarrow> Inr (Inl (decode_failure raw_id Unknown_topic (''topic0='' @ topic0 @ '' not in ABI'')))
         | Some entry \<Rightarrow> Inr (Inr (entry, 1))))"

text \<open>Indexed parameters, one topic each; the loop that fills \<open>indexed_params\<close>.\<close>

fun decode_indexed :: "(string list \<Rightarrow> byte list \<Rightarrow> pyval list res) \<Rightarrow> pydict list \<Rightarrow> string list
    \<Rightarrow> pydict \<Rightarrow> pydict res" where
  "decode_indexed abi_decode (inp # inps) (topic # topics) params =
     rbind (dict_index inp ''type'') (\<lambda>ty.
     rbind (if ty = PStr ''address'' then rbind (topic_to_address topic) (\<lambda>a. Inr (PStr a))
            else rbind (hex_to_bytes topic) (\<lambda>bs. rbind (abi_decode [py_str ty] bs) (\<lambda>vs.
              case vs of v # _ \<Rightarrow> Inr v | [] \<Rightarrow> Inl (Raise IndexError ''tuple index out of range''))))
       (\<lambda>v. rbind (dict_index inp ''name'') (\<lambda>name.
         decode_indexed abi_decode inps topics (AList.update (py_str name) v params))))"
| "decode_indexed abi_decode _ _ params = Inr params"

definition data_value :: "pydict \<Rightarrow> pyval \<Rightarrow> pyval res" where
  "data_value inp val = rbind (dict_index inp ''type'') (\<lambda>ty.
     Inr (if ty = PStr ''address'' then (case val of PStr s \<Rightarrow> PStr (lower s) | _ \<Rightarrow> val)
          else (case val of PBytes bs \<Rightarrow> PStr (''0x'' @ to_hex bs) | _ \<Rightarrow> val)))"

fun data_loop :: "(pydict \<Rightarrow> pyval \<Rightarrow> pyval res) \<Rightarrow> pydict list \<Rightarrow> pyval list \<Rightarrow> pydict
    \<Rightarrow> pydict res" where
  \<comment> \<open>the loop over \<open>zip(inputs, values, strict=True)\<close> that fills a parameter dictionary\<close>
  "data_loop conv (inp # inps) (val # vals) params =
     rbind (conv inp val) (\<lambda>v. rbind (dict_index inp ''name'') (\<lambda>name.
       data_loop conv inps vals (AList.update (py_str name) v params)))"
| "data_loop conv [] [] params = Inr params"
| "data_loop conv _ _ params = value_error ''zip() argument 2 has another length than argument 1''"

definition is_indexed :: "pydict \<Rightarrow> bool" where
  "is_indexed i = truthy (dict_get i ''indexed'')"

text \<open>The data part: \<open>Inl\<close> a failure, \<open>Inr\<close> the parameters.\<close>

definition decode_data :: "(string list \<Rightarrow> byte list \<Rightarrow> pyval list res) \<Rightarrow> string \<Rightarrow> pydict list
    \<Rightarrow> byte list \<Rightarrow> (DecodeResult + pydict) res" where
  "decode_data abi_decode raw_id inputs data_bytes =
     (if inputs = [] then Inr (Inr [])
      else if length data_bytes = 0 \<or> length data_bytes mod 32 \<noteq> 0
      then Inr (Inl (decode_failure raw_id Malformed_data
        (''data length '' @ show_int (int (length data_bytes)) @ '' not multiple of 32'')))
      else (case rbind (mapR (\<lambda>inp. dict_index inp ''type'') inputs)
                  (\<lambda>tys. abi_decode (map py_str tys) data_bytes) of
          Inl e \<Rightarrow> Inr (Inl (decode_failure raw_id Abi_mismatch (''data decode failed: '' @ exc_str e)))
        | Inr vals \<Rightarrow> rbind (data_loop data_value inputs vals []) (\<lambda>ps. Inr (Inr ps))))"

definition decoded_event_of :: "RawLog \<Rightarrow> pydict \<Rightarrow> pydict \<Rightarrow> pydict \<Rightarrow> DecodedEvent" where
  "decoded_event_of log event_entry indexed_params data_params =
     (let decoded_event =
        \<lparr>de_raw_log_id = compute_raw_log_id log, de_decoded_event_id = '''',
         de_chain_id = lg_chain_id log, de_block_number = lg_block_number log,
         de_tx_hash = lower (lg_tx_hash log), de_log_index = lg_log_index log,
         de_contract_address = lower (lg_address log),
         de_event_name = py_str (dict_get_or event_entry ''name'' (PStr ''<unnamed>'')),
         de_event_signature = (case lg_topics log of [] \<Rightarrow> '''' | t # _ \<Rightarrow> lower t),
         de_indexed_params = indexed_params, de_data_params = data_params\<rparr>
      in decoded_event\<lparr>de_decoded_event_id := compute_decoded_event_id decoded_event\<rparr>)"

definition decode_log :: "(string \<Rightarrow> byte list) \<Rightarrow> (string list \<Rightarrow> byte list \<Rightarrow> pyval list res)
    \<Rightarrow> RawLog \<Rightarrow> Abi \<Rightarrow> DecodeResult res" where
  "decode_log keccak abi_decode log abi = (let raw_id = compute_raw_log_id log in
     rbind (select_event keccak log abi) (\<lambda>sel. case sel of
       Inl failure \<Rightarrow> Inr failure
     | Inr (event_entry, topic_consumed) \<Rightarrow>
         rbind (input_defs event_entry ''inputs'') (\<lambda>inputs.
           let indexed_inputs = filter is_indexed inputs;
               non_indexed_inputs = filter (\<lambda>i. \<not> is_indexed i) inputs;
               expected = length (lg_topics log) - topic_consumed in
           if length indexed_inputs \<noteq> expected
           then Inr (decode_failure raw_id Abi_mismatch
             (''event '' @ [CHR 0x27] @ py_str (dict_get event_entry ''name'') @ [CHR 0x27] @ '': abi has ''
              @ show_int (int (length indexed_inputs)) @ '' indexed args, log has ''
              @ show_int (int expected) @ '' non-signature topics''))
           else (case decode_indexed abi_decode indexed_inputs (drop topic_consumed (lg_topics log)) [] of
               Inl e \<Rightarrow> Inr (decode_failure raw_id Abi_mismatch (''indexed decode failed: '' @ exc_str e))
             | Inr indexed_params \<Rightarrow>
                 rbind (hex_to_bytes (lg_data log)) (\<lambda>data_bytes.
                 rbind (decode_data abi_decode raw_id non_indexed_inputs data_bytes) (\<lambda>d. case d of
                   Inl failure \<Rightarrow> Inr failure
                 | Inr data_params \<Rightarrow> Inr
                     \<lparr>dr_raw_id = raw_id, dr_success = True,
                      dr_decoded = Some (DEvent (decoded_event_of log event_entry indexed_params data_params)),
                      dr_failure_reason = None, dr_failure_detail = None\<rparr>))))))"

definition decode_logs_batch :: "(string \<Rightarrow> byte list) \<Rightarrow> (string list \<Rightarrow> byte list \<Rightarrow> pyval list res)
    \<Rightarrow> RawLog list \<Rightarrow> AbiRegistry \<Rightarrow> DecodeResult list res" where
  "decode_logs_batch keccak abi_decode logs registry =
     mapR (\<lambda>log. case registry_get registry (lower (lg_address log)) (lg_block_number log) of
         Inl e \<Rightarrow> if exc_class e = KeyError
           then Inr (decode_failure (compute_raw_log_id log) Unregistered_contract (exc_str e))
           else Inl e
       | Inr abi \<Rightarrow> decode_log keccak abi_decode log abi) logs"

section \<open>The shape of a result\<close>

text \<open>A result carries a decoded object or a structured reason, never both, and the identifier
  of its log.\<close>

definition result_shape :: "string \<Rightarrow> DecodeResult \<Rightarrow> bool" where
  "result_shape raw_id r = (dr_raw_id r = raw_id \<and>
     (if dr_success r
      then dr_decoded r \<noteq> None \<and> dr_failure_reason r = None \<and> dr_failure_detail r = None
      else dr_decoded r = None \<and> dr_failure_reason r \<noteq> None \<and> dr_failure_detail r \<noteq> None))"

lemma result_shape_failure [simp]: "result_shape i (decode_failure i reason d)"
  by (simp add: result_shape_def decode_failure_def)

lemma select_event_shape:
  "select_event keccak log abi = Inr (Inl r) \<Longrightarrow> result_shape (compute_raw_log_id log) r"
  by (auto simp: select_event_def Let_def rbind_Inr split: list.splits option.splits)

lemma decode_data_shape: "decode_data dec i ins bs = Inr (Inl r) \<Longrightarrow> result_shape i r"
  by (auto simp: decode_data_def rbind_Inr split: if_splits sum.splits)

lemma result_shape_success [simp]:
  "result_shape i \<lparr>dr_raw_id = i, dr_success = True, dr_decoded = Some d,
     dr_failure_reason = None, dr_failure_detail = None\<rparr>"
  by (simp add: result_shape_def)

lemma decode_log_shape:
  assumes "decode_log keccak dec log abi = Inr r"
  shows "result_shape (compute_raw_log_id log) r"
proof -
  let ?id = "compute_raw_log_id log"
  from assms obtain sel where sel: "select_event keccak log abi = Inr sel"
    by (auto simp: decode_log_def Let_def elim: rbind_InrE)
  show ?thesis
  proof (cases sel)
    case (Inl f)
    with assms sel have "r = f" by (simp add: decode_log_def Let_def)
    with sel Inl show ?thesis by (simp add: select_event_shape)
  next
    case (Inr en)
    obtain entry n where en: "en = (entry, n)" by (cases en)
    show ?thesis
      using assms sel Inr en unfolding decode_log_def Let_def
      by (auto elim!: rbind_InrE split: sum.splits if_splits) (rule decode_data_shape)
  qed
qed

lemma decoded_event_of_ids:
  "de_raw_log_id (decoded_event_of log e ip dp) = compute_raw_log_id log"
  "de_decoded_event_id (decoded_event_of log e ip dp) =
     sha256_hex (canonical_key ''decoded_event'' (raw_log_fields log))"
  by (simp_all add: decoded_event_of_def compute_decoded_event_id_def decoded_event_fields_def
      raw_log_fields_def Let_def)

section \<open>Properties\<close>


definition sample_log :: "string list \<Rightarrow> string \<Rightarrow> RawLog" where
  "sample_log topics data = \<lparr>lg_chain_id = 1, lg_block_number = 100, lg_block_hash = ''0x0b'',
     lg_tx_hash = ''0x0c'', lg_tx_index = 0, lg_log_index = 7, lg_address = ''0x0a'',
     lg_topics = topics, lg_data = data\<rparr>"


text \<open>The ABI entry of the ERC-20 \<open>Transfer\<close> event, and a topic that holds an address.\<close>

definition abi_arg :: "string \<Rightarrow> string \<Rightarrow> bool \<Rightarrow> pyval" where
  "abi_arg name ty indexed = PDict [(''name'', PStr name), (''type'', PStr ty), (''indexed'', PBool indexed)]"

definition transfer_entry :: pydict where
  "transfer_entry = [(''type'', PStr ''event''), (''name'', PStr ''Transfer''),
     (''inputs'', PList [abi_arg ''from'' ''address'' True, abi_arg ''to'' ''address'' True,
        abi_arg ''value'' ''uint256'' False])]"

definition address_topic :: "string \<Rightarrow> string" where
  "address_topic a = ''0x'' @ replicate 24 (CHR ''0'') @ a"

lemma topic_to_address_topic:
  assumes "length a = 40"
  shows "topic_to_address (address_topic a) = Inr (''0x'' @ lower a)"
proof -
  have "starts_with (address_topic a) ''0x''"
    unfolding address_topic_def by (rule starts_with_append)
  moreover have "length (address_topic a) = 66" by (simp add: address_topic_def assms)
  moreover have "drop 26 (address_topic a) = a" by (simp add: address_topic_def)
  ultimately show ?thesis by (simp add: topic_to_address_def Let_def)
qed

lemma hex_to_bytes_to_hex:
  assumes "bs \<noteq> []"
  shows "hex_to_bytes (''0x'' @ to_hex bs) = Inr bs"
proof -
  have "starts_with (''0x'' @ to_hex bs) ''0x''" by (rule starts_with_append)
  moreover have "to_hex bs \<noteq> []" using assms by (metis from_to_hex sum.inject(2) from_hex.simps(1))
  ultimately show ?thesis by (simp add: hex_to_bytes_def Let_def)
qed

lemma transfer_signature:
  "event_signature keccak \<lparr>abi_version = v, json_abi = [transfer_entry]\<rparr> (PStr ''Transfer'') =
     Inr (''0x'' @ to_hex (keccak ''Transfer(address,address,uint256)''))"
proof -
  have "canonical_event_signature transfer_entry = Inr ''Transfer(address,address,uint256)''"
    by code_simp
  then show ?thesis
    by (simp add: event_signature_def) (simp add: transfer_entry_def dict_get_def)
qed

lemma transfer_topic0_simps:
  "lower ERC20_TRANSFER_TOPIC0 = ERC20_TRANSFER_TOPIC0" "starts_with ERC20_TRANSFER_TOPIC0 ''0x''"
  by code_simp+

lemma select_transfer:
  assumes "''0x'' @ to_hex (keccak ''Transfer(address,address,uint256)'') = ERC20_TRANSFER_TOPIC0"
    and "lg_topics log = ERC20_TRANSFER_TOPIC0 # ts"
  shows "select_event keccak log \<lparr>abi_version = v, json_abi = [transfer_entry]\<rparr> =
    Inr (Inr (transfer_entry, 1))"
proof -
  have e: "event_signature keccak \<lparr>abi_version = v, json_abi = [transfer_entry]\<rparr> (PStr ''Transfer'') =
      Inr ERC20_TRANSFER_TOPIC0"
    using transfer_signature assms(1) by simp
  have f: "dict_get transfer_entry ''type'' = PStr ''event''"
    "\<not> truthy (dict_get transfer_entry ''anonymous'')"
    "dict_index transfer_entry ''name'' = Inr (PStr ''Transfer'')"
    by (simp_all add: transfer_entry_def dict_get_def dict_index_def)
  show ?thesis
    by (simp add: select_event_def Let_def assms(2) find_event_abi_def transfer_topic0_simps e f)
qed


text \<open>A \<open>keccak\<close> and an \<open>eth_abi\<close> that behave as documented on the one input used.\<close>

definition sample_keccak :: "string \<Rightarrow> byte list" where
  "sample_keccak s = (case from_hex (drop 2 ERC20_TRANSFER_TOPIC0) of Inr bs \<Rightarrow> bs | Inl _ \<Rightarrow> [])"

definition sample_abi_decode :: "string list \<Rightarrow> byte list \<Rightarrow> pyval list res" where
  "sample_abi_decode tys bs = (if tys = [''uint256''] then Inr [PInt (foldl (\<lambda>n b. 256 * n + uint b) 0 bs)]
     else value_error ''unsupported'')"

definition word32 :: "byte \<Rightarrow> byte list" where "word32 b = replicate 31 0 @ [b]"


end
