(* ===== verification/Calldata_Decoder.thy ===== *)
theory Calldata_Decoder
  imports Event_Decoder
begin

text \<open>
  \<open>decoder/calldata_decoder.py\<close>: method selectors, calldata decoding against an ABI, and the
  fast path for ERC-20 transfers. \<open>bytes.fromhex\<close> stands outside the \<open>try\<close> blocks of the
  source, so an exception of it leaves the functions: \<open>Inl\<close> here.
\<close>

definition ERC20_TRANSFER_SELECTOR :: string where
  "ERC20_TRANSFER_SELECTOR = ''0xa9059cbb''"

definition ERC20_TRANSFER_FROM_SELECTOR :: string where
  "ERC20_TRANSFER_FROM_SELECTOR = ''0x23b872dd''"

definition extract_method_selector :: "string \<Rightarrow> string" where
  "extract_method_selector calldata =
     (if calldata = [] \<or> calldata = ''0x'' \<or> calldata = ''0X'' then ''0x''
      else let raw = strip_0x calldata in
        if length raw < 8 then ''0x'' else ''0x'' @ lower (take 8 raw))"

fun find_method_loop :: "(string \<Rightarrow> byte list) \<Rightarrow> Abi \<Rightarrow> string \<Rightarrow> pydict list \<Rightarrow> pydict option res" where
  "find_method_loop keccak abi target [] = Inr None"
| "find_method_loop keccak abi target (entry # rest) =
     (if dict_get entry ''type'' \<noteq> PStr ''function'' then find_method_loop keccak abi target rest
      else (case rbind (dict_index entry ''name'') (method_selector keccak abi) of
          Inl e \<Rightarrow> if exc_class e = KeyError then find_method_loop keccak abi target rest else Inl e
        | Inr sel \<Rightarrow> if lower sel = target then Inr (Some entry)
                   else find_method_loop keccak abi target rest))"

definition find_method_by_selector :: "(string \<Rightarrow> byte list) \<Rightarrow> Abi \<Rightarrow> string \<Rightarrow> pydict option res" where
  "find_method_by_selector keccak abi selector =
     find_method_loop keccak abi (lower selector) (json_abi abi)"

definition call_value :: "pydict \<Rightarrow> pyval \<Rightarrow> pyval res" where
  "call_value inp val = rbind (dict_index inp ''type'') (\<lambda>ty.
     Inr (case val of
       PStr s \<Rightarrow> if ty = PStr ''address'' then PStr (lower s) else val
     | PBytes bs \<Rightarrow> PStr (''0x'' @ to_hex bs)
     | _ \<Rightarrow> val))"

definition decode_calldata :: "(string \<Rightarrow> byte list) \<Rightarrow> (string list \<Rightarrow> byte list \<Rightarrow> pyval list res)
    \<Rightarrow> string \<Rightarrow> Abi \<Rightarrow> DecodeResult res" where
  "decode_calldata keccak abi_decode calldata abi = (let selector = extract_method_selector calldata in
     rbind (find_method_by_selector keccak abi selector) (\<lambda>found. case found of
       None \<Rightarrow> Inr (decode_failure '''' Unknown_topic (''selector '' @ selector @ '' not in ABI''))
     | Some method \<Rightarrow>
         let body_hex = drop 8 (strip_0x calldata) in
         rbind (if body_hex = [] then Inr [] else from_hex body_hex) (\<lambda>body.
           if body \<noteq> [] \<and> length body mod 32 \<noteq> 0
           then Inr (decode_failure '''' Malformed_data (''calldata body length ''
             @ show_int (int (length body)) @ '' not multiple of 32''))
           else rbind (input_defs method ''inputs'') (\<lambda>inputs.
             case (if inputs = [] then Inr []
                   else rbind (mapR (\<lambda>inp. dict_index inp ''type'') inputs)
                     (\<lambda>tys. abi_decode (map py_str tys) body)) of
               Inl e \<Rightarrow> Inr (decode_failure '''' Abi_mismatch (''calldata decode failed: '' @ exc_str e))
             | Inr vals \<Rightarrow> rbind (data_loop call_value inputs vals []) (\<lambda>params. Inr
                 \<lparr>dr_raw_id = '''', dr_success = True,
                  dr_decoded = Some (DCall
                    \<lparr>dc_raw_trace_call_id = '''', dc_chain_id = 0, dc_block_number = 0,
                     dc_tx_hash = '''', dc_trace_address = [], dc_contract_address = None,
                     dc_method_name = py_str (dict_get_or method ''name'' (PStr ''<unnamed>'')),
                     dc_method_selector = selector, dc_params = params,
                     dc_success = True, dc_parent_success = True\<rparr>),
                  dr_failure_reason = None, dr_failure_detail = None\<rparr>)))))"

text \<open>The dictionary the fast path returns; \<open>from\<close> is \<open>None\<close> for \<open>transfer\<close>.\<close>

record Erc20Call =
  ec_method :: string
  ec_from :: "string option"
  ec_to :: string
  ec_amount :: int

definition decode_erc20_transfer_calldata :: "(string list \<Rightarrow> byte list \<Rightarrow> pyval list res)
    \<Rightarrow> string \<Rightarrow> Erc20Call option res" where
  "decode_erc20_transfer_calldata abi_decode calldata =
     (let selector = extract_method_selector calldata; raw = strip_0x calldata in
      rbind (if length raw \<ge> 8 then from_hex (drop 8 raw) else Inr []) (\<lambda>body.
        if selector = ERC20_TRANSFER_SELECTOR then
          (if length body < 64 then Inr None
           else case abi_decode [''address'', ''uint256''] (take 64 body) of
               Inr [to_addr, amount] \<Rightarrow>
                 rbind (py_lower to_addr) (\<lambda>t. rbind (py_int amount) (\<lambda>n.
                   Inr (Some \<lparr>ec_method = ''transfer'', ec_from = None, ec_to = t, ec_amount = n\<rparr>)))
             | _ \<Rightarrow> Inr None)
        else if selector = ERC20_TRANSFER_FROM_SELECTOR then
          (if length body < 96 then Inr None
           else case abi_decode [''address'', ''address'', ''uint256''] (take 96 body) of
               Inr [from_addr, to_addr, amount] \<Rightarrow>
                 rbind (py_lower from_addr) (\<lambda>f. rbind (py_lower to_addr) (\<lambda>t. rbind (py_int amount) (\<lambda>n.
                   Inr (Some \<lparr>ec_method = ''transferFrom'', ec_from = Some f, ec_to = t, ec_amount = n\<rparr>))))
             | _ \<Rightarrow> Inr None)
        else Inr None))"

lemma selector_length: "length (extract_method_selector c) = 2 \<or> length (extract_method_selector c) = 10"
  by (simp add: extract_method_selector_def Let_def)

lemma selector_lower [simp]: "lower (extract_method_selector c) = extract_method_selector c"
proof -
  have x: "lower ''0x'' = ''0x''" by code_simp
  have "lower (''0x'' @ lower s) = ''0x'' @ lower s" for s
    unfolding lower_append x by simp
  then show ?thesis by (simp add: extract_method_selector_def Let_def x)
qed

lemma selectors_differ: "ERC20_TRANSFER_SELECTOR \<noteq> ERC20_TRANSFER_FROM_SELECTOR"
  by (simp add: ERC20_TRANSFER_SELECTOR_def ERC20_TRANSFER_FROM_SELECTOR_def)

lemma decode_calldata_shape: "decode_calldata keccak dec c abi = Inr r \<Longrightarrow> result_shape '''' r"
  unfolding decode_calldata_def Let_def
  by (auto elim!: rbind_InrE split: option.splits if_splits sum.splits)

text \<open>What the fast path returns is an ERC-20 transfer: the selector and the method agree.\<close>

lemma erc20_calldata_cases:
  assumes "decode_erc20_transfer_calldata dec c = Inr (Some e)"
  shows "extract_method_selector c = ERC20_TRANSFER_SELECTOR \<and> ec_method e = ''transfer'' \<and> ec_from e = None
    \<or> extract_method_selector c = ERC20_TRANSFER_FROM_SELECTOR \<and> ec_method e = ''transferFrom''
      \<and> ec_from e \<noteq> None"
  using assms unfolding decode_erc20_transfer_calldata_def Let_def
  by (auto elim!: rbind_InrE split: if_splits sum.splits list.splits)

end
