(* ===== verification/Trace_Tree.thy ===== *)
theory Trace_Tree
  imports Evm_Types "HOL-Library.Sublist"
begin

text \<open>
  \<open>decoder/trace_tree.py\<close>: the call tree of a transaction from the flat trace rows, and back. The
  source appends each row to the \<open>calls\<close> of its parent, an object found through the dictionary
  \<open>by_addr\<close>; the model keeps that object graph as two association lists over the serialised
  addresses (the frame of a key, the keys of its children) and reads the tree off it at the end,
  where the source sorts the children of each node.
\<close>

section \<open>Trace addresses\<close>

definition parse_trace_address :: "pyval \<Rightarrow> int list res" where
  "parse_trace_address s = (case s of
     PNone \<Rightarrow> Inr []
   | PStr t \<Rightarrow> mapR (\<lambda>part. py_int (PStr part)) (filter (\<lambda>part. part \<noteq> []) (split_on (CHR '','') t))
   | PList xs \<Rightarrow> mapR py_int xs
   | _ \<Rightarrow> Inl (Raise TypeError ''trace_address must be str|list|None''))"

definition serialize_trace_address :: "int list \<Rightarrow> string" where
  "serialize_trace_address addr = join '','' (map show_int addr)"

section \<open>Rows\<close>

definition opt_dict_get :: "pydict \<Rightarrow> string \<Rightarrow> string \<Rightarrow> pyval" where
  \<comment> \<open>\<open>row.get(k1) or row.get(k2, "")\<close>\<close>
  "opt_dict_get row k1 k2 = py_or (dict_get row k1) (dict_get_or row k2 (PStr ''''))"

definition row_error :: "pydict \<Rightarrow> (string option \<times> string option) res" where
  \<comment> \<open>the error and the revert reason of a row\<close>
  "row_error row = (let err = dict_get row ''error''; status = dict_get row ''status'' in
     rbind (if err = PNone \<and> status \<noteq> PNone
            then rbind (py_int status) (\<lambda>s. Inr (s = 0)) else Inr False) (\<lambda>failed.
       Inr (if failed then (Some ''reverted'', Some ''status=0'')
            else if err \<noteq> PNone then (opt_str err, opt_str err)
            else (None, None))))"

definition row_value :: "pydict \<Rightarrow> int res" where
  "row_value row = (case dict_get row ''value'' of
     PNone \<Rightarrow> Inr 0
   | PInt i \<Rightarrow> Inr i
   | PBool b \<Rightarrow> Inr (if b then 1 else 0)
   | v \<Rightarrow> py_int (PStr (py_str v)))"

definition row_to_raw_trace :: "int option \<Rightarrow> pydict \<Rightarrow> TraceFrame res" where
  "row_to_raw_trace chain_id row =
     rbind (parse_trace_address (dict_get row ''trace_address'')) (\<lambda>addr.
       let call_type = py_or (py_or (py_or (dict_get row ''call_type'') (dict_get row ''type''))
                         (dict_get row ''trace_type'')) (PStr ''call'') in
     rbind (row_error row) (\<lambda>(error, revert_reason).
     rbind (row_value row) (\<lambda>value_int.
     rbind (py_int (dict_get_or row ''block_number'' (PInt 0))) (\<lambda>block_number.
     rbind (case chain_id of Some c \<Rightarrow> Inr c
                           | None \<Rightarrow> py_int (dict_get_or row ''chain_id'' (PInt 1))) (\<lambda>cid.
     rbind (py_int (dict_get_or row ''gas'' (PInt 0))) (\<lambda>gas.
     rbind (py_int (dict_get_or row ''gas_used'' (PInt 0))) (\<lambda>gas_used.
       Inr \<lparr>tf_chain_id = cid, tf_block_number = block_number,
        tf_tx_hash = lower (py_str (opt_dict_get row ''transaction_hash'' ''tx_hash'')),
        tf_type = upper (py_str call_type),
        tf_from_addr = lower (py_str (opt_dict_get row ''from_address'' ''from_addr'')),
        tf_to_addr =
          (if truthy (dict_get row ''to_address'') then Some (lower (py_str (dict_get row ''to_address'')))
           else if truthy (dict_get row ''to_addr'') then Some (lower (py_str (dict_get row ''to_addr'')))
           else None),
        tf_value = value_int, tf_gas = gas, tf_gas_used = gas_used,
        tf_input_data = py_str (py_or (py_or (dict_get row ''input'') (dict_get row ''input_data''))
          (PStr ''0x'')),
        tf_output = py_str (py_or (dict_get row ''output'') (PStr ''0x'')),
        tf_error = error, tf_revert_reason = revert_reason, tf_trace_address = addr\<rparr>)))))))"

section \<open>The call tree\<close>

abbreviation addr_of :: "TraceFrame \<Rightarrow> int list" where "addr_of \<equiv> tf_trace_address"

definition key_of :: "TraceFrame \<Rightarrow> string" where
  "key_of f = serialize_trace_address (addr_of f)"

definition by_addr :: "TraceFrame list \<Rightarrow> (string \<times> TraceFrame) list" where
  "by_addr fs = fold (\<lambda>t. AList.update (key_of t) t) fs []"

fun attach_calls :: "(string \<times> TraceFrame) list \<Rightarrow> TraceFrame list \<Rightarrow> TraceFrame option
    \<Rightarrow> (string \<times> string list) list \<Rightarrow> (TraceFrame option \<times> (string \<times> string list) list) res" where
  "attach_calls ba [] root kids = Inr (root, kids)"
| "attach_calls ba (t # ts) root kids =
     (if addr_of t = [] then
        (if root \<noteq> None then value_error ''build_call_tree: more than one root''
         else attach_calls ba ts (Some t) kids)
      else let parent_addr = serialize_trace_address (butlast (addr_of t)) in
        case map_of ba parent_addr of
          None \<Rightarrow> value_error (''build_call_tree: missing parent for trace_address '' @ key_of t
            @ '' (expected parent at '' @ repr_str parent_addr @ '')'')
        | Some _ \<Rightarrow> attach_calls ba ts root (dict_append parent_addr (key_of t) kids))"

definition sibling_key :: "TraceFrame \<Rightarrow> int" where
  "sibling_key c = (if addr_of c \<noteq> [] then last (addr_of c) else 0)"

text \<open>The tree at a frame; the fuel bounds the depth.\<close>

fun read_tree :: "nat \<Rightarrow> (string \<times> TraceFrame) list \<Rightarrow> (string \<times> string list) list \<Rightarrow> TraceFrame \<Rightarrow> RawTrace" where
  "read_tree 0 ba kids f = RawTrace f []"
| "read_tree (Suc n) ba kids f =
     RawTrace f (map (read_tree n ba kids)
       (sort_key sibling_key
         (List.map_filter (map_of ba) (dict_get_or kids (key_of f) []))))"

definition depth_bound :: "TraceFrame list \<Rightarrow> nat" where
  "depth_bound fs = Suc (foldr (\<lambda>f. max (length (addr_of f))) fs 0)"

definition tree_of_frames :: "TraceFrame list \<Rightarrow> RawTrace res" where
  "tree_of_frames raw_traces =
     (if length (remdups (map tf_tx_hash raw_traces)) > 1
      then value_error ''build_call_tree: mixed tx hashes''
      else let ba = by_addr raw_traces in
        if length ba \<noteq> length raw_traces
        then value_error ''build_call_tree: duplicate trace_address values''
        else rbind (attach_calls ba (sort_key (\<lambda>t. (length (addr_of t), addr_of t)) raw_traces) None [])
          (\<lambda>(root, kids). case root of
             None \<Rightarrow> value_error (''build_call_tree: no root row (trace_address='' @ repr_str '''' @ '')'')
           | Some r \<Rightarrow> Inr (read_tree (depth_bound raw_traces) ba kids r)))"

definition build_call_tree :: "pydict list \<Rightarrow> int option \<Rightarrow> RawTrace res" where
  "build_call_tree rows chain_id =
     (if rows = [] then value_error ''build_call_tree: rows is empty''
      else rbind (mapR (row_to_raw_trace chain_id) rows) tree_of_frames)"

text \<open>The pre-order walk, and the numbering of a tree that carries no addresses.\<close>

fun flatten_call_tree :: "RawTrace \<Rightarrow> RawTrace list" where
  "flatten_call_tree (RawTrace f cs) = RawTrace f cs # concat (map flatten_call_tree cs)"

fun assign_trace_addresses :: "RawTrace \<Rightarrow> int list \<Rightarrow> RawTrace"
  and assign_children :: "RawTrace list \<Rightarrow> int list \<Rightarrow> int \<Rightarrow> RawTrace list" where
  "assign_trace_addresses (RawTrace f cs) addr =
     RawTrace (f\<lparr>tf_trace_address := addr\<rparr>) (assign_children cs addr 0)"
| "assign_children [] addr i = []"
| "assign_children (c # cs) addr i =
     assign_trace_addresses c (addr @ [i]) # assign_children cs addr (i + 1)"

section \<open>Addresses as keys\<close>

lemma serialize_inj [simp]: "serialize_trace_address a = serialize_trace_address b \<longleftrightarrow> a = b"
proof -
  have ne: "serialize_trace_address c = [] \<longleftrightarrow> c = []" for c
  proof (cases c)
    case (Cons i js)
    then show ?thesis by (cases js) (simp_all add: serialize_trace_address_def)
  qed (simp add: serialize_trace_address_def)
  show ?thesis
  proof (cases "a = [] \<or> b = []")
    case True
    then show ?thesis using ne [of a] ne [of b] ne [of "[]"] by auto
  next
    case False
    then have "join [CHR '',''] (map show_int a) = join [CHR '',''] (map show_int b)
        \<longleftrightarrow> map show_int a = map show_int b"
      by (intro join_inj) auto
    moreover have "inj show_int" by (rule injI) simp
    ultimately show ?thesis by (simp add: serialize_trace_address_def inj_map_eq_map)
  qed
qed

lemma parse_serialize: "parse_trace_address (PStr (serialize_trace_address a)) = Inr a"
proof (cases "a = []")
  case False
  then have "split_on (CHR '','') (serialize_trace_address a) = map show_int a"
    unfolding serialize_trace_address_def by (intro split_on_join) auto
  moreover have "filter (\<lambda>p. p \<noteq> []) (map show_int a) = map show_int a" by simp
  moreover have "mapR (\<lambda>part. py_int (PStr part)) (map show_int a) = Inr a"
    by (induction a) simp_all
  ultimately show ?thesis by (simp add: parse_trace_address_def)
qed (simp add: parse_trace_address_def serialize_trace_address_def)

lemma map_of_by_addr_fold:
  assumes "distinct (map addr_of fs)"
  shows "map_of (fold (\<lambda>t. AList.update (key_of t) t) fs d) k =
    (case find (\<lambda>f. key_of f = k) fs of Some f \<Rightarrow> Some f | None \<Rightarrow> map_of d k)"
  using assms
proof (induction fs arbitrary: d)
  case (Cons f fs)
  have "find (\<lambda>g. key_of g = key_of f) fs = None"
    unfolding find_None_iff key_of_def using Cons.prems by (auto simp: image_iff)
  with Cons show ?case by (auto simp: update_conv' split: option.splits)
qed simp

lemma find_key:
  assumes "distinct (map addr_of fs)" "f \<in> set fs"
  shows "find (\<lambda>g. key_of g = serialize_trace_address (addr_of f)) fs = Some f"
  using assms
proof (induction fs)
  case (Cons g fs)
  then show ?case
    by (cases "f = g") (force simp: key_of_def)+
qed simp

lemma map_of_by_addr:
  assumes "distinct (map addr_of fs)" "f \<in> set fs" "addr_of f = a"
  shows "map_of (by_addr fs) (serialize_trace_address a) = Some f"
  using find_key [OF assms(1,2)] assms(3)
  by (simp add: by_addr_def map_of_by_addr_fold [OF assms(1)])

lemma map_of_by_addr_None:
  assumes "distinct (map addr_of fs)" "a \<notin> set (map addr_of fs)"
  shows "map_of (by_addr fs) (serialize_trace_address a) = None"
proof -
  have "find (\<lambda>g. key_of g = serialize_trace_address a) fs = None"
    using assms(2) by (auto simp: find_None_iff key_of_def)
  then show ?thesis by (simp add: by_addr_def map_of_by_addr_fold [OF assms(1)])
qed

lemma length_update: "length (AList.update k v d) = (if k \<in> set (map fst d) then length d else Suc (length d))"
  using arg_cong [OF dict_keys_update [of k v d], of length] by simp

lemma length_by_addr_fold:
  "distinct (map fst d) \<Longrightarrow> length (fold (\<lambda>t. AList.update (key_of t) t) fs d) =
      card (set (map fst d) \<union> key_of ` set fs)"
proof (induction fs arbitrary: d)
  case Nil
  then show ?case using distinct_card [of "map fst d"] by simp
next
  case (Cons f fs)
  have "distinct (map fst (AList.update (key_of f) f d))" using Cons.prems by (rule distinct_update)
  moreover have "set (map fst (AList.update (key_of f) f d)) = insert (key_of f) (set (map fst d))"
    by (auto simp: dict_keys_update simp del: set_map)
  ultimately show ?case using Cons.IH [of "AList.update (key_of f) f d"] by simp
qed

lemma length_by_addr: "length (by_addr fs) = length fs \<longleftrightarrow> distinct (map addr_of fs)"
proof -
  have "length (by_addr fs) = card (key_of ` set fs)"
    using length_by_addr_fold [of "[]" fs] by (simp add: by_addr_def)
  also have "key_of ` set fs = serialize_trace_address ` addr_of ` set fs"
    by (simp add: key_of_def image_image)
  also have "card \<dots> = card (set (map addr_of fs))" by (simp add: card_image inj_on_def)
  finally show ?thesis
    using card_distinct [of "map addr_of fs"] distinct_card [of "map addr_of fs"] by auto
qed

section \<open>Well-addressed trees\<close>

text \<open>The address of a child is its parent's followed by one more index, and the indices of
  siblings increase.\<close>

definition is_child :: "int list \<Rightarrow> TraceFrame \<Rightarrow> bool" where
  "is_child a g = (addr_of g \<noteq> [] \<and> butlast (addr_of g) = a)"

fun addressed :: "RawTrace \<Rightarrow> bool" where
  "addressed (RawTrace f cs) = ((\<forall>c \<in> set cs. is_child (addr_of f) (frame c) \<and> addressed c) \<and>
     sorted_wrt (<) (map (\<lambda>c. sibling_key (frame c)) cs))"

definition frames :: "RawTrace \<Rightarrow> TraceFrame list" where
  "frames t = map frame (flatten_call_tree t)"

text \<open>What the loader needs of the rows: every address but the root's has its parent's.\<close>

definition parents_present :: "TraceFrame list \<Rightarrow> bool" where
  "parents_present fs = (\<forall>f \<in> set fs. addr_of f \<noteq> [] \<longrightarrow> butlast (addr_of f) \<in> addr_of ` set fs)"

lemma frames_simps [simp]: "frames (RawTrace f cs) = f # concat (map frames cs)"
  by (simp add: frames_def [abs_def] map_concat comp_def)

lemma is_child_addr: "is_child a g \<Longrightarrow> addr_of g = a @ [sibling_key g]"
  by (auto simp: is_child_def sibling_key_def)

lemma root_in_frames [simp]: "frame t \<in> set (frames t)"
  by (cases t) simp

lemma frames_prefix:
  "addressed t \<Longrightarrow> g \<in> set (frames t) \<Longrightarrow> prefix (addr_of (frame t)) (addr_of g)"
proof (induction t arbitrary: g)
  case (RawTrace f cs)
  from RawTrace.prems(2) consider "g = f" | c where "c \<in> set cs" "g \<in> set (frames c)" by auto
  then show ?case
  proof cases
    case 2
    with RawTrace have "prefix (addr_of (frame c)) (addr_of g)" by simp
    moreover have "prefix (addr_of f) (addr_of (frame c))"
      using 2(1) RawTrace.prems(1) is_child_addr [of "addr_of f" "frame c"] by simp
    ultimately show ?thesis by (simp add: prefix_order.trans)
  qed simp
qed

lemma prefix_snoc_unique: "prefix (a @ [i]) b \<Longrightarrow> prefix (a @ [j]) b \<Longrightarrow> i = j"
  by (auto simp: prefix_def)

lemma not_prefix_parent: "\<not> prefix (a @ [i]) a"
  by (auto simp: prefix_def)

text \<open>The frames below a child are the frames of the tree whose address extends the child's.\<close>

lemma child_frames:
  assumes "addressed (RawTrace f cs)" "c \<in> set cs"
  shows "set (frames c) = {g \<in> set (frames (RawTrace f cs)). prefix (addr_of (frame c)) (addr_of g)}"
    (is "_ = ?R")
proof
  show "set (frames c) \<subseteq> ?R" using assms frames_prefix by auto
  show "?R \<subseteq> set (frames c)"
  proof
    fix g assume g: "g \<in> ?R"
    have ca: "addr_of (frame c) = addr_of f @ [sibling_key (frame c)]"
      using assms is_child_addr by simp
    from g consider "g = f" | d where "d \<in> set cs" "g \<in> set (frames d)" by auto
    then show "g \<in> set (frames c)"
    proof cases
      case 1
      with g ca show ?thesis using not_prefix_parent by auto
    next
      case 2
      then have da: "addr_of (frame d) = addr_of f @ [sibling_key (frame d)]"
        and dp: "prefix (addr_of (frame d)) (addr_of g)"
        using assms(1) is_child_addr frames_prefix by simp_all
      have "sibling_key (frame d) = sibling_key (frame c)"
        using g ca da dp prefix_snoc_unique by auto
      moreover have "distinct (map (\<lambda>c. sibling_key (frame c)) cs)"
        using assms(1) by (auto intro: strict_sorted_iff [THEN iffD1, THEN conjunct2])
      ultimately have "d = c" using 2(1) assms(2) by (auto simp: distinct_map dest: inj_onD)
      with 2 show ?thesis by simp
    qed
  qed
qed

text \<open>Two well-addressed trees with the same frames are the same tree.\<close>

lemma children_of_addressed:
  assumes "addressed (RawTrace f es)" "inj_on addr_of (set (frames (RawTrace f es)))"
  shows "frame ` set es = {g \<in> set (frames (RawTrace f es)). is_child (addr_of f) g}"
proof
  show "frame ` set es \<subseteq> {g \<in> set (frames (RawTrace f es)). is_child (addr_of f) g}"
    using assms(1) root_in_frames by fastforce
  show "{g \<in> set (frames (RawTrace f es)). is_child (addr_of f) g} \<subseteq> frame ` set es"
  proof
    fix g assume g: "g \<in> {g \<in> set (frames (RawTrace f es)). is_child (addr_of f) g}"
    then have "g \<noteq> f" using is_child_addr by fastforce
    with g obtain e where e: "e \<in> set es" "g \<in> set (frames e)" by auto
    then have p: "prefix (addr_of (frame e)) (addr_of g)" and ce: "is_child (addr_of f) (frame e)"
      using assms(1) frames_prefix by simp_all
    have "addr_of g = addr_of (frame e)"
      using p is_child_addr [OF ce] is_child_addr [of "addr_of f" g] g by (auto simp: prefix_def)
    moreover have "frame e \<in> set (frames (RawTrace f es))" using e(1) by (auto intro!: bexI [of _ e])
    ultimately have "g = frame e" using g by (intro inj_onD [OF assms(2)]) simp_all
    with e show "g \<in> frame ` set es" by simp
  qed
qed

lemma addressed_frames_inj:
  "addressed s \<Longrightarrow> addressed t \<Longrightarrow> set (frames s) = set (frames t) \<Longrightarrow> frame s = frame t
    \<Longrightarrow> inj_on addr_of (set (frames s)) \<Longrightarrow> s = t"
proof (induction s arbitrary: t)
  case (RawTrace f cs)
  obtain ds where t: "t = RawTrace f ds" using RawTrace.prems(4) by (cases t) simp
  let ?F = "set (frames (RawTrace f cs))"
  have same: "frame ` set cs = frame ` set ds"
    using children_of_addressed [of f cs] children_of_addressed [of f ds] RawTrace.prems t by (simp only:)
  have keys: "map (\<lambda>c. sibling_key (frame c)) cs = map (\<lambda>c. sibling_key (frame c)) ds"
  proof (rule strict_sorted_equal)
    show "sorted_wrt (<) (map (\<lambda>c. sibling_key (frame c)) cs)"
      "sorted_wrt (<) (map (\<lambda>c. sibling_key (frame c)) ds)"
      using RawTrace.prems(1,2) t by simp_all
    show "set (map (\<lambda>c. sibling_key (frame c)) cs) = set (map (\<lambda>c. sibling_key (frame c)) ds)"
      using arg_cong [OF same, of "image sibling_key"] by (simp add: image_image)
  qed
  have "cs = ds"
  proof (rule nth_equalityI)
    show len: "length cs = length ds" using arg_cong [OF keys, of length] by simp
    fix i assume i: "i < length cs"
    then have in_cs: "cs ! i \<in> set cs" and in_ds: "ds ! i \<in> set ds" using len by simp_all
    have "sibling_key (frame (cs ! i)) = sibling_key (frame (ds ! i))"
      using keys i len by (metis nth_map)
    then have addr: "addr_of (frame (cs ! i)) = addr_of (frame (ds ! i))"
      using in_cs in_ds RawTrace.prems(1,2) t
        is_child_addr [of "addr_of f" "frame (cs ! i)"] is_child_addr [of "addr_of f" "frame (ds ! i)"]
      by simp
    have F: "set (frames (cs ! i)) \<subseteq> ?F" using in_cs by auto
    have fr: "frame (cs ! i) = frame (ds ! i)"
    proof (rule inj_onD [OF RawTrace.prems(5) addr])
      show "frame (cs ! i) \<in> ?F" using F root_in_frames by (rule subsetD)
      have "frame (ds ! i) \<in> frame ` set cs" using in_ds same by auto
      then show "frame (ds ! i) \<in> ?F" using root_in_frames by fastforce
    qed
    show "cs ! i = ds ! i"
    proof (rule RawTrace.IH [OF in_cs])
      show "addressed (cs ! i)" "addressed (ds ! i)" using in_cs in_ds RawTrace.prems(1,2) t by simp_all
      show "set (frames (cs ! i)) = set (frames (ds ! i))"
        using child_frames [OF RawTrace.prems(1) in_cs] child_frames [of f ds "ds ! i"] in_ds
          RawTrace.prems(2,3) unfolding t addr by (simp only:)
      show "inj_on addr_of (set (frames (cs ! i)))" using RawTrace.prems(5) F by (rule inj_on_subset)
    qed (rule fr)
  qed
  with t show ?case by simp
qed

section \<open>What the loop builds\<close>

lemma dict_get_append:
  "dict_get_or (dict_append k v d) k' [] = dict_get_or d k' [] @ (if k' = k then [v] else [])"
  by (simp add: dict_append_def dict_get_or_def update_conv')

definition attach :: "TraceFrame list \<Rightarrow> (string \<times> string list) list \<Rightarrow> (string \<times> string list) list" where
  "attach ts kids = fold (\<lambda>t. dict_append (serialize_trace_address (butlast (addr_of t))) (key_of t))
     (filter (\<lambda>t. addr_of t \<noteq> []) ts) kids"

lemma dict_get_attach:
  "dict_get_or (attach ts kids) (serialize_trace_address a) [] =
     dict_get_or kids (serialize_trace_address a) [] @ map key_of (filter (is_child a) ts)"
proof (induction ts arbitrary: kids)
  case (Cons t ts)
  show ?case
  proof (cases "addr_of t = []")
    case True
    with Cons show ?thesis by (simp add: attach_def is_child_def)
  next
    case False
    let ?k = "dict_append (serialize_trace_address (butlast (addr_of t))) (key_of t) kids"
    have "attach (t # ts) kids = attach ts ?k" using False by (simp add: attach_def)
    with Cons [of ?k] False show ?thesis
      by (auto simp: is_child_def dict_get_append)
  qed
qed (simp add: attach_def)

text \<open>The loop succeeds exactly when every parent is there, and never finds a second root.\<close>

lemma attach_calls_eq:
  assumes d: "distinct (map addr_of fs)"
  shows "\<lbrakk>distinct (map addr_of ts); root \<noteq> None \<longrightarrow> [] \<notin> addr_of ` set ts;
      \<forall>t \<in> set ts. addr_of t \<noteq> [] \<longrightarrow> butlast (addr_of t) \<in> addr_of ` set fs\<rbrakk> \<Longrightarrow>
    attach_calls (by_addr fs) ts root kids =
      Inr (case find (\<lambda>t. addr_of t = []) ts of Some r \<Rightarrow> Some r | None \<Rightarrow> root, attach ts kids)"
proof (induction ts arbitrary: root kids)
  case (Cons t ts)
  show ?case
  proof (cases "addr_of t = []")
    case True
    then have none: "find (\<lambda>t. addr_of t = []) ts = None" "[] \<notin> addr_of ` set ts"
      using Cons.prems(1) by (auto simp: find_None_iff image_iff)
    with Cons True show ?thesis by (auto simp: attach_def)
  next
    case False
    then obtain p where p: "p \<in> set fs" "addr_of p = butlast (addr_of t)" using Cons.prems(3) by auto
    from Cons False map_of_by_addr [OF d p] show ?thesis by (simp add: attach_def Let_def)
  qed
qed (simp add: attach_def)

lemma attach_calls_missing:
  assumes d: "distinct (map addr_of fs)"
  shows "\<lbrakk>t \<in> set ts; addr_of t \<noteq> []; butlast (addr_of t) \<notin> addr_of ` set fs\<rbrakk> \<Longrightarrow>
    \<exists>m. attach_calls (by_addr fs) ts root kids = Inl (Raise ValueError m)"
proof (induction ts arbitrary: root kids)
  case (Cons u ts)
  show ?case
  proof (cases "t = u")
    case True
    then show ?thesis using Cons.prems map_of_by_addr_None [OF d, of "butlast (addr_of t)"]
      by (simp add: Let_def value_error_def)
  next
    case False
    with Cons show ?thesis by (auto simp: value_error_def Let_def split: option.split)
  qed
qed simp

section \<open>What is read back\<close>

lemma map_filter_by_addr:
  assumes "distinct (map addr_of fs)" "set gs \<subseteq> set fs"
  shows "List.map_filter (map_of (by_addr fs)) (map key_of gs) = gs"
  using assms(2)
proof (induction gs)
  case (Cons g gs)
  then have "map_of (by_addr fs) (key_of g) = Some g"
    unfolding key_of_def by (intro map_of_by_addr [OF assms(1)]) simp_all
  with Cons show ?case by (simp add: map_filter_simps)
qed (simp add: map_filter_simps)

lemma prefix_closed:
  assumes "parents_present fs" "f \<in> set fs" "n \<le> length (addr_of f)"
  shows "take n (addr_of f) \<in> addr_of ` set fs"
  using assms(3)
proof (induction n rule: inc_induct)
  case base
  then show ?case using assms(2) by auto
next
  case (step n)
  then obtain g where g: "g \<in> set fs" "addr_of g = take (Suc n) (addr_of f)" by auto
  moreover have "addr_of g \<noteq> []" "butlast (addr_of g) = take n (addr_of f)"
    using g step(2) by (auto simp: butlast_take)
  ultimately show ?case using assms(1) by (fastforce simp: parents_present_def)
qed

lemma kids_sorted:
  assumes "distinct (map addr_of L)"
  shows "sorted_wrt (<) (map sibling_key (sort_key sibling_key (filter (is_child a) L)))"
proof -
  have "inj_on sibling_key (set (filter (is_child a) L))"
  proof (rule inj_onI)
    fix g h assume gh: "g \<in> set (filter (is_child a) L)" "h \<in> set (filter (is_child a) L)"
      "sibling_key g = sibling_key h"
    then have "addr_of g = addr_of h" using is_child_addr [of a g] is_child_addr [of a h] by simp
    with gh assms show "g = h" by (auto simp: distinct_map dest: inj_onD)
  qed
  moreover have "distinct L" using assms by (simp add: distinct_map)
  ultimately have "distinct (map sibling_key (sort_key sibling_key (filter (is_child a) L)))"
    by (simp add: distinct_map)
  then show ?thesis by (simp add: strict_sorted_iff)
qed

lemma prefix_step:
  assumes "parents_present fs" "g \<in> set fs" "prefix a (addr_of g)" "addr_of g \<noteq> a"
  shows "\<exists>h \<in> set fs. is_child a h \<and> prefix (addr_of h) (addr_of g)"
proof -
  obtain i r where gi: "addr_of g = a @ i # r"
    using assms(3,4) by (auto simp: prefix_def neq_Nil_conv)
  then have "take (Suc (length a)) (addr_of g) \<in> addr_of ` set fs"
    using assms(1,2) by (intro prefix_closed) simp_all
  then obtain h where "h \<in> set fs" "addr_of h = a @ [i]" using gi by auto
  then show ?thesis using gi by (intro bexI [of _ h]) (simp_all add: is_child_def)
qed

lemma descendants_step:
  assumes "distinct (map addr_of fs)" "parents_present fs" "set L = set fs" "f \<in> set fs"
  shows "insert f (\<Union>h \<in> set (filter (is_child (addr_of f)) L). {g \<in> set fs. prefix (addr_of h) (addr_of g)}) =
    {g \<in> set fs. prefix (addr_of f) (addr_of g)}" (is "?A = ?B")
proof (intro equalityI subsetI)
  fix g assume "g \<in> ?A"
  then consider "g = f" | h where "is_child (addr_of f) h" "g \<in> set fs" "prefix (addr_of h) (addr_of g)" by auto
  then show "g \<in> ?B"
  proof cases
    case 2
    then have "prefix (addr_of f) (addr_of h)" using is_child_addr [of "addr_of f" h] by simp
    with 2 show ?thesis by (auto intro: prefix_order.trans)
  qed (use assms(4) in simp)
next
  fix g assume g: "g \<in> ?B"
  show "g \<in> ?A"
  proof (cases "addr_of g = addr_of f")
    case True
    then have "g = f" using assms(1,4) g by (auto simp: distinct_map dest: inj_onD)
    then show ?thesis by simp
  next
    case False
    from prefix_step [OF assms(2) _ _ False] g assms(3) show ?thesis by auto
  qed
qed

lemma read_tree_frames:
  assumes "distinct (map addr_of fs)" "parents_present fs" "distinct (map addr_of L)" "set L = set fs"
  shows "\<lbrakk>f \<in> set fs; \<forall>g \<in> set fs. length (addr_of g) < length (addr_of f) + n\<rbrakk> \<Longrightarrow>
    addressed (read_tree n (by_addr fs) (attach L []) f) \<and>
    frame (read_tree n (by_addr fs) (attach L []) f) = f \<and>
    set (frames (read_tree n (by_addr fs) (attach L []) f)) =
      {g \<in> set fs. prefix (addr_of f) (addr_of g)}"
proof (induction n arbitrary: f)
  case (Suc n)
  let ?R = "read_tree n (by_addr fs) (attach L [])"
  let ?K = "filter (is_child (addr_of f)) L" and ?S = "sort_key sibling_key (filter (is_child (addr_of f)) L)"
  have "set ?K \<subseteq> set fs" using assms(4) by auto
  from map_filter_by_addr [OF assms(1) this]
  have eq: "read_tree (Suc n) (by_addr fs) (attach L []) f = RawTrace f (map ?R ?S)"
    by (simp add: key_of_def [of f] dict_get_attach) (simp add: dict_get_or_def)
  have ih: "addressed (?R h)" "frame (?R h) = h"
    "set (frames (?R h)) = {g \<in> set fs. prefix (addr_of h) (addr_of g)}" if "h \<in> set ?K" for h
  proof -
    have "h \<in> set fs" "is_child (addr_of f) h" using that assms(4) by auto
    moreover from is_child_addr [OF this(2)] Suc.prems(2)
    have "\<forall>g \<in> set fs. length (addr_of g) < length (addr_of h) + n" by simp
    ultimately show "addressed (?R h)" "frame (?R h) = h"
      "set (frames (?R h)) = {g \<in> set fs. prefix (addr_of h) (addr_of g)}"
      using Suc.IH by blast+
  qed
  have "map (\<lambda>h. sibling_key (frame (?R h))) ?S = map sibling_key ?S"
    using ih(2) by simp
  then have "sorted_wrt (<) (map (\<lambda>h. sibling_key (frame (?R h))) ?S)"
    using kids_sorted [OF assms(3), of "addr_of f"] by (simp only:)
  then have "addressed (RawTrace f (map ?R ?S))" using ih(1,2) by (simp add: comp_def)
  moreover have "set (frames (RawTrace f (map ?R ?S))) =
      insert f (\<Union>h \<in> set ?K. {g \<in> set fs. prefix (addr_of h) (addr_of g)})"
    using ih(3) by simp
  then have "set (frames (RawTrace f (map ?R ?S))) = {g \<in> set fs. prefix (addr_of f) (addr_of g)}"
    unfolding descendants_step [OF assms(1,2,4) Suc.prems(1)] .
  ultimately show ?case unfolding eq by simp
qed auto

section \<open>The loader as a whole\<close>

definition rows_ok :: "TraceFrame list \<Rightarrow> bool" where
  "rows_ok fs = ((\<exists>h. \<forall>f \<in> set fs. tf_tx_hash f = h) \<and>
     distinct (map addr_of fs) \<and> [] \<in> addr_of ` set fs \<and> parents_present fs)"

lemma one_value: "length (remdups xs) > 1 \<longleftrightarrow> \<not> (\<exists>h. \<forall>x \<in> set xs. x = h)"
proof -
  have "length (remdups xs) \<le> 1 \<longleftrightarrow> (\<forall>x \<in> set xs. \<forall>y \<in> set xs. x = y)"
    unfolding length_remdups_card_conv One_nat_def by (rule card_le_Suc0_iff_eq) simp
  also have "\<dots> \<longleftrightarrow> (\<exists>h. \<forall>x \<in> set xs. x = h)"
  proof (cases "xs = []")
    case False
    then have "hd xs \<in> set xs" by simp
    then show ?thesis by metis
  qed simp
  finally show ?thesis by (simp add: not_le [symmetric])
qed

lemma mixed_tx:
  "length (remdups (map tf_tx_hash fs)) > 1 \<longleftrightarrow> \<not> (\<exists>h. \<forall>f \<in> set fs. tf_tx_hash f = h)"
  unfolding one_value by simp

lemma addressed_distinct:
  "addressed t \<Longrightarrow> distinct (map addr_of (frames t))"
proof (induction t)
  case (RawTrace f cs)
  have sib: "addr_of (frame c) = addr_of f @ [sibling_key (frame c)]" if "c \<in> set cs" for c
    using RawTrace.prems that is_child_addr by simp
  have "distinct (map addr_of (concat (map frames cs)))"
    using RawTrace sib
  proof (induction cs)
    case (Cons c cs)
    have "addr_of g \<noteq> addr_of h" if "g \<in> set (frames c)" "d \<in> set cs" "h \<in> set (frames d)" for g d h
    proof
      assume eq: "addr_of g = addr_of h"
      have "prefix (addr_of (frame c)) (addr_of g)" "prefix (addr_of (frame d)) (addr_of h)"
        using that Cons.prems(2) frames_prefix [of c g] frames_prefix [of d h] by simp_all
      then have "sibling_key (frame c) = sibling_key (frame d)"
        using Cons.prems(3) [of c] Cons.prems(3) [of d] that(2) prefix_snoc_unique eq by auto
      moreover have "sibling_key (frame c) < sibling_key (frame d)"
        using Cons.prems(2) that(2) by simp
      ultimately show False by simp
    qed
    moreover have "distinct (map addr_of (concat (map frames cs)))" using Cons by simp
    moreover have "distinct (map addr_of (frames c))" using Cons.prems(1,2) by simp
    ultimately show ?case by fastforce
  qed simp
  moreover have "addr_of f \<noteq> addr_of g" if "c \<in> set cs" "g \<in> set (frames c)" for c g
  proof -
    have "prefix (addr_of (frame c)) (addr_of g)" using RawTrace.prems that frames_prefix by simp
    then show ?thesis using sib [OF that(1)] not_prefix_parent by auto
  qed
  ultimately show ?case by auto
qed

lemma addressed_parents:
  "addressed t \<Longrightarrow> g \<in> set (frames t) \<Longrightarrow> g \<noteq> frame t \<Longrightarrow>
    addr_of g \<noteq> [] \<and> butlast (addr_of g) \<in> addr_of ` set (frames t)"
proof (induction t)
  case (RawTrace f cs)
  then obtain c where c: "c \<in> set cs" "g \<in> set (frames c)" by auto
  then have ch: "is_child (addr_of f) (frame c)" "addressed c" using RawTrace.prems(1) by simp_all
  show ?case
  proof (cases "g = frame c")
    case True
    with ch show ?thesis by (simp add: is_child_def)
  next
    case False
    from RawTrace.IH [OF c(1) ch(2) c(2) False] c(1) show ?thesis by auto
  qed
qed

lemma depth_bound_gt: "f \<in> set fs \<Longrightarrow> length (addr_of f) < depth_bound fs"
  by (induction fs) (auto simp: depth_bound_def less_Suc_eq_le max_def)

lemma tree_of_frames_ok:
  assumes "rows_ok fs"
  shows "\<exists>t. tree_of_frames fs = Inr t \<and> addressed t \<and> addr_of (frame t) = [] \<and> mset (frames t) = mset fs"
proof -
  let ?L = "sort_key (\<lambda>t. (length (addr_of t), addr_of t)) fs"
  have d: "distinct (map addr_of fs)" and pp: "parents_present fs"
    and tx: "\<not> length (remdups (map tf_tx_hash fs)) > 1"
    using assms unfolding mixed_tx rows_ok_def by simp_all
  have dL: "distinct (map addr_of ?L)" using d by (simp add: distinct_map)
  obtain r where r: "find (\<lambda>t. addr_of t = []) ?L = Some r"
    using assms by (cases "find (\<lambda>t. addr_of t = []) ?L") (auto simp: rows_ok_def find_None_iff)
  then have rp: "r \<in> set fs" "addr_of r = []" by (auto dest: find_SomeD)
  have att: "attach_calls (by_addr fs) ?L None [] = Inr (Some r, attach ?L [])"
    using attach_calls_eq [OF d dL, of None "[]"] pp r by (simp add: parents_present_def)
  let ?t = "read_tree (depth_bound fs) (by_addr fs) (attach ?L []) r"
  have "tree_of_frames fs = Inr ?t"
    using tx att length_by_addr [of fs] d by (simp add: tree_of_frames_def Let_def)
  moreover have t: "addressed ?t" "frame ?t = r" "set (frames ?t) = set fs"
    using read_tree_frames [OF d pp dL, of r "depth_bound fs"] rp depth_bound_gt [of _ fs] by auto
  moreover have "mset (frames ?t) = mset fs"
  proof (rule set_eq_iff_mset_eq_distinct [THEN iffD1])
    show "distinct (frames ?t)" "distinct fs" "set (frames ?t) = set fs"
      using addressed_distinct [OF t(1)] d t(3) by (simp_all add: distinct_map)
  qed
  ultimately show ?thesis using rp by auto
qed

lemma tree_of_frames_bad:
  assumes "\<not> rows_ok fs"
  shows "\<exists>m. tree_of_frames fs = Inl (Raise ValueError m)"
proof -
  let ?L = "sort_key (\<lambda>t. (length (addr_of t), addr_of t)) fs"
  consider (tx) "length (remdups (map tf_tx_hash fs)) > 1"
    | (dup) "\<not> length (remdups (map tf_tx_hash fs)) > 1" "\<not> distinct (map addr_of fs)"
    | (missing) t where "\<not> length (remdups (map tf_tx_hash fs)) > 1" "distinct (map addr_of fs)"
        "t \<in> set fs" "addr_of t \<noteq> []" "butlast (addr_of t) \<notin> addr_of ` set fs"
    | (root) "\<not> length (remdups (map tf_tx_hash fs)) > 1" "distinct (map addr_of fs)"
        "parents_present fs" "[] \<notin> addr_of ` set fs"
    using assms unfolding rows_ok_def mixed_tx parents_present_def by blast
  then show ?thesis
  proof cases
    case missing
    then show ?thesis
      using attach_calls_missing [OF missing(2), of t ?L None "[]"] length_by_addr [of fs]
      by (auto simp: tree_of_frames_def Let_def)
  next
    case root
    then have f: "find (\<lambda>t. addr_of t = []) ?L = None" by (auto simp: find_None_iff image_iff)
    have "distinct (map addr_of ?L)" using root(2) by (simp add: distinct_map)
    then have "attach_calls (by_addr fs) ?L None [] = Inr (None, attach ?L [])"
      using attach_calls_eq [OF root(2), of ?L None "[]"] root(3) f by (simp add: parents_present_def)
    then show ?thesis
      using root(1,2) length_by_addr [of fs] by (simp add: tree_of_frames_def Let_def value_error_def)
  qed (use length_by_addr [of fs] in \<open>simp_all add: tree_of_frames_def Let_def value_error_def\<close>)
qed

section \<open>Properties\<close>

text \<open>C7: rebuilding the call tree: the flat rows of a well-addressed call tree, in any order, are
  rebuilt to exactly that tree: every frame under its own parent, siblings in order.\<close>

theorem build_call_tree_roundtrip:
  assumes tree: "addressed t" "addr_of (frame t) = []" "\<forall>f \<in> set (frames t). tf_tx_hash f = h"
    and rows: "mapR (row_to_raw_trace chain_id) rows = Inr fs" "mset fs = mset (frames t)"
  shows "build_call_tree rows chain_id = Inr t"
proof -
  have d: "distinct (map addr_of fs)"
    using addressed_distinct [OF tree(1)] mset_eq_imp_distinct_iff [of "map addr_of fs" "map addr_of (frames t)"]
      rows(2) by simp
  have sf: "set fs = set (frames t)" using rows(2) by (rule mset_eq_setD)
  have pp: "parents_present fs"
    unfolding parents_present_def sf using addressed_parents [OF tree(1)] tree(2) by metis
  have "[] \<in> addr_of ` set fs" using sf tree(2) root_in_frames [of t] by (metis image_eqI)
  then have "rows_ok fs" unfolding rows_ok_def using d pp sf tree(3) by blast
  from tree_of_frames_ok [OF this] obtain s where s: "tree_of_frames fs = Inr s" "addressed s"
    "addr_of (frame s) = []" "mset (frames s) = mset fs" by blast
  have inj: "inj_on addr_of (set (frames s))"
    using d mset_eq_setD [OF s(4)] by (simp add: distinct_map)
  have "s = t"
  proof (rule addressed_frames_inj [OF s(2) tree(1)])
    show "set (frames s) = set (frames t)" using mset_eq_setD [OF s(4)] sf by simp
    then show "frame s = frame t"
      using s(3) tree(2) root_in_frames [of s] root_in_frames [of t]
      by (intro inj_onD [OF inj]) simp_all
  qed (rule inj)
  moreover have "rows \<noteq> []" using rows(1) sf by (cases t) auto
  ultimately show ?thesis using s(1) rows(1) by (simp add: build_call_tree_def)
qed

text \<open>Three rows of one transaction, out of order.\<close>

definition sample_row :: "string \<Rightarrow> pydict" where
  "sample_row a = [(''transaction_hash'', PStr ''0xAA''), (''trace_address'', PStr a),
     (''from_address'', PStr ''0xF''), (''gas'', PInt 5)]"

definition sample_frame :: "int list \<Rightarrow> TraceFrame" where
  "sample_frame a = \<lparr>tf_chain_id = 1, tf_block_number = 0, tf_tx_hash = ''0xaa'', tf_type = ''CALL'',
     tf_from_addr = ''0xf'', tf_to_addr = None, tf_value = 0, tf_gas = 5, tf_gas_used = 0,
     tf_input_data = ''0x'', tf_output = ''0x'', tf_error = None, tf_revert_reason = None,
     tf_trace_address = a\<rparr>"

definition sample_tree :: RawTrace where
  "sample_tree = RawTrace (sample_frame []) [RawTrace (sample_frame [2]) [RawTrace (sample_frame [2, 0]) []],
     RawTrace (sample_frame [10]) []]"

lemma sample_rows_parse:
  "mapR (row_to_raw_trace None) (map sample_row [''10'', ''2,0'', '''', ''2'']) =
     Inr (map sample_frame [[10], [2, 0], [], [2]])"
  by code_simp

theorem build_call_tree_roundtrip_witness:
  "build_call_tree (map sample_row [''10'', ''2,0'', '''', ''2'']) None = Inr sample_tree"
proof (rule build_call_tree_roundtrip [OF _ _ _ sample_rows_parse])
  show "addressed sample_tree" "addr_of (frame sample_tree) = []"
    by (simp_all add: sample_tree_def sample_frame_def is_child_def sibling_key_def)
  show "\<forall>f \<in> set (frames sample_tree). tf_tx_hash f = ''0xaa''"
    by (simp add: sample_tree_def sample_frame_def)
  show "mset (map sample_frame [[10], [2, 0], [], [2]]) = mset (frames sample_tree)"
    by (simp add: sample_tree_def)
qed

text \<open>C19: what the loader accepts and what it answers: every row is converted first, and the first
  row that cannot be (a NULL gas is a \<open>TypeError\<close>) ends the loader with its error. Of converted rows it
  builds a tree exactly when they share one transaction hash, have distinct addresses, one of them the
  root's, and every other row has its parent among them; the tree then is well addressed and holds
  each row exactly once. Otherwise, and for no rows at all, it raises \<open>ValueError\<close>.\<close>

theorem build_call_tree_exact:
  "case mapR (row_to_raw_trace chain_id) rows of
     Inl e \<Rightarrow> build_call_tree rows chain_id = Inl e
   | Inr fs \<Rightarrow>
       if (\<exists>h. \<forall>f \<in> set fs. tf_tx_hash f = h) \<and> distinct (map addr_of fs) \<and> [] \<in> addr_of ` set fs
         \<and> (\<forall>f \<in> set fs. addr_of f \<noteq> [] \<longrightarrow> butlast (addr_of f) \<in> addr_of ` set fs)
       then \<exists>t. build_call_tree rows chain_id = Inr t \<and> addressed t \<and> addr_of (frame t) = []
         \<and> mset (frames t) = mset fs
       else \<exists>m. build_call_tree rows chain_id = Inl (Raise ValueError m)"
proof (cases "mapR (row_to_raw_trace chain_id) rows")
  case (Inl e)
  then have "rows \<noteq> []" by auto
  with Inl show ?thesis by (simp add: build_call_tree_def)
next
  case (Inr fs)
  have ok: "rows_ok fs = ((\<exists>h. \<forall>f \<in> set fs. tf_tx_hash f = h) \<and> distinct (map addr_of fs) \<and> [] \<in> addr_of ` set fs
      \<and> (\<forall>f \<in> set fs. addr_of f \<noteq> [] \<longrightarrow> butlast (addr_of f) \<in> addr_of ` set fs))"
    by (simp add: rows_ok_def parents_present_def)
  have empty: "rows = [] \<Longrightarrow> \<not> rows_ok fs" using Inr by (auto simp: rows_ok_def)
  have "if rows_ok fs
      then \<exists>t. build_call_tree rows chain_id = Inr t \<and> addressed t \<and> addr_of (frame t) = [] \<and> mset (frames t) = mset fs
      else \<exists>m. build_call_tree rows chain_id = Inl (Raise ValueError m)"
    using Inr empty tree_of_frames_ok [of fs] tree_of_frames_bad [of fs]
    by (cases "rows = []") (auto simp: build_call_tree_def value_error_def)
  with Inr show ?thesis unfolding ok by simp
qed

theorem build_call_tree_exact_witness:
  "\<exists>m. build_call_tree (map sample_row [''10'', ''2,0'', '''', ''3'']) None = Inl (Raise ValueError m)"
proof -
  have p: "mapR (row_to_raw_trace None) (map sample_row [''10'', ''2,0'', '''', ''3'']) =
      Inr (map sample_frame [[10], [2, 0], [], [3]])" by code_simp
  have "\<not> (\<forall>f \<in> set (map sample_frame [[10], [2, 0], [], [3]]).
      addr_of f \<noteq> [] \<longrightarrow> butlast (addr_of f) \<in> addr_of ` set (map sample_frame [[10], [2, 0], [], [3]]))"
    by (simp add: sample_frame_def)
  with build_call_tree_exact [where chain_id = None and rows = "map sample_row [''10'', ''2,0'', '''', ''3'']"]
  show ?thesis unfolding p sum.case by (auto split: if_splits)
qed

text \<open>Trace addresses survive their text form, and distinct addresses have distinct texts: the
  key under which a parent is looked up identifies one frame.\<close>

theorem trace_address_roundtrip:
  "parse_trace_address (PStr (serialize_trace_address a)) = Inr a
    \<and> (serialize_trace_address a = serialize_trace_address b \<longleftrightarrow> a = b)"
  by (simp add: parse_serialize)

section \<open>Numbering a tree\<close>

lemma assign_children_nth:
  "assign_children cs addr i = map (\<lambda>k. assign_trace_addresses (cs ! k) (addr @ [i + int k])) [0..<length cs]"
proof (induction cs arbitrary: i)
  case (Cons c cs)
  show ?case
    by (rule nth_equalityI) (auto simp: Cons nth_Cons' algebra_simps simp del: upt_Suc)
qed simp

lemma assign_frame [simp]: "addr_of (frame (assign_trace_addresses t a)) = a"
  by (cases t) simp

lemma assign_addressed: "addressed (assign_trace_addresses t a)"
proof (induction t arbitrary: a)
  case (RawTrace f cs)
  have "sorted_wrt (<) (map (\<lambda>k. int k) [0..<length cs])"
    by (simp add: sorted_wrt_map)
  then show ?case
    using RawTrace
    by (auto simp: assign_children_nth comp_def sibling_key_def is_child_def)
qed

end
