(* ===== verification/Trace_Decoder.thy ===== *)
theory Trace_Decoder
  imports Calldata_Decoder Trace_Tree
begin

text \<open>
  \<open>decoder/trace_decoder.py\<close>: decoding every frame of a call tree with its own success and that of
  its ancestors, and the extraction of successful internal ERC-20 transfers. The nested function
  \<open>_walk\<close> threads \<open>parent_success\<close> down the tree; \<open>walk_calls\<close> is that recursion.
\<close>

definition raw_trace_call_fields :: "string \<times> int list \<Rightarrow> string list" where
  "raw_trace_call_fields x = [lower (fst x), serialize_trace_address (snd x)]"

definition compute_raw_trace_call_id :: "string \<Rightarrow> int list \<Rightarrow> string" where
  "compute_raw_trace_call_id tx_hash trace_address =
     sha256_hex (canonical_key ''raw_trace_call'' (raw_trace_call_fields (tx_hash, trace_address)))"

interpretation raw_trace_call_id:
  hashed_id "\<lambda>(tx, a). compute_raw_trace_call_id tx a" "''raw_trace_call''" raw_trace_call_fields
  by unfold_locales (auto simp: compute_raw_trace_call_id_def)

section \<open>Decoding the frames\<close>

text \<open>The method name and the parameters found through the registry. A \<open>KeyError\<close> anywhere in the
  lookup is swallowed; the method name assigned before it stays.\<close>

definition input_or_0x :: "TraceFrame \<Rightarrow> string" where
  "input_or_0x node = (if tf_input_data node = '''' then ''0x'' else tf_input_data node)"

definition swallow_key_error :: "'a \<Rightarrow> 'a res \<Rightarrow> 'a res" where
  "swallow_key_error d r = (case r of
     Inl e \<Rightarrow> if exc_class e = KeyError then Inr d else Inl e | Inr x \<Rightarrow> Inr x)"

definition registry_call :: "(string \<Rightarrow> byte list) \<Rightarrow> (string list \<Rightarrow> byte list \<Rightarrow> pyval list res)
    \<Rightarrow> AbiRegistry \<Rightarrow> TraceFrame \<Rightarrow> (string \<times> pydict) res" where
  "registry_call keccak abi_decode registry node = (case tf_to_addr node of
     None \<Rightarrow> Inr (''<unknown>'', [])
   | Some to_addr \<Rightarrow> swallow_key_error (''<unknown>'', [])
       (rbind (registry_get registry (lower to_addr) (tf_block_number node)) (\<lambda>abi.
        rbind (find_method_by_selector keccak abi (extract_method_selector (input_or_0x node))) (\<lambda>found.
        case found of
          None \<Rightarrow> Inr (''<unknown>'', [])
        | Some m \<Rightarrow> let method_name = py_str (dict_get_or m ''name'' (PStr ''<unnamed>'')) in
            swallow_key_error (method_name, [])
              (rbind (decode_calldata keccak abi_decode (input_or_0x node) abi) (\<lambda>r.
                 Inr (method_name, case dr_decoded r of
                    Some (DCall c) \<Rightarrow> if dr_success r then dc_params c else [] | _ \<Rightarrow> [])))))))"

definition erc20_params :: "Erc20Call \<Rightarrow> pydict" where
  "erc20_params e = (case ec_from e of None \<Rightarrow> [] | Some f \<Rightarrow> [(''from'', PStr f)]) @
     [(''to'', PStr (ec_to e)), (''amount'', PInt (ec_amount e))]"

definition decode_frame :: "(string \<Rightarrow> byte list) \<Rightarrow> (string list \<Rightarrow> byte list \<Rightarrow> pyval list res)
    \<Rightarrow> AbiRegistry \<Rightarrow> bool \<Rightarrow> TraceFrame \<Rightarrow> DecodedCall res" where
  "decode_frame keccak abi_decode registry parent_success node =
     rbind (registry_call keccak abi_decode registry node) (\<lambda>(name0, params0).
     rbind (if name0 = ''<unknown>''
            then rbind (decode_erc20_transfer_calldata abi_decode (input_or_0x node)) (\<lambda>e. Inr (case e of
              None \<Rightarrow> (name0, params0) | Some c \<Rightarrow> (ec_method c, erc20_params c)))
            else Inr (name0, params0)) (\<lambda>(method_name, params). Inr
       \<lparr>dc_raw_trace_call_id = compute_raw_trace_call_id (tf_tx_hash node) (tf_trace_address node),
        dc_chain_id = tf_chain_id node, dc_block_number = tf_block_number node,
        dc_tx_hash = lower (tf_tx_hash node), dc_trace_address = tf_trace_address node,
        dc_contract_address = (case tf_to_addr node of None \<Rightarrow> None
          | Some a \<Rightarrow> if a = '''' then None else Some (lower a)),
        dc_method_name = method_name,
        dc_method_selector = extract_method_selector (input_or_0x node),
        dc_params = params, dc_success = frame_ok node, dc_parent_success = parent_success\<rparr>))"

fun walk_calls :: "(bool \<Rightarrow> TraceFrame \<Rightarrow> 'a res) \<Rightarrow> bool \<Rightarrow> RawTrace \<Rightarrow> 'a list res" where
  "walk_calls dec parent_success (RawTrace node cs) =
     rbind (dec parent_success node) (\<lambda>d.
     rbind (mapR (walk_calls dec (parent_success \<and> frame_ok node)) cs) (\<lambda>ds. Inr (d # concat ds)))"

definition decode_trace_calls :: "(string \<Rightarrow> byte list) \<Rightarrow> (string list \<Rightarrow> byte list \<Rightarrow> pyval list res)
    \<Rightarrow> RawTrace \<Rightarrow> AbiRegistry \<Rightarrow> DecodedCall list res" where
  "decode_trace_calls keccak abi_decode trace registry =
     walk_calls (decode_frame keccak abi_decode registry) True trace"

fun walk_trace :: "RawTrace \<Rightarrow> (RawTrace \<Rightarrow> bool) \<Rightarrow> RawTrace list" where
  "walk_trace (RawTrace f cs) predicate =
     (if predicate (RawTrace f cs) then [RawTrace f cs] else []) @
     concat (map (\<lambda>child. walk_trace child predicate) cs)"

section \<open>Successful token transfers\<close>

definition param_str :: "pydict \<Rightarrow> string \<Rightarrow> string" where
  "param_str params k = lower (py_str (dict_get_or params k (PStr '''')))"

definition transfer_amount :: "pydict \<Rightarrow> int res" where
  "transfer_amount params = py_int (dict_get_or params ''amount'' (dict_get_or params ''value'' (PInt 0)))"

definition is_token_transfer :: "string \<Rightarrow> DecodedCall \<Rightarrow> bool" where
  "is_token_transfer target_token call =
     (map_option lower (dc_contract_address call) = Some target_token
      \<and> (dc_method_name call \<in> {''transfer'', ''transferFrom''}
         \<or> dc_method_selector call \<in> {ERC20_TRANSFER_SELECTOR, ERC20_TRANSFER_FROM_SELECTOR}))"

definition call_in_effect :: "(string \<times> Receipt) list \<Rightarrow> DecodedCall \<Rightarrow> bool" where
  "call_in_effect receipts_by_tx call =
     (dc_success call \<and> dc_parent_success call \<and>
      (case map_of receipts_by_tx (lower (dc_tx_hash call)) of
         None \<Rightarrow> False | Some receipt \<Rightarrow> rc_status receipt = 1))"

definition token_call_of :: "string \<Rightarrow> DecodedCall \<Rightarrow> TraceTokenCall res" where
  "token_call_of target_token call =
     rbind (transfer_amount (dc_params call)) (\<lambda>amount. Inr
       \<lparr>tt_raw_trace_call_id = dc_raw_trace_call_id call, tt_chain_id = dc_chain_id call,
        tt_block_number = dc_block_number call, tt_tx_hash = dc_tx_hash call,
        tt_trace_address = dc_trace_address call, tt_token_address = target_token,
        tt_method_name = (if dc_method_selector call = ERC20_TRANSFER_SELECTOR
            \<or> dc_method_name call = ''transfer'' then ''transfer'' else ''transferFrom''),
        tt_from_addr = param_str (dc_params call) ''from'',
        tt_to_addr = param_str (dc_params call) ''to'', tt_amount = amount\<rparr>)"

fun extract_loop :: "string \<Rightarrow> (string \<times> Receipt) list \<Rightarrow> DecodedCall list \<Rightarrow> TraceTokenCall list res" where
  "extract_loop target_token receipts [] = Inr []"
| "extract_loop target_token receipts (call # rest) =
     (if \<not> is_token_transfer target_token call then extract_loop target_token receipts rest
      else if \<not> call_in_effect receipts call then extract_loop target_token receipts rest
      else rbind (token_call_of target_token call) (\<lambda>t.
           rbind (extract_loop target_token receipts rest) (\<lambda>ts. Inr (t # ts))))"

definition extract_erc20_transfer_calls :: "DecodedCall list \<Rightarrow> string \<Rightarrow> (string \<times> Receipt) list
    \<Rightarrow> TraceTokenCall list res" where
  "extract_erc20_transfer_calls decoded_calls token_address receipts_by_tx =
     extract_loop (lower token_address) receipts_by_tx decoded_calls"

section \<open>The frames in depth-first order, by path\<close>

function paths :: "RawTrace \<Rightarrow> nat list list" where
  "paths (RawTrace f cs) = [] # concat (map (\<lambda>i. map ((#) i) (if i < length cs then paths (cs ! i) else []))
     [0..<length cs])"
  by pat_completeness auto
termination
  by (relation "measure size") (auto simp: less_Suc_eq_le intro!: size_list_estimation' [OF nth_mem])

lemma paths_nodes: "set (paths t) = {p. node_at t p \<noteq> None}"
proof (induction t)
  case (RawTrace f cs)
  have "p \<in> set (paths (RawTrace f cs)) \<longleftrightarrow> node_at (RawTrace f cs) p \<noteq> None" for p
  proof (cases p)
    case (Cons i q)
    have "p \<in> set (paths (RawTrace f cs)) \<longleftrightarrow> i < length cs \<and> q \<in> set (paths (cs ! i))"
      using Cons by auto
    also have "\<dots> \<longleftrightarrow> i < length cs \<and> node_at (cs ! i) q \<noteq> None" using RawTrace nth_mem by blast
    finally show ?thesis using Cons by auto
  qed simp
  then show ?case by blast
qed

lemma distinct_paths: "distinct (paths t)"
proof (induction t)
  case (RawTrace f cs)
  have "distinct (concat (map (\<lambda>i. map ((#) i) (if i < length cs then paths (cs ! i) else []))
     [0..<n]))" if "n \<le> length cs" for n
    using that
  proof (induction n)
    case (Suc n)
    then have "distinct (paths (cs ! n))" using RawTrace.IH by simp
    then show ?case using Suc by (auto simp: distinct_map)
  qed simp
  then show ?case by auto
qed

text \<open>What one output of the walk says of one node.\<close>

definition decoded_at :: "(bool \<Rightarrow> TraceFrame \<Rightarrow> 'a res) \<Rightarrow> bool \<Rightarrow> RawTrace \<Rightarrow> nat list \<Rightarrow> 'a \<Rightarrow> bool" where
  "decoded_at dec ps t p d = (\<exists>s. node_at t p = Some s \<and> dec (ps \<and> ancestors_ok t p) (frame s) = Inr d)"

lemma decoded_at_Cons:
  "i < length cs \<Longrightarrow> decoded_at dec ps (RawTrace f cs) (i # p) d =
     decoded_at dec (ps \<and> frame_ok f) (cs ! i) p d"
  by (simp add: decoded_at_def conj_assoc)

lemma list_all2_concat:
  "list_all2 (list_all2 P) xss yss \<Longrightarrow> list_all2 P (concat xss) (concat yss)"
  by (induction rule: list_all2_induct) (auto intro: list_all2_appendI)

lemma walk_calls_paths:
  "walk_calls dec ps t = Inr ds \<Longrightarrow> list_all2 (decoded_at dec ps t) (paths t) ds"
proof (induction t arbitrary: ps ds)
  case (RawTrace f cs)
  from RawTrace.prems obtain d dss where d: "dec ps f = Inr d"
    and dss: "mapR (walk_calls dec (ps \<and> frame_ok f)) cs = Inr dss" and ds: "ds = d # concat dss"
    by (auto simp: rbind_Inr)
  from dss have l: "list_all2 (\<lambda>c es. walk_calls dec (ps \<and> frame_ok f) c = Inr es) cs dss"
    by (simp add: mapR_Inr)
  have len: "length dss = length cs" using list_all2_lengthD [OF l] by simp
  have "list_all2 (list_all2 (decoded_at dec ps (RawTrace f cs)))
      (map (\<lambda>i. map ((#) i) (if i < length cs then paths (cs ! i) else [])) [0..<length cs]) dss"
  proof (rule list_all2_all_nthI)
    fix i assume "i < length (map (\<lambda>i. map ((#) i) (if i < length cs then paths (cs ! i) else [])) [0..<length cs])"
    then have i: "i < length cs" by simp
    from list_all2_nthD [OF l i] RawTrace.IH [OF nth_mem [OF i]]
    have "list_all2 (decoded_at dec (ps \<and> frame_ok f) (cs ! i)) (paths (cs ! i)) (dss ! i)" by blast
    then have "list_all2 (decoded_at dec ps (RawTrace f cs)) (map ((#) i) (paths (cs ! i))) (dss ! i)"
      by (simp add: list_all2_map1 decoded_at_Cons [OF i])
    then show "list_all2 (decoded_at dec ps (RawTrace f cs))
      (map (\<lambda>i. map ((#) i) (if i < length cs then paths (cs ! i) else [])) [0..<length cs] ! i) (dss ! i)"
      using i by simp
  qed (simp add: len)
  moreover have "decoded_at dec ps (RawTrace f cs) [] d" using d by (simp add: decoded_at_def)
  ultimately show ?case unfolding ds by (simp add: list_all2_concat)
qed

lemma decode_frame_fields:
  assumes "decode_frame keccak dec reg ps f = Inr d"
  shows "dc_trace_address d = tf_trace_address f \<and> dc_tx_hash d = lower (tf_tx_hash f)
    \<and> dc_success d = frame_ok f \<and> dc_parent_success d = ps
    \<and> dc_raw_trace_call_id d = compute_raw_trace_call_id (tf_tx_hash f) (tf_trace_address f)
    \<and> dc_contract_address d = (case tf_to_addr f of None \<Rightarrow> None
        | Some a \<Rightarrow> if a = '''' then None else Some (lower a))
    \<and> dc_method_selector d = extract_method_selector (input_or_0x f)"
  using assms unfolding decode_frame_def by (auto elim!: rbind_InrE)

lemma extract_loop_filter:
  "extract_loop tok receipts ds =
     mapR (token_call_of tok) (filter (\<lambda>c. is_token_transfer tok c \<and> call_in_effect receipts c) ds)"
  by (induction ds) simp_all

lemma token_call_of_fields:
  "token_call_of tok d = Inr c \<Longrightarrow> tt_trace_address c = dc_trace_address d \<and> tt_tx_hash c = dc_tx_hash d
    \<and> tt_token_address c = tok \<and> tt_raw_trace_call_id c = dc_raw_trace_call_id d"
  by (auto simp: token_call_of_def rbind_Inr)

section \<open>Properties\<close>

text \<open>C21: decoding the call tree visits every node exactly once, in depth-first order, and records
  for each its address, whether it succeeded itself, and whether every strict ancestor succeeded.\<close>

theorem decode_trace_calls_preorder:
  assumes "decode_trace_calls keccak dec t reg = Inr ds"
  shows "distinct (paths t) \<and> set (paths t) = {p. node_at t p \<noteq> None} \<and>
    list_all2 (\<lambda>p d. \<exists>s. node_at t p = Some s \<and> dc_trace_address d = tf_trace_address (frame s)
      \<and> dc_success d = frame_ok (frame s) \<and> dc_parent_success d = ancestors_ok t p) (paths t) ds"
proof -
  from assms have "list_all2 (decoded_at (decode_frame keccak dec reg) True t) (paths t) ds"
    unfolding decode_trace_calls_def by (rule walk_calls_paths)
  then have "list_all2 (\<lambda>p d. \<exists>s. node_at t p = Some s \<and> dc_trace_address d = tf_trace_address (frame s)
      \<and> dc_success d = frame_ok (frame s) \<and> dc_parent_success d = ancestors_ok t p) (paths t) ds"
    by (rule list_all2_mono) (auto simp: decoded_at_def dest: decode_frame_fields)
  then show ?thesis by (simp add: distinct_paths paths_nodes)
qed

text \<open>C3: no transfer is taken from a call whose effects were rolled back: each extracted transfer
  is a node of the call tree on the asked token that succeeded, all of whose ancestors succeeded,
  in a transaction whose receipt has status 1.\<close>

theorem extracted_transfers_in_effect:
  assumes "decode_trace_calls keccak dec t reg = Inr ds"
    and "extract_erc20_transfer_calls ds token receipts = Inr out" and "c \<in> set out"
  shows "\<exists>p s a r. node_at t p = Some s \<and> frame_ok (frame s) \<and> ancestors_ok t p
    \<and> tf_to_addr (frame s) = Some a \<and> lower a = lower token \<and> tt_token_address c = lower token
    \<and> tt_trace_address c = tf_trace_address (frame s)
    \<and> map_of receipts (lower (tf_tx_hash (frame s))) = Some r \<and> rc_status r = 1"
proof -
  from assms(2) have "list_all2 (\<lambda>d c. token_call_of (lower token) d = Inr c)
      (filter (\<lambda>c. is_token_transfer (lower token) c \<and> call_in_effect receipts c) ds) out"
    by (simp add: extract_erc20_transfer_calls_def extract_loop_filter mapR_Inr)
  from list_all2_set2 [OF this assms(3)] obtain d where d: "d \<in> set ds"
    "is_token_transfer (lower token) d" "call_in_effect receipts d" "token_call_of (lower token) d = Inr c"
    by auto
  from assms(1) have "list_all2 (decoded_at (decode_frame keccak dec reg) True t) (paths t) ds"
    unfolding decode_trace_calls_def by (rule walk_calls_paths)
  from list_all2_set2 [OF this d(1)] obtain p s where s: "node_at t p = Some s"
    "decode_frame keccak dec reg (ancestors_ok t p) (frame s) = Inr d"
    by (auto simp: decoded_at_def)
  note f = decode_frame_fields [OF s(2)] token_call_of_fields [OF d(4)]
  obtain r where r: "frame_ok (frame s)" "ancestors_ok t p"
    "map_of receipts (lower (tf_tx_hash (frame s))) = Some r" "rc_status r = 1"
    using d(3) f by (auto simp: call_in_effect_def split: option.splits)
  obtain a where "tf_to_addr (frame s) = Some a" "lower a = lower token"
    using d(2) f by (auto simp: is_token_transfer_def split: option.splits if_splits)
  then show ?thesis using s(1) r f by auto
qed

text \<open>C22: and none is missed: the extraction is one transfer, in order, for each decoded call that
  targets the token under a transfer name or a transfer selector and whose effects stand. (The
  docstring asks for the name and the selector; a comment in the code, and the code, accept either.)\<close>

theorem extraction_complete:
  assumes "extract_erc20_transfer_calls ds token receipts = Inr out"
  shows "list_all2 (\<lambda>d c. tt_raw_trace_call_id c = dc_raw_trace_call_id d
      \<and> tt_trace_address c = dc_trace_address d \<and> transfer_amount (dc_params d) = Inr (tt_amount c)
      \<and> tt_from_addr c = param_str (dc_params d) ''from'' \<and> tt_to_addr c = param_str (dc_params d) ''to'')
    (filter (\<lambda>d. map_option lower (dc_contract_address d) = Some (lower token)
       \<and> (dc_method_name d \<in> {''transfer'', ''transferFrom''}
          \<or> dc_method_selector d \<in> {''0xa9059cbb'', ''0x23b872dd''})
       \<and> dc_success d \<and> dc_parent_success d
       \<and> (\<exists>r. map_of receipts (lower (dc_tx_hash d)) = Some r \<and> rc_status r = 1)) ds) out"
proof -
  have q: "(is_token_transfer (lower token) d \<and> call_in_effect receipts d) =
      (map_option lower (dc_contract_address d) = Some (lower token)
       \<and> (dc_method_name d \<in> {''transfer'', ''transferFrom''}
          \<or> dc_method_selector d \<in> {''0xa9059cbb'', ''0x23b872dd''})
       \<and> dc_success d \<and> dc_parent_success d
       \<and> (\<exists>r. map_of receipts (lower (dc_tx_hash d)) = Some r \<and> rc_status r = 1))" for d
    unfolding is_token_transfer_def call_in_effect_def ERC20_TRANSFER_SELECTOR_def
      ERC20_TRANSFER_FROM_SELECTOR_def
    by (cases "map_of receipts (lower (dc_tx_hash d))") simp_all
  from assms have "list_all2 (\<lambda>d c. token_call_of (lower token) d = Inr c)
      (filter (\<lambda>c. is_token_transfer (lower token) c \<and> call_in_effect receipts c) ds) out"
    by (simp add: extract_erc20_transfer_calls_def extract_loop_filter mapR_Inr)
  then show ?thesis
    unfolding q by (rule list_all2_mono) (auto simp: token_call_of_def rbind_Inr)
qed

section \<open>A transfer below a reverted call\<close>

text \<open>The root calls the token and a contract that reverts; below the reverted contract stands a
  second transfer, which is not in effect.\<close>

definition call_frame :: "int list \<Rightarrow> string \<Rightarrow> string \<Rightarrow> string option \<Rightarrow> TraceFrame" where
  "call_frame a to inp err = (sample_frame a)\<lparr>tf_to_addr := Some to, tf_input_data := inp, tf_error := err\<rparr>"

definition transfer_input :: string where
  "transfer_input = ''0xa9059cbb'' @ replicate 128 (CHR ''0'')"

definition reverted_tree :: RawTrace where
  "reverted_tree = RawTrace (call_frame [] ''0xc0'' ''0x'' None)
     [RawTrace (call_frame [0] ''0x70'' transfer_input None) [],
      RawTrace (call_frame [1] ''0xc1'' ''0x'' (Some ''out of gas''))
        [RawTrace (call_frame [1, 0] ''0x70'' transfer_input None) []]]"

definition transfer_decode :: "string list \<Rightarrow> byte list \<Rightarrow> pyval list res" where
  "transfer_decode tys bs = Inr [PStr ''0xB'', PInt 5]"

definition sample_receipts :: "(string \<times> Receipt) list" where
  "sample_receipts = [(''0xaa'', \<lparr>rc_chain_id = 1, rc_block_number = 0, rc_block_hash = ''0x0b'',
     rc_tx_hash = ''0xaa'', rc_tx_index = 0, rc_status = 1, rc_gas_used = 0, rc_effective_gas_price = None,
     rc_cumulative_gas_used = 0, rc_contract_address = None, rc_logs_count = 0\<rparr>)]"

definition frame_call :: "int list \<Rightarrow> string \<Rightarrow> bool \<Rightarrow> bool \<Rightarrow> bool \<Rightarrow> DecodedCall" where
  "frame_call a to is_transfer ok parents = \<lparr>dc_raw_trace_call_id = compute_raw_trace_call_id ''0xaa'' a,
     dc_chain_id = 1, dc_block_number = 0, dc_tx_hash = ''0xaa'', dc_trace_address = a,
     dc_contract_address = Some to,
     dc_method_name = (if is_transfer then ''transfer'' else ''<unknown>''),
     dc_method_selector = (if is_transfer then ''0xa9059cbb'' else ''0x''),
     dc_params = (if is_transfer then [(''to'', PStr ''0xb''), (''amount'', PInt 5)] else []),
     dc_success = ok, dc_parent_success = parents\<rparr>"

lemma transfer_input_decodes:
  "extract_method_selector transfer_input = ''0xa9059cbb''" "transfer_input \<noteq> []"
  "decode_erc20_transfer_calldata transfer_decode transfer_input =
     Inr (Some \<lparr>ec_method = ''transfer'', ec_from = None, ec_to = ''0xb'', ec_amount = 5\<rparr>)"
  "extract_method_selector ''0x'' = ''0x''"
  "decode_erc20_transfer_calldata transfer_decode ''0x'' = Inr None"
  "lower ''0xaa'' = ''0xaa''" "lower ''0x70'' = ''0x70''" "lower ''0xc0'' = ''0xc0''" "lower ''0xc1'' = ''0xc1''"
  by code_simp+

lemma reverted_tree_decodes:
  "decode_trace_calls (\<lambda>_. []) transfer_decode reverted_tree [] = Inr
     [frame_call [] ''0xc0'' False True True, frame_call [0] ''0x70'' True True True,
      frame_call [1] ''0xc1'' False False True, frame_call [1, 0] ''0x70'' True True False]"
  by (simp add: decode_trace_calls_def reverted_tree_def decode_frame_def registry_call_def call_frame_def
    sample_frame_def registry_get_def Let_def swallow_key_error_def input_or_0x_def transfer_input_decodes
    frame_call_def frame_ok_def erc20_params_def)

lemma reverted_tree_extracts:
  "extract_erc20_transfer_calls [frame_call [] ''0xc0'' False True True, frame_call [0] ''0x70'' True True True,
      frame_call [1] ''0xc1'' False False True, frame_call [1, 0] ''0x70'' True True False]
     ''0x70'' sample_receipts = rbind (token_call_of ''0x70'' (frame_call [0] ''0x70'' True True True))
       (\<lambda>c. Inr [c])"
  by (simp add: extract_erc20_transfer_calls_def is_token_transfer_def call_in_effect_def frame_call_def
    transfer_input_decodes sample_receipts_def ERC20_TRANSFER_SELECTOR_def ERC20_TRANSFER_FROM_SELECTOR_def)

lemma reverted_tree_token_call:
  "\<exists>c. token_call_of ''0x70'' (frame_call [0] ''0x70'' True True True) = Inr c"
  by (simp add: token_call_of_def transfer_amount_def dict_get_or_def frame_call_def)

theorem decode_trace_calls_preorder_witness:
  "paths reverted_tree = [[], [0], [1], [1, 0]] \<and> distinct (paths reverted_tree)"
  using decode_trace_calls_preorder [OF reverted_tree_decodes]
  by (simp add: reverted_tree_def upt_rec)

theorem extracted_transfers_in_effect_witness:
  "\<exists>c p s. token_call_of ''0x70'' (frame_call [0] ''0x70'' True True True) = Inr c \<and>
     node_at reverted_tree p = Some s \<and> ancestors_ok reverted_tree p \<and>
     tt_trace_address c = tf_trace_address (frame s)"
proof -
  obtain c where c: "token_call_of ''0x70'' (frame_call [0] ''0x70'' True True True) = Inr c"
    using reverted_tree_token_call by blast
  from reverted_tree_extracts c
  have "extract_erc20_transfer_calls [frame_call [] ''0xc0'' False True True,
      frame_call [0] ''0x70'' True True True, frame_call [1] ''0xc1'' False False True,
      frame_call [1, 0] ''0x70'' True True False] ''0x70'' sample_receipts = Inr [c]" by simp
  from extracted_transfers_in_effect [OF reverted_tree_decodes this, of c] c show ?thesis by auto
qed

theorem extraction_complete_witness:
  "\<exists>out. extract_erc20_transfer_calls [frame_call [] ''0xc0'' False True True,
      frame_call [0] ''0x70'' True True True, frame_call [1] ''0xc1'' False False True,
      frame_call [1, 0] ''0x70'' True True False] ''0x70'' sample_receipts = Inr out \<and> length out = 1"
proof -
  obtain c where c: "token_call_of ''0x70'' (frame_call [0] ''0x70'' True True True) = Inr c"
    using reverted_tree_token_call by blast
  from reverted_tree_extracts c
  have e: "extract_erc20_transfer_calls [frame_call [] ''0xc0'' False True True,
      frame_call [0] ''0x70'' True True True, frame_call [1] ''0xc1'' False False True,
      frame_call [1, 0] ''0x70'' True True False] ''0x70'' sample_receipts = Inr [c]" by simp
  from list_all2_lengthD [OF extraction_complete [OF e]] e show ?thesis by simp
qed

end
