(* ===== verification/Movement_Builder.thy ===== *)
theory Movement_Builder
  imports Trace_Decoder
begin

text \<open>
  \<open>reconciliation/movement_builder.py\<close>: token movements from transfer logs and from trace calls,
  and their unification into one canonical record per movement. The dictionaries \<open>by_id\<close> and
  \<open>bucket\<close> of \<open>unify_movements\<close> are association lists in insertion order.
\<close>

record TokenMovement =
  tm_movement_id :: string
  tm_chain_id :: int
  tm_block_number :: int
  tm_tx_hash :: string
  tm_token_address :: string
  tm_from_addr :: string
  tm_to_addr :: string
  tm_amount :: int
  tm_evidence_ids :: "string list"
  tm_source_priority :: string
  tm_is_canonical :: bool

type_synonym movement_key = "int \<times> string \<times> string \<times> string \<times> int \<times> int"

fun movement_fields :: "movement_key \<Rightarrow> string list" where
  "movement_fields (chain_id, tx_hash, from_addr, to_addr, amount, occurrence_index) =
     [show_int chain_id, lower tx_hash, lower from_addr, lower to_addr, show_int amount,
      show_int occurrence_index]"

definition compute_movement_id :: "movement_key \<Rightarrow> string" where
  "compute_movement_id k = sha256_hex (canonical_key ''movement'' (movement_fields k))"

interpretation movement_id: hashed_id compute_movement_id "''movement''" movement_fields
  by unfold_locales (simp_all add: compute_movement_id_def)

definition trace_address_to_index :: "int list \<Rightarrow> int res" where
  "trace_address_to_index trace_address = foldR (\<lambda>component n.
     if component < 0 then value_error ''trace_address components must be non-negative''
     else Inr (push_bit 16 n OR (component AND 0xFFFF))) trace_address 0"

section \<open>Building movements\<close>

definition transfer_event_movement :: "DecodedEvent \<Rightarrow> TokenMovement res" where
  "transfer_event_movement ev =
     (let ip = de_indexed_params ev; dp = de_data_params ev;
          from_addr = lower (py_str (dict_get_or ip ''from'' (dict_get_or ip ''_from'' (PStr ''''))));
          to_addr = lower (py_str (dict_get_or ip ''to'' (dict_get_or ip ''_to'' (PStr ''''))));
          amount_raw = dict_get_or dp ''value'' (dict_get_or dp ''_value''
            (dict_get_or dp ''amount'' (PInt 0))) in
      rbind (py_int amount_raw) (\<lambda>amount. Inr
        \<lparr>tm_movement_id = compute_movement_id
           (de_chain_id ev, de_tx_hash ev, from_addr, to_addr, amount, de_log_index ev),
         tm_chain_id = de_chain_id ev, tm_block_number = de_block_number ev,
         tm_tx_hash = lower (de_tx_hash ev), tm_token_address = lower (de_contract_address ev),
         tm_from_addr = from_addr, tm_to_addr = to_addr, tm_amount = amount,
         tm_evidence_ids = [de_raw_log_id ev], tm_source_priority = ''log'', tm_is_canonical = True\<rparr>))"

definition build_movements_from_transfer_logs :: "DecodedEvent list \<Rightarrow> TokenMovement list res" where
  "build_movements_from_transfer_logs link_transfer_events =
     mapR transfer_event_movement
       (filter (\<lambda>ev. lower (de_event_signature ev) = ERC20_TRANSFER_TOPIC0) link_transfer_events)"

definition trace_call_movement :: "TraceTokenCall \<Rightarrow> TokenMovement res" where
  "trace_call_movement call =
     (let from_addr = lower (tt_from_addr call); to_addr = lower (tt_to_addr call); amount = tt_amount call in
      rbind (trace_address_to_index (tt_trace_address call)) (\<lambda>occ. Inr
        \<lparr>tm_movement_id = compute_movement_id
           (tt_chain_id call, tt_tx_hash call, from_addr, to_addr, amount, occ),
         tm_chain_id = tt_chain_id call, tm_block_number = tt_block_number call,
         tm_tx_hash = lower (tt_tx_hash call), tm_token_address = lower (tt_token_address call),
         tm_from_addr = from_addr, tm_to_addr = to_addr, tm_amount = amount,
         tm_evidence_ids = [tt_raw_trace_call_id call], tm_source_priority = ''trace'',
         tm_is_canonical = True\<rparr>))"

definition build_movements_from_trace_calls :: "TraceTokenCall list \<Rightarrow> TokenMovement list res" where
  "build_movements_from_trace_calls trace_token_calls = mapR trace_call_movement trace_token_calls"

section \<open>Unification\<close>

definition merge_evidence :: "string list \<Rightarrow> string list \<Rightarrow> string list" where
  "merge_evidence existing extra =
     fold (\<lambda>ev_id acc. if ev_id \<noteq> '''' \<and> ev_id \<notin> set acc then acc @ [ev_id] else acc) extra existing"

definition absorb_evidence :: "TokenMovement \<Rightarrow> TokenMovement \<Rightarrow> TokenMovement" where
  "absorb_evidence existing tm =
     existing\<lparr>tm_evidence_ids := merge_evidence (tm_evidence_ids existing) (tm_evidence_ids tm),
       tm_source_priority := ''log'', tm_is_canonical := True\<rparr>"

definition index_logs :: "TokenMovement list \<Rightarrow> (string \<times> TokenMovement) list" where
  "index_logs log_movements = fold (\<lambda>m. AList.update (tm_movement_id m) m) log_movements []"

definition index_trace :: "TokenMovement \<Rightarrow> (string \<times> TokenMovement) list \<Rightarrow> (string \<times> TokenMovement) list" where
  "index_trace tm by_id = AList.update (tm_movement_id tm)
     (case map_of by_id (tm_movement_id tm) of
        Some existing \<Rightarrow> absorb_evidence existing tm | None \<Rightarrow> tm) by_id"

definition move_key :: "TokenMovement \<Rightarrow> string \<times> string \<times> string \<times> int" where
  "move_key m = (tm_tx_hash m, tm_from_addr m, tm_to_addr m, tm_amount m)"

definition resolve_bucket :: "TokenMovement list \<Rightarrow> TokenMovement list" where
  "resolve_bucket entries =
     (let log_entries = filter (\<lambda>e. tm_source_priority e = ''log'') entries;
          trace_entries = filter (\<lambda>e. tm_source_priority e = ''trace'') entries in
      if log_entries \<noteq> [] \<and> trace_entries \<noteq> [] \<and> length log_entries = length trace_entries
      then map (\<lambda>(l, t). absorb_evidence l t) (zip log_entries trace_entries)
      else entries)"

definition movement_rank :: "TokenMovement \<Rightarrow> int \<times> string \<times> string \<times> string" where
  "movement_rank m = (tm_block_number m, tm_tx_hash m, tm_source_priority m, tm_from_addr m)"

definition unify_movements :: "TokenMovement list \<Rightarrow> TokenMovement list \<Rightarrow> TokenMovement list" where
  "unify_movements log_movements trace_movements =
     (let by_id = fold index_trace trace_movements (index_logs log_movements);
          bucket = group_into move_key (map snd by_id) in
      sort_key movement_rank (concat (map (\<lambda>(k, entries). resolve_bucket entries) bucket)))"

section \<open>The dictionary of movements\<close>

definition by_id_ok :: "(string \<times> TokenMovement) list \<Rightarrow> bool" where
  "by_id_ok d = (distinct (map fst d) \<and> (\<forall>(k, m) \<in> set d. tm_movement_id m = k))"

lemma by_id_ok_update:
  assumes "by_id_ok d" "tm_movement_id m = k"
  shows "by_id_ok (AList.update k m d)"
proof -
  have "set (AList.update k m d) \<subseteq> insert (k, m) (set d)" by (rule set_update_subset)
  then have "\<forall>(k, m) \<in> set (AList.update k m d). tm_movement_id m = k"
    using assms unfolding by_id_ok_def by blast
  then show ?thesis using assms by (simp add: by_id_ok_def distinct_update)
qed

lemma absorb_id [simp]: "tm_movement_id (absorb_evidence l t) = tm_movement_id l"
  by (simp add: absorb_evidence_def)

lemma absorb_key [simp]: "move_key (absorb_evidence l t) = move_key l"
  by (simp add: absorb_evidence_def move_key_def)

lemma index_logs_ok: "by_id_ok (index_logs logs)"
proof -
  have "by_id_ok d \<Longrightarrow> by_id_ok (fold (\<lambda>m. AList.update (tm_movement_id m) m) logs d)" for d
    by (induction logs arbitrary: d) (simp_all add: by_id_ok_update)
  moreover have "by_id_ok []" by (simp add: by_id_ok_def)
  ultimately show ?thesis unfolding index_logs_def by blast
qed

lemma index_trace_ok: "by_id_ok d \<Longrightarrow> by_id_ok (index_trace tm d)"
  unfolding index_trace_def
  by (rule by_id_ok_update)
    (auto split: option.splits dest!: map_of_SomeD simp: by_id_ok_def)

lemma by_id_ok_fold: "by_id_ok d \<Longrightarrow> by_id_ok (fold index_trace ts d)"
  by (induction ts arbitrary: d) (simp_all add: index_trace_ok)

lemma by_id_ids: "by_id_ok d \<Longrightarrow> map tm_movement_id (map snd d) = map fst d"
  by (induction d) (auto simp: by_id_ok_def)

lemma index_fresh:
  assumes "distinct (map tm_movement_id (logs @ traces))"
  shows "fold index_trace traces (index_logs logs) = map (\<lambda>m. (tm_movement_id m, m)) (logs @ traces)"
proof -
  have l: "distinct (map fst d @ map tm_movement_id ms) \<Longrightarrow>
      fold (\<lambda>m. AList.update (tm_movement_id m) m) ms d = d @ map (\<lambda>m. (tm_movement_id m, m)) ms" for d ms
    by (induction ms arbitrary: d) (auto simp: update_new_key)
  have t: "distinct (map fst d @ map tm_movement_id ms) \<Longrightarrow>
      fold index_trace ms d = d @ map (\<lambda>m. (tm_movement_id m, m)) ms" for d ms
  proof (induction ms arbitrary: d)
    case (Cons m ms)
    then have "map_of d (tm_movement_id m) = None" by (auto simp: map_of_eq_None_iff)
    then have "index_trace m d = d @ [(tm_movement_id m, m)]"
      using Cons.prems by (simp add: index_trace_def update_new_key)
    with Cons show ?case by simp
  qed simp
  have "index_logs logs = map (\<lambda>m. (tm_movement_id m, m)) logs"
    using l [of "[]" logs] assms by (simp add: index_logs_def)
  with t [of "map (\<lambda>m. (tm_movement_id m, m)) logs" traces] assms show ?thesis by (simp add: comp_def)
qed

section \<open>Buckets\<close>

lemma resolve_ids: "mset (map tm_movement_id (resolve_bucket es)) \<subseteq># mset (map tm_movement_id es)"
proof -
  let ?L = "filter (\<lambda>e. tm_source_priority e = ''log'') es"
    and ?T = "filter (\<lambda>e. tm_source_priority e = ''trace'') es"
  have "map tm_movement_id (map (\<lambda>(l, t). absorb_evidence l t) (zip ls ts)) = map tm_movement_id ls"
    if "length ls = length ts" for ls ts
    using that by (induction ls ts rule: list_induct2) simp_all
  moreover have "mset (map tm_movement_id ?L) \<subseteq># mset (map tm_movement_id es)"
    by (simp add: image_mset_subseteq_mono)
  ultimately show ?thesis by (auto simp: resolve_bucket_def Let_def simp del: mset_map)
qed

lemma resolve_keys:
  assumes "\<forall>m \<in> set es. move_key m = k" "m \<in> set (resolve_bucket es)"
  shows "move_key m = k"
  using assms by (auto simp: resolve_bucket_def Let_def dest!: set_zip_leftD split: if_splits)

lemma resolve_length:
  assumes "\<forall>m \<in> set ls. tm_source_priority m = ''log''" "\<forall>m \<in> set ts. tm_source_priority m = ''trace''"
  shows "length (resolve_bucket (ls @ ts)) =
    (if length ls = length ts then length ls else length ls + length ts)"
proof -
  have "filter (\<lambda>e. tm_source_priority e = ''log'') (ls @ ts) = ls"
    "filter (\<lambda>e. tm_source_priority e = ''trace'') (ls @ ts) = ts"
    using assms by (simp_all add: filter_id_conv filter_empty_conv)
  then show ?thesis by (auto simp: resolve_bucket_def Let_def)
qed

lemma filter_concat_keys:
  assumes "distinct ks" "\<And>k m. m \<in> set (g k) \<Longrightarrow> key m = k"
  shows "filter (\<lambda>m. key m = k) (concat (map g ks)) = (if k \<in> set ks then g k else [])"
  using assms(1)
proof (induction ks)
  case (Cons k' ks)
  have "filter (\<lambda>m. key m = k) (g k') = (if k' = k then g k else [])"
    using assms(2) [of _ k'] by (auto simp: filter_id_conv filter_empty_conv)
  with Cons show ?case by auto
qed simp

lemma length_filter_mset: "mset xs = mset ys \<Longrightarrow> length (filter P xs) = length (filter P ys)"
  by (metis mset_filter size_mset)

lemma submset_distinct:
  assumes "mset xs \<subseteq># mset ys" "distinct ys"
  shows "distinct xs"
proof -
  obtain M where "mset ys = mset xs + M" using assms(1) by (auto simp: mset_subset_eq_exists_conv)
  moreover obtain zs where "mset zs = M" using ex_mset by blast
  ultimately have "mset ys = mset (xs @ zs)" by simp
  then show ?thesis using assms(2) mset_eq_imp_distinct_iff [of ys "xs @ zs"] by simp
qed

section \<open>Evidence\<close>

definition evidence :: "TokenMovement list \<Rightarrow> string set" where
  "evidence ms = (\<Union>m \<in> set ms. set (tm_evidence_ids m)) - {''''}"

lemma merge_evidence_set: "set (merge_evidence old new) - {''''} = set old \<union> set new - {''''}"
proof -
  have "set (fold (\<lambda>ev_id acc. if ev_id \<noteq> '''' \<and> ev_id \<notin> set acc then acc @ [ev_id] else acc) new old) =
      set old \<union> (set new - {''''})"
    by (induction new arbitrary: old) auto
  then show ?thesis by (auto simp: merge_evidence_def)
qed

lemma evidence_append [simp]: "evidence (xs @ ys) = evidence xs \<union> evidence ys"
  by (auto simp: evidence_def)

lemma evidence_simps [simp]:
  "evidence [] = {}" "evidence (m # ms) = (set (tm_evidence_ids m) - {''''}) \<union> evidence ms"
  by (auto simp: evidence_def)

lemma evidence_mset: "mset xs = mset ys \<Longrightarrow> evidence xs = evidence ys"
  unfolding evidence_def by (drule mset_eq_setD) simp

lemma evidence_concat: "evidence (concat xss) = (\<Union>xs \<in> set xss. evidence xs)"
  by (induction xss) simp_all

lemma evidence_absorb [simp]:
  "set (tm_evidence_ids (absorb_evidence l t)) - {''''} = evidence [l] \<union> evidence [t]"
  using merge_evidence_set [of "tm_evidence_ids l" "tm_evidence_ids t"]
  by (simp add: absorb_evidence_def) blast

lemma evidence_update_None:
  "map_of d k = None \<Longrightarrow> evidence (map snd (AList.update k m d)) = evidence (map snd d) \<union> evidence [m]"
  by (simp add: update_new_key map_of_eq_None_iff)

lemma evidence_update_absorb:
  "map_of d k = Some e \<Longrightarrow> evidence (map snd (AList.update k (absorb_evidence e m) d)) =
     evidence (map snd d) \<union> evidence [m]"
  by (induction d) (auto split: if_splits)

lemma evidence_index_trace: "evidence (map snd (index_trace m d)) = evidence (map snd d) \<union> evidence [m]"
  by (cases "map_of d (tm_movement_id m)")
    (simp_all add: index_trace_def evidence_update_None evidence_update_absorb)

lemma evidence_by_id:
  assumes "distinct (map tm_movement_id logs)"
  shows "evidence (map snd (fold index_trace traces (index_logs logs))) = evidence (logs @ traces)"
proof -
  have "evidence (map snd (fold index_trace ms d)) = evidence (map snd d) \<union> evidence ms" for ms d
  proof (induction ms arbitrary: d)
    case (Cons m ms)
    then show ?case using evidence_index_trace [of m d] by auto
  qed simp
  moreover have "map snd (index_logs logs) = logs"
    using index_fresh [of logs "[]"] assms by (simp add: comp_def)
  ultimately show ?thesis by simp
qed

lemma evidence_zip:
  "length ls = length ts \<Longrightarrow> evidence (map (\<lambda>(l, t). absorb_evidence l t) (zip ls ts)) = evidence (ls @ ts)"
  by (induction ls ts rule: list_induct2) auto

definition known_source :: "TokenMovement \<Rightarrow> bool" where
  "known_source m = (tm_source_priority m = ''log'' \<or> tm_source_priority m = ''trace'')"

lemma evidence_resolve:
  assumes "\<forall>m \<in> set es. known_source m"
  shows "evidence (resolve_bucket es) = evidence es"
proof -
  let ?L = "filter (\<lambda>e. tm_source_priority e = ''log'') es"
    and ?T = "filter (\<lambda>e. tm_source_priority e = ''trace'') es"
  have "evidence (?L @ ?T) = evidence es" using assms by (auto simp: evidence_def known_source_def)
  then show ?thesis using evidence_zip [of ?L ?T] by (auto simp: resolve_bucket_def Let_def)
qed

lemma known_update:
  assumes "\<forall>e \<in> set d. known_source (snd e)" "known_source m"
  shows "\<forall>e \<in> set (AList.update k m d). known_source (snd e)"
proof
  fix e assume "e \<in> set (AList.update k m d)"
  then have "e \<in> insert (k, m) (set d)" using set_update_subset by (rule subsetD [rotated])
  then show "known_source (snd e)" using assms by auto
qed

lemma known_absorb [simp]: "known_source (absorb_evidence e m)"
  by (simp add: known_source_def absorb_evidence_def)

lemma sources_by_id:
  assumes "\<forall>m \<in> set (logs @ traces). known_source m"
  shows "\<forall>e \<in> set (fold index_trace traces (index_logs logs)). known_source (snd e)"
proof -
  let ?ok = "\<lambda>d :: (string \<times> TokenMovement) list. \<forall>e \<in> set d. known_source (snd e)"
  have l: "?ok (fold (\<lambda>m. AList.update (tm_movement_id m) m) ms d)"
    if "?ok d" "\<forall>m \<in> set ms. known_source m" for ms d
    using that
  proof (induction ms arbitrary: d)
    case (Cons m ms)
    have "?ok (AList.update (tm_movement_id m) m d)" by (rule known_update) (use Cons.prems in simp_all)
    with Cons show ?case by simp
  qed simp
  have t: "?ok (fold index_trace ms d)" if "?ok d" "\<forall>m \<in> set ms. known_source m" for ms d
    using that
  proof (induction ms arbitrary: d)
    case (Cons m ms)
    have "?ok (index_trace m d)"
      unfolding index_trace_def
      by (rule known_update) (use Cons.prems in \<open>simp_all split: option.splits\<close>)
    with Cons show ?case by simp
  qed simp
  show ?thesis unfolding index_logs_def by (intro t l) (use assms in simp_all)
qed

section \<open>Properties\<close>

lemma unify_groups:
  obtains ks where "distinct ks"
    "set ks = move_key ` set (map snd (fold index_trace traces (index_logs logs)))"
    "unify_movements logs traces = sort_key movement_rank (concat (map (\<lambda>k. resolve_bucket
       (filter (\<lambda>m. move_key m = k) (map snd (fold index_trace traces (index_logs logs))))) ks))"
proof -
  obtain ks where "distinct ks"
    "set ks = move_key ` set (map snd (fold index_trace traces (index_logs logs)))"
    "group_into move_key (map snd (fold index_trace traces (index_logs logs))) =
       map (\<lambda>k. (k, filter (\<lambda>x. move_key x = k) (map snd (fold index_trace traces (index_logs logs))))) ks"
    by (rule group_intoE)
  with that show ?thesis by (simp add: unify_movements_def Let_def comp_def)
qed

text \<open>What the dictionary keeps: one record per log, and the trace movements with an identifier of their own.\<close>

definition movement_sig :: "TokenMovement \<Rightarrow> string \<times> (string \<times> string \<times> string \<times> int) \<times> string" where
  "movement_sig m = (tm_movement_id m, move_key m, tm_source_priority m)"

lemma absorb_sig: "tm_source_priority e = ''log'' \<Longrightarrow> movement_sig (absorb_evidence e t) = movement_sig e"
  by (simp add: movement_sig_def absorb_evidence_def move_key_def)

lemma update_append_left: "k \<in> set (map fst d) \<Longrightarrow> AList.update k v (d @ d') = AList.update k v d @ d'"
  by (induction d) auto

lemma update_append_new: "k \<notin> set (map fst d) \<Longrightarrow> AList.update k v d = d @ [(k, v)]"
  by (induction d) auto

lemma update_values: "map_of d k = Some w \<Longrightarrow> g v = g w \<Longrightarrow> map g (map snd (AList.update k v d)) = map g (map snd d)"
  by (induction d) (auto split: if_splits)

lemma index_split:
  assumes "distinct (map tm_movement_id logs)" "\<forall>m \<in> set logs. tm_source_priority m = ''log''"
    and "distinct (map tm_movement_id traces)"
  shows "\<exists>d. fold index_trace traces (index_logs logs) =
      d @ map (\<lambda>m. (tm_movement_id m, m)) (filter (\<lambda>t. tm_movement_id t \<notin> tm_movement_id ` set logs) traces)
    \<and> map fst d = map tm_movement_id logs \<and> map movement_sig (map snd d) = map movement_sig logs"
  using assms(3)
proof (induction traces rule: rev_induct)
  case Nil
  have "index_logs logs = map (\<lambda>m. (tm_movement_id m, m)) logs"
    using index_fresh [of logs "[]"] assms(1) by simp
  then show ?case by (simp add: comp_def)
next
  case (snoc t ts)
  let ?own = "\<lambda>t. tm_movement_id t \<notin> tm_movement_id ` set logs"
  let ?f = "map (\<lambda>m. (tm_movement_id m, m)) (filter ?own ts)"
  obtain d where d: "fold index_trace ts (index_logs logs) = d @ ?f"
    "map fst d = map tm_movement_id logs" "map movement_sig (map snd d) = map movement_sig logs"
    using snoc by auto
  have keys: "set (map fst d) = tm_movement_id ` set logs" using d(2) by simp
  have new: "tm_movement_id t \<notin> set (map fst ?f)" using snoc.prems by auto
  show ?case
  proof (cases "?own t")
    case True
    then have absent: "tm_movement_id t \<notin> set (map fst (d @ ?f))" using keys new by simp
    then have none: "map_of (d @ ?f) (tm_movement_id t) = None" by (simp only: map_of_eq_None_iff set_map) simp
    have "index_trace t (d @ ?f) = (d @ ?f) @ [(tm_movement_id t, t)]"
      unfolding index_trace_def none option.case by (rule update_append_new [OF absent])
    then show ?thesis using True d by (intro exI [of _ d]) simp
  next
    case False
    then have k: "tm_movement_id t \<in> set (map fst d)" using keys by simp
    then obtain e where e: "map_of d (tm_movement_id t) = Some e"
      by (metis map_of_eq_None_iff not_None_eq list.set_map)
    have "map movement_sig (map snd d) = map movement_sig logs" by (rule d(3))
    moreover have "e \<in> set (map snd d)" using map_of_SomeD [OF e] by force
    ultimately have "movement_sig e \<in> movement_sig ` set logs" by (metis image_eqI list.set_map)
    then have "tm_source_priority e = ''log''" using assms(2) by (auto simp: movement_sig_def)
    then have sig: "movement_sig (absorb_evidence e t) = movement_sig e" by (rule absorb_sig)
    have "index_trace t (d @ ?f) = AList.update (tm_movement_id t) (absorb_evidence e t) d @ ?f"
      unfolding index_trace_def by (simp add: e map_of_append update_append_left [OF k] del: map_append)
    then show ?thesis using False d(1,2,3) k update_values [of d, OF e, where g = movement_sig, OF sig]
      by (intro exI [of _ "AList.update (tm_movement_id t) (absorb_evidence e t) d"]) (simp add: update_keys)
  qed
qed

lemma sig_count:
  assumes "map movement_sig ls = map movement_sig logs"
  shows "length (filter (\<lambda>m. move_key m = k) ls) = length (filter (\<lambda>m. move_key m = k) logs)"
proof -
  have keys: "length (filter (\<lambda>m. move_key m = k) ms) = length (filter (\<lambda>s. fst (snd s) = k) (map movement_sig ms))" for ms
    by (simp add: filter_map comp_def movement_sig_def)
  show ?thesis unfolding keys assms ..
qed

text \<open>C13: how many movements unification reports, when the logs have distinct identifiers and so have
  the traces: for every transaction, sender, recipient and amount, when the logs and the traces saw it
  equally often each pair counts once; otherwise every observation of either source is kept. A trace
  call that has the identifier of a log (its packed address equals the index of the log) is taken for
  the same observation, and does not count as one of the traces.\<close>

theorem unify_counts:
  assumes "distinct (map tm_movement_id logs)" "distinct (map tm_movement_id traces)"
    and "\<forall>m \<in> set logs. tm_source_priority m = ''log''"
    and "\<forall>m \<in> set traces. tm_source_priority m = ''trace''"
  shows "length (filter (\<lambda>m. move_key m = k) (unify_movements logs traces)) =
    (let n_logs = length (filter (\<lambda>m. move_key m = k) logs);
         n_traces = length (filter (\<lambda>m. move_key m = k \<and> tm_movement_id m \<notin> tm_movement_id ` set logs) traces)
     in if n_logs = n_traces then n_logs else n_logs + n_traces)"
proof -
  let ?all = "map snd (fold index_trace traces (index_logs logs))"
  let ?own = "filter (\<lambda>t. tm_movement_id t \<notin> tm_movement_id ` set logs) traces"
  let ?g = "\<lambda>k. resolve_bucket (filter (\<lambda>m. move_key m = k) ?all)"
  obtain ls where all: "?all = ls @ ?own" and sig: "map movement_sig ls = map movement_sig logs"
    using index_split [OF assms(1,3,2)] by (auto simp: comp_def)
  have "m \<in> set ls \<Longrightarrow> movement_sig m \<in> movement_sig ` set logs" for m
    using sig by (metis image_eqI list.set_map)
  then have src: "\<forall>m \<in> set ls. tm_source_priority m = ''log''"
    using assms(3) by (fastforce simp: movement_sig_def)
  obtain ks where ks: "distinct ks" "set ks = move_key ` set ?all"
    "unify_movements logs traces = sort_key movement_rank (concat (map ?g ks))"
    by (rule unify_groups)
  have "length (filter (\<lambda>m. move_key m = k) (unify_movements logs traces)) =
      length (filter (\<lambda>m. move_key m = k) (concat (map ?g ks)))"
    unfolding ks(3) by (rule length_filter_mset) simp
  also have "filter (\<lambda>m. move_key m = k) (concat (map ?g ks)) = (if k \<in> set ks then ?g k else [])"
    by (rule filter_concat_keys [OF ks(1)]) (erule resolve_keys [rotated], simp)
  also have "length \<dots> = length (?g k)"
  proof (cases "k \<in> set ks")
    case False
    then have "filter (\<lambda>m. move_key m = k) ?all = []" using ks(2) by (auto simp: filter_empty_conv)
    with False show ?thesis by (simp add: resolve_bucket_def Let_def)
  qed simp
  also have "filter (\<lambda>m. move_key m = k) ?all =
      filter (\<lambda>m. move_key m = k) ls @ filter (\<lambda>m. move_key m = k) ?own" by (simp add: all)
  also have "length (resolve_bucket \<dots>) =
      (let n_logs = length (filter (\<lambda>m. move_key m = k) ls);
         n_traces = length (filter (\<lambda>m. move_key m = k) ?own)
       in if n_logs = n_traces then n_logs else n_logs + n_traces)"
    unfolding Let_def by (rule resolve_length) (use src assms(4) in auto)
  finally show ?thesis unfolding sig_count [OF sig] by (simp add: conj_commute)
qed

definition sample_movement :: "string \<Rightarrow> string \<Rightarrow> string \<Rightarrow> string \<Rightarrow> TokenMovement" where
  "sample_movement i src from_addr ev = \<lparr>tm_movement_id = i, tm_chain_id = 1, tm_block_number = 100,
     tm_tx_hash = ''0xaa'', tm_token_address = ''0x70'', tm_from_addr = from_addr, tm_to_addr = ''0xb'',
     tm_amount = 5, tm_evidence_ids = [ev], tm_source_priority = src, tm_is_canonical = True\<rparr>"

theorem unify_counts_witness:
  "length (filter (\<lambda>m. move_key m = (''0xaa'', ''0xf'', ''0xb'', 5))
     (unify_movements [sample_movement ''i'' ''log'' ''0xf'' ''l1''] [sample_movement ''j'' ''trace'' ''0xf'' ''t1''])) = 1"
proof -
  have "distinct (map tm_movement_id [sample_movement ''i'' ''log'' ''0xf'' ''l1''])"
    "distinct (map tm_movement_id [sample_movement ''j'' ''trace'' ''0xf'' ''t1''])" by simp_all
  from unify_counts [OF this, of "(''0xaa'', ''0xf'', ''0xb'', 5)"] show ?thesis
    by (simp add: sample_movement_def move_key_def)
qed

text \<open>C15: unification keeps the provenance: when the movements of the logs have distinct
  identifiers, the evidence of the result is exactly the evidence of the two inputs; the result
  has one record per movement identifier and is ordered by block, transaction, source and sender.\<close>

theorem unify_conserves_evidence:
  assumes "distinct (map tm_movement_id logs)"
    and "\<forall>m \<in> set (logs @ traces). tm_source_priority m = ''log'' \<or> tm_source_priority m = ''trace''"
  shows "evidence (unify_movements logs traces) = evidence (logs @ traces)
    \<and> distinct (map tm_movement_id (unify_movements logs traces))
    \<and> sorted (map movement_rank (unify_movements logs traces))"
proof -
  let ?d = "fold index_trace traces (index_logs logs)"
  let ?all = "map snd ?d"
  let ?f = "\<lambda>k. filter (\<lambda>m. move_key m = k) ?all"
  obtain ks where ks: "distinct ks" "set ks = move_key ` set ?all"
    "unify_movements logs traces = sort_key movement_rank (concat (map (\<lambda>k. resolve_bucket (?f k)) ks))"
    by (rule unify_groups)
  have src: "\<forall>e \<in> set ?d. known_source (snd e)"
    by (rule sources_by_id) (use assms(2) in \<open>simp add: known_source_def\<close>)
  have "filter (\<lambda>m. move_key m \<in> set ks) ?all = ?all" using ks(2) by (simp add: filter_id_conv)
  then have groups: "mset (concat (map ?f ks)) = mset ?all"
    unfolding mset_concat_groups [OF ks(1)] by (metis mset_filter)
  have "evidence (unify_movements logs traces) = evidence (concat (map (\<lambda>k. resolve_bucket (?f k)) ks))"
    unfolding ks(3) by (rule evidence_mset) simp
  also have "\<dots> = (\<Union>k \<in> set ks. evidence (resolve_bucket (?f k)))" by (simp add: evidence_concat)
  also have "\<dots> = (\<Union>k \<in> set ks. evidence (?f k))"
    by (rule SUP_cong [OF refl], rule evidence_resolve) (use src in auto)
  also have "\<dots> = evidence (concat (map ?f ks))" by (simp add: evidence_concat)
  also have "\<dots> = evidence (logs @ traces)"
    using evidence_mset [OF groups] evidence_by_id [OF assms(1)] by simp
  finally have ev: "evidence (unify_movements logs traces) = evidence (logs @ traces)" .
  have "mset (map tm_movement_id (concat (map (\<lambda>k. resolve_bucket (?f k)) ks))) \<subseteq>#
      mset (map tm_movement_id (concat (map ?f ks)))"
    by (induction ks) (simp_all del: mset_map add: subset_mset.add_mono resolve_ids)
  moreover have "mset (map tm_movement_id (unify_movements logs traces)) =
      mset (map tm_movement_id (concat (map (\<lambda>k. resolve_bucket (?f k)) ks)))"
    unfolding ks(3) mset_map by simp
  moreover have "mset (map tm_movement_id (concat (map ?f ks))) = mset (map tm_movement_id ?all)"
    unfolding mset_map groups ..
  moreover have "distinct (map tm_movement_id ?all)"
    using by_id_ok_fold [OF index_logs_ok, of traces logs] by_id_ids by (metis by_id_ok_def)
  ultimately have "distinct (map tm_movement_id (unify_movements logs traces))"
    by (metis submset_distinct)
  moreover have "sorted (map movement_rank (unify_movements logs traces))" by (simp add: ks(3))
  ultimately show ?thesis using ev by blast
qed

theorem unify_conserves_evidence_witness:
  "evidence (unify_movements [sample_movement ''i'' ''log'' ''0xf'' ''l1'']
     [sample_movement ''i'' ''trace'' ''0xf'' ''t1'']) = {''l1'', ''t1''}"
proof -
  have "distinct (map tm_movement_id [sample_movement ''i'' ''log'' ''0xf'' ''l1''])" by simp
  from unify_conserves_evidence [OF this, of "[sample_movement ''i'' ''trace'' ''0xf'' ''t1'']"]
  show ?thesis by (auto simp: sample_movement_def)
qed

section \<open>Occurrence indices of trace calls\<close>

lemma pack16: "(0 :: int) \<le> c \<Longrightarrow> push_bit 16 n OR (c AND 0xFFFF) = n * 65536 + c mod 65536"
proof -
  have mask: "c AND 0xFFFF = take_bit 16 c" by (simp add: take_bit_eq_mask mask_eq_exp_minus_1)
  have "push_bit 16 n AND take_bit 16 c = 0"
    by (rule bit_eqI) (auto simp: bit_simps)
  then have "push_bit 16 n OR take_bit 16 c = push_bit 16 n + take_bit 16 c"
    by (rule disjunctive_add_eq_or [symmetric])
  then show ?thesis unfolding mask by (simp add: push_bit_eq_mult take_bit_eq_mod)
qed

lemma index_snoc:
  "trace_address_to_index (a @ [c]) = rbind (trace_address_to_index a) (\<lambda>n.
     if c < 0 then value_error ''trace_address components must be non-negative''
     else Inr (n * 65536 + c mod 65536))"
proof -
  have "foldR f (a @ [c]) s = rbind (foldR f a s) (f c)" for f :: "int \<Rightarrow> int \<Rightarrow> int res" and s
    by (induction a arbitrary: s) (simp_all add: rbind_def split: sum.split)
  then show ?thesis by (simp add: trace_address_to_index_def pack16 cong: if_cong)
qed

lemma index_total:
  "trace_address_to_index a =
     (if \<exists>c \<in> set a. c < 0 then value_error ''trace_address components must be non-negative''
      else Inr (foldl (\<lambda>n c. n * 65536 + c mod 65536) 0 a))"
proof (induction a rule: rev_induct)
  case (snoc c a)
  then show ?case by (auto simp: index_snoc value_error_def)
qed (simp add: trace_address_to_index_def)

lemma index_inj:
  assumes "length a = length b" "trace_address_to_index a = Inr n" "trace_address_to_index b = Inr n"
    and "\<forall>c \<in> set a \<union> set b. c < 65536"
  shows "a = b"
  using assms
proof (induction a b arbitrary: n rule: rev_induct2)
  case (4 c a d b)
  then obtain i j where ij: "trace_address_to_index a = Inr i" "trace_address_to_index b = Inr j"
    "0 \<le> c" "0 \<le> d" "i * 65536 + c mod 65536 = n" "j * 65536 + d mod 65536 = n"
    by (auto simp: index_snoc rbind_Inr value_error_def split: if_splits)
  have "c mod 65536 = c" "d mod 65536 = d" using ij 4 by simp_all
  with ij have "i * 65536 + c = j * 65536 + d" "c < 65536" "d < 65536" using 4 by simp_all
  then have "i = j" using ij(3,4) by linarith
  then have "c = d" using \<open>i * 65536 + c = j * 65536 + d\<close> by simp
  moreover have "a = b"
    by (rule "4.IH" [of i]) (use ij \<open>i = j\<close> "4.prems" in simp_all)
  ultimately show ?case by simp
qed simp_all

text \<open>C40: the occurrence index of a trace address is the base-\<open>2^16\<close> number of its components, each
  reduced to 16 bits, and is never negative; an address with a negative component, and no other, is a
  \<open>ValueError\<close>; and among the addresses of one depth with components below \<open>2^16\<close> the index identifies
  the address.\<close>

theorem trace_index_injective:
  "(if \<exists>c \<in> set a. c < 0
    then trace_address_to_index a = Inl (Raise ValueError ''trace_address components must be non-negative'')
    else \<exists>n \<ge> 0. trace_address_to_index a = Inr n \<and> n = foldl (\<lambda>n c. n * 2 ^ 16 + c mod 2 ^ 16) 0 a)
   \<and> (length a = length b \<longrightarrow> (\<forall>c \<in> set a \<union> set b. 0 \<le> c \<and> c < 2 ^ 16) \<longrightarrow>
      (trace_address_to_index a = trace_address_to_index b \<longleftrightarrow> a = b))"
proof -
  have nonneg: "0 \<le> n \<Longrightarrow> 0 \<le> foldl (\<lambda>n c. n * 65536 + c mod 65536) n xs" for n :: int and xs
    by (induction xs arbitrary: n) simp_all
  let ?n = "foldl (\<lambda>n c. n * 65536 + c mod 65536) 0"
  have "trace_address_to_index xs = Inr (?n xs)" if "\<forall>c \<in> set xs. 0 \<le> c" for xs
    using that index_total [of xs] by force
  then have "trace_address_to_index a = trace_address_to_index b \<longleftrightarrow> a = b"
    if "length a = length b" "\<forall>c \<in> set a \<union> set b. 0 \<le> c \<and> c < 65536"
    using that index_inj [OF that(1), of "?n b"] by auto
  then show ?thesis using index_total [of a] nonneg [of 0 a] by (simp add: value_error_def)
qed

theorem trace_index_injective_witness:
  "trace_address_to_index [1, 2] = Inr 65538 \<and> trace_address_to_index [2, 1] \<noteq> Inr 65538
   \<and> trace_address_to_index [70000, - 1] = Inl (Raise ValueError ''trace_address components must be non-negative'')"
proof -
  have "trace_address_to_index [1, 2] = Inr 65538" using trace_index_injective [of "[1, 2]"] by simp
  moreover from this have "trace_address_to_index [2, 1] \<noteq> Inr 65538"
    using trace_index_injective [of "[1, 2]" "[2, 1]"] by simp
  moreover have "trace_address_to_index [70000, - 1] =
      Inl (Raise ValueError ''trace_address components must be non-negative'')"
    using trace_index_injective [of "[70000, - 1]"] by simp
  ultimately show ?thesis by simp
qed

text \<open>The log with index \<open>n\<close> and the trace call at the address \<open>[n]\<close> share an occurrence index, and so
  an identifier when they report the same parties and amount, whether or not they are one transfer.\<close>

lemma log_and_trace_share_index:
  "0 \<le> n \<Longrightarrow> n < 65536 \<Longrightarrow> rbind (trace_address_to_index [n]) (\<lambda>occ. Inr (compute_movement_id (c, h, f, t, v, occ)))
     = Inr (compute_movement_id (c, h, f, t, v, n))"
  by (simp add: index_total)

text \<open>Across depths, or with larger components, different addresses share an index.\<close>

lemma trace_index_collides:
  "trace_address_to_index [] = trace_address_to_index [0]"
  "trace_address_to_index [65536] = trace_address_to_index [0]"
  using index_snoc [of "[]" 0] index_snoc [of "[]" 65536] by (simp_all add: trace_address_to_index_def)

text \<open>The sender of a plain \<open>transfer\<close> is not known to the movement: a call decoded by the ERC-20 fast
  path as \<open>transfer\<close> yields a movement with an empty sender.\<close>

lemma plain_transfer_sender_lost:
  assumes "dc_params d = erc20_params e" "ec_from e = None" "token_call_of tok d = Inr c"
    and "trace_call_movement c = Inr m"
  shows "tm_from_addr m = ''''"
proof -
  have "param_str (dc_params d) ''from'' = ''''"
    by (simp add: assms(1,2) erc20_params_def param_str_def dict_get_or_def)
  then have "tt_from_addr c = ''''" using assms(3) by (auto simp: token_call_of_def rbind_Inr)
  then show ?thesis using assms(4) by (auto simp: trace_call_movement_def Let_def rbind_Inr)
qed

end
