(* ===== verification/Contract_Registry.thy ===== *)
theory Contract_Registry
  imports Abi_Registry
begin

text \<open>
  \<open>decoder/contract_registry.py\<close>: which contracts exist, their roles and phases. The registry is
  the dictionary from lowercase address to contract metadata, loaded from the same YAML
  documents as the ABI registry; its phase lookup is a second instance of \<open>phase_lookup\<close>. The
  interface a protocol layer needs, the role of an address, is the locale \<open>role_table\<close>.
\<close>

type_synonym ContractRegistry = "(string \<times> ContractMeta) list"

section \<open>Loading\<close>

fun validate_sorted :: "string \<Rightarrow> Phase list \<Rightarrow> unit res" where
  "validate_sorted address (prev # cur # rest) = (case ph_to_block prev of
     None \<Rightarrow> value_error (''phase overlap for '' @ address @ '': '' @ ph_abi_version prev
       @ '' is open-ended but '' @ ph_abi_version cur @ '' follows'')
   | Some prev_end \<Rightarrow>
       if prev_end \<ge> ph_from_block cur
       then value_error (''overlapping phases for '' @ address @ '': '' @ ph_abi_version prev
         @ '' ends at '' @ show_int prev_end @ '', '' @ ph_abi_version cur
         @ '' starts at '' @ show_int (ph_from_block cur))
       else validate_sorted address (cur # rest))"
| "validate_sorted address _ = Inr ()"

definition validate_phases :: "string \<Rightarrow> Phase list \<Rightarrow> unit res" where
  "validate_phases address phases = validate_sorted address (sort_key ph_from_block phases)"

definition load_contract :: "string \<Rightarrow> pydict \<Rightarrow> ContractRegistry \<Rightarrow> ContractRegistry res" where
  "load_contract stem contract reg =
     rbind (dict_index contract ''address'') (\<lambda>av.
       let address = lower (py_str av); role = py_str (dict_get_or contract ''role'' (PStr stem)) in
       rbind (py_int (dict_get_or contract ''deployed_block'' (PInt 0))) (\<lambda>deploy_block.
       rbind (input_defs contract ''phases'') (\<lambda>pds.
       rbind (mapR (phase_of_def address) pds) (\<lambda>phases.
       rbind (validate_phases address phases) (\<lambda>_.
         Inr (AList.update address
           \<lparr>cm_contract_address = address, cm_role = role, cm_deployed_block = deploy_block,
            cm_phases = phases\<rparr> reg))))))"

definition contract_registry_load :: "(string \<times> pyval) list \<Rightarrow> ContractRegistry res" where
  "contract_registry_load yaml_files =
     foldR (\<lambda>(stem, doc) reg. rbind (doc_contracts doc) (\<lambda>cs. foldR (load_contract stem) cs reg))
       yaml_files []"

section \<open>Lookups\<close>

definition list_active :: "ContractRegistry \<Rightarrow> int \<Rightarrow> ContractMeta list" where
  "list_active reg block_number =
     filter (\<lambda>meta. \<not> cm_deployed_block meta > block_number
       \<and> (\<exists>phase \<in> set (cm_phases meta). covers phase block_number)) (map snd reg)"

definition get_phase :: "ContractRegistry \<Rightarrow> string \<Rightarrow> int \<Rightarrow> Phase res" where
  "get_phase reg contract_address block_number = (let addr = lower contract_address in
     case map_of reg addr of
       None \<Rightarrow> Inl (Raise KeyError (''contract '' @ repr_str addr @ '' not registered''))
     | Some meta \<Rightarrow> (case find (\<lambda>phase. covers phase block_number) (cm_phases meta) of
         Some phase \<Rightarrow> Inr phase
       | None \<Rightarrow> Inl (Raise KeyError (''no phase covers block '' @ show_int block_number
           @ '' for '' @ repr_str addr))))"

definition is_known :: "ContractRegistry \<Rightarrow> string \<Rightarrow> bool" where
  "is_known reg address = (map_of reg (lower address) \<noteq> None)"

definition role :: "ContractRegistry \<Rightarrow> string \<Rightarrow> string option" where
  "role reg address = map_option cm_role (map_of reg (lower address))"

definition contract_addresses :: "ContractRegistry \<Rightarrow> string list" where
  "contract_addresses reg = map fst reg"

text \<open>The protocol layers ask a registry for the role of an address, in any letter case.\<close>

locale role_table =
  fixes role_of :: "string \<Rightarrow> string option"
  assumes role_lower: "role_of (lower a) = role_of a"
begin

lemma role_cong: "lower a = lower b \<Longrightarrow> role_of a = role_of b"
  by (metis role_lower)

end

interpretation registry_role: role_table "role reg" for reg
  by unfold_locales (simp add: role_def)

definition phase_entries :: "ContractRegistry \<Rightarrow> string \<Rightarrow> (Phase \<times> Phase) list option" where
  "phase_entries reg a = map_option (\<lambda>m. map (\<lambda>p. (p, p)) (cm_phases m)) (map_of reg a)"

interpretation contracts: phase_lookup get_phase phase_entries
proof
  fix r :: ContractRegistry and a b es
  assume "phase_entries r (lower a) = Some es" "\<forall>(p, v) \<in> set es. \<not> covers p b"
  then obtain m where "map_of r (lower a) = Some m" "find (\<lambda>p. covers p b) (cm_phases m) = None"
    by (auto simp: phase_entries_def find_None_iff)
  then show "\<exists>m. get_phase r a b = Inl (Raise KeyError m)"
    by (simp add: get_phase_def Let_def)
next
  fix r :: ContractRegistry and a xs p v ys b
  assume h: "phase_entries r (lower a) = Some (xs @ (p, v) # ys)"
    "\<forall>(q, w) \<in> set xs. \<not> covers q b" "covers p b"
  then obtain m where m: "map_of r (lower a) = Some m"
    "map (\<lambda>p. (p, p)) (cm_phases m) = xs @ (p, v) # ys"
    by (auto simp: phase_entries_def)
  then obtain as bs where s: "cm_phases m = as @ v # bs" "p = v" "xs = map (\<lambda>p. (p, p)) as"
    by (auto simp: map_eq_append_conv)
  have "find (\<lambda>p. covers p b) (as @ v # bs) = Some v"
    using h(2,3) s(2) unfolding s(3) by (induction as) auto
  with m s show "get_phase r a b = Inr v" by (simp add: get_phase_def Let_def)
qed (simp add: phase_entries_def get_phase_def Let_def)

section \<open>What loading guarantees\<close>

lemma validate_sorted_iff: "validate_sorted a ps = Inr () \<longleftrightarrow> no_overlap_sorted ps = Inr ()"
  by (induction a ps rule: validate_sorted.induct) (auto simp: value_error_def split: option.splits)

lemma validate_phases_disjoint:
  assumes "validate_phases a ps = Inr u"
  shows "disjoint_phases ps"
proof -
  let ?s = "sort_key ph_from_block ps"
  have "no_overlap_sorted ?s = Inr ()" using assms by (simp add: validate_phases_def validate_sorted_iff)
  then have "disjoint_phases ?s" by (simp add: no_overlap_sorted_iff ends_before_disjoint)
  moreover have "disjoint_phases ?s = disjoint_phases ps" by (rule disjoint_phases_mset) simp
  ultimately show ?thesis by simp
qed

definition contract_registry_wf :: "ContractRegistry \<Rightarrow> bool" where
  "contract_registry_wf reg = (\<forall>(a, m) \<in> set reg. lower a = a \<and> cm_contract_address m = a \<and>
     disjoint_phases (cm_phases m) \<and> (\<forall>p \<in> set (cm_phases m). ph_contract_address p = a))"

lemma contract_registry_wf_update:
  assumes "contract_registry_wf reg" "mapR (phase_of_def (lower a)) pds = Inr ps"
    and "validate_phases (lower a) ps = Inr u"
  shows "contract_registry_wf (AList.update (lower a) \<lparr>cm_contract_address = lower a, cm_role = r,
      cm_deployed_block = db, cm_phases = ps\<rparr> reg)"
proof -
  have "ph_contract_address p = lower a" if "p \<in> set ps" for p
    using list_all2_set2 [OF assms(2) [unfolded mapR_Inr] that] by (blast dest: phase_of_def_address)
  then show ?thesis
    using assms(1) validate_phases_disjoint [OF assms(3)]
      set_update_subset [of "lower a" "\<lparr>cm_contract_address = lower a, cm_role = r,
        cm_deployed_block = db, cm_phases = ps\<rparr>" reg]
    unfolding contract_registry_wf_def by fastforce
qed

lemma load_contract_wf:
  assumes "load_contract stem c reg = Inr reg'" "contract_registry_wf reg"
  shows "contract_registry_wf reg'"
  using assms unfolding load_contract_def Let_def
  by (auto elim!: rbind_InrE intro: contract_registry_wf_update)

lemma contract_registry_load_wf:
  assumes "contract_registry_load files = Inr reg"
  shows "contract_registry_wf reg"
proof (rule foldR_inv [OF assms [unfolded contract_registry_load_def]], goal_cases)
  case 1 show ?case by (simp add: contract_registry_wf_def)
next
  case (2 x s t)
  then obtain stem cs where "foldR (load_contract stem) cs s = Inr t"
    by (auto simp: rbind_Inr split: prod.splits)
  from foldR_inv [OF this, of contract_registry_wf] 2(2) load_contract_wf
  show ?case by blast
qed

lemma disjoint_phases_unique:
  assumes "disjoint_phases ps" "p \<in> set ps" "q \<in> set ps" "covers p b" "covers q b"
  shows "p = q"
proof -
  have len: "length (filter (\<lambda>p. covers p b) ps) \<le> 1" using assms(1) by (simp add: disjoint_phases_def)
  have "p \<in> set (filter (\<lambda>p. covers p b) ps)" "q \<in> set (filter (\<lambda>p. covers p b) ps)"
    using assms(2-5) by simp_all
  with len show ?thesis by (cases "filter (\<lambda>p. covers p b) ps") auto
qed

section \<open>Properties\<close>

text \<open>C29: for a registry the loader accepted, \<open>get_phase\<close> answers with exactly the phase that
  covers the block: the phases of a contract never overlap, so the answer does not depend on the
  order in which the configuration lists them.\<close>

theorem loaded_phase_lookup:
  assumes "contract_registry_load files = Inr reg" "map_of reg (lower a) = Some meta"
    and "p \<in> set (cm_phases meta)" "covers p b"
  shows "get_phase reg a b = Inr p \<and> (\<forall>q \<in> set (cm_phases meta). covers q b \<longrightarrow> q = p)"
proof -
  from map_of_SomeD [OF assms(2)] contract_registry_load_wf [OF assms(1)]
  have d: "disjoint_phases (cm_phases meta)" by (auto simp: contract_registry_wf_def)
  have "get_phase reg a b = Inr p"
    by (rule contracts.get_unique [of reg a "map (\<lambda>p. (p, p)) (cm_phases meta)"])
      (use assms d in \<open>simp_all add: phase_entries_def comp_def\<close>)
  then show ?thesis using disjoint_phases_unique [OF d] assms(3,4) by blast
qed

text \<open>A configuration with the two phases of one contract, listed newest first.\<close>

definition sample_config :: "(string \<times> pyval) list" where
  "sample_config = [(''pool'', PDict [(''contracts'', PList [PDict
     [(''address'', PStr ''0xAB''), (''role'', PStr ''staking_pool''), (''deployed_block'', PInt 5),
      (''phases'', PList
        [PDict [(''abi_version'', PStr ''v2''), (''from_block'', PInt 20)],
         PDict [(''abi_version'', PStr ''v1''), (''from_block'', PInt 5), (''to_block'', PInt 19)]])]])])]"

definition sample_phase :: "string \<Rightarrow> int \<Rightarrow> int option \<Rightarrow> Phase" where
  "sample_phase v f t = \<lparr>ph_contract_address = ''0xab'', ph_abi_version = v, ph_from_block = f,
     ph_to_block = t\<rparr>"

definition sample_registry :: ContractRegistry where
  "sample_registry = [(''0xab'', \<lparr>cm_contract_address = ''0xab'', cm_role = ''staking_pool'',
     cm_deployed_block = 5,
     cm_phases = [sample_phase ''v2'' 20 None, sample_phase ''v1'' 5 (Some 19)]\<rparr>)]"

lemma sample_config_loads: "contract_registry_load sample_config = Inr sample_registry"
  by code_simp

theorem loaded_phase_lookup_witness: "get_phase sample_registry ''0xAB'' 19 = Inr (sample_phase ''v1'' 5 (Some 19))"
proof -
  have m: "map_of sample_registry (lower ''0xAB'') = Some (snd (hd sample_registry))" by code_simp
  have p: "sample_phase ''v1'' 5 (Some 19) \<in> set (cm_phases (snd (hd sample_registry)))"
    by (simp add: sample_registry_def)
  have c: "covers (sample_phase ''v1'' 5 (Some 19)) 19" by (simp add: covers_def sample_phase_def)
  show ?thesis using loaded_phase_lookup [OF sample_config_loads m p c] by simp
qed

end
