(* ===== verification/Double_Entry.thy ===== *)
theory Double_Entry
  imports Sha256
begin

text \<open>
  The contract of a double-entry builder, shared by the two protocol layers
  (\<open>protocols/staking_v02/ledger_builder.py\<close>, \<open>protocols/payment_abstraction/ledger_builder.py\<close>):
  an action yields no entries, or a debit and a credit of one amount under the transaction of the
  action. What follows from it, once for both: ledgers balance per action, per transaction and as
  a whole, and the net position of every account sums to zero.
\<close>

definition debit_total :: "('e \<Rightarrow> bool) \<Rightarrow> ('e \<Rightarrow> int) \<Rightarrow> 'e list \<Rightarrow> int" where
  "debit_total is_debit amount es = sum_list (map amount (filter is_debit es))"

definition credit_total :: "('e \<Rightarrow> bool) \<Rightarrow> ('e \<Rightarrow> int) \<Rightarrow> 'e list \<Rightarrow> int" where
  "credit_total is_debit amount es = sum_list (map amount (filter (\<lambda>e. \<not> is_debit e) es))"

text \<open>The net position of an account: what was credited to it less what was debited from it.\<close>

definition net_position :: "('e \<Rightarrow> bool) \<Rightarrow> ('e \<Rightarrow> int) \<Rightarrow> ('e \<Rightarrow> string) \<Rightarrow> 'e list \<Rightarrow> string \<Rightarrow> int" where
  "net_position is_debit amount account es a =
     credit_total is_debit amount (filter (\<lambda>e. account e = a) es)
     - debit_total is_debit amount (filter (\<lambda>e. account e = a) es)"

lemma totals_simps [simp]:
  "debit_total d f [] = 0" "credit_total d f [] = 0"
  "debit_total d f (e # es) = (if d e then f e else 0) + debit_total d f es"
  "credit_total d f (e # es) = (if d e then 0 else f e) + credit_total d f es"
  "debit_total d f (es @ es') = debit_total d f es + debit_total d f es'"
  "credit_total d f (es @ es') = credit_total d f es + credit_total d f es'"
  by (simp_all add: debit_total_def credit_total_def)

lemma net_position_simps [simp]:
  "net_position d f g [] a = 0"
  "net_position d f g (e # es) a =
     (if g e = a then if d e then - f e else f e else 0) + net_position d f g es a"
  "net_position d f g (es @ es') a = net_position d f g es a + net_position d f g es' a"
  by (simp_all add: net_position_def)

locale double_entry =
  fixes build :: "'a \<Rightarrow> 'e list" and is_debit :: "'e \<Rightarrow> bool" and amount :: "'e \<Rightarrow> int"
    and entry_tx :: "'e \<Rightarrow> string" and action_tx :: "'a \<Rightarrow> string"
  assumes pair_or_none: "build a = [] \<or> (\<exists>d c. build a = [d, c] \<and> is_debit d \<and> \<not> is_debit c
    \<and> amount d = amount c \<and> entry_tx d = action_tx a \<and> entry_tx c = action_tx a)"
begin

lemma balanced: "debit_total is_debit amount (build a) = credit_total is_debit amount (build a)"
  using pair_or_none [of a] by auto

lemma balanced_all:
  "debit_total is_debit amount (concat (map build as)) = credit_total is_debit amount (concat (map build as))"
  by (induction as) (simp_all add: balanced)

lemma entries_tx: "e \<in> set (build a) \<Longrightarrow> entry_tx e = action_tx a"
  using pair_or_none [of a] by auto

lemma filter_tx:
  "filter (\<lambda>e. entry_tx e = h) (concat (map build as)) = concat (map build (filter (\<lambda>a. action_tx a = h) as))"
proof (induction as)
  case (Cons a as)
  have "filter (\<lambda>e. entry_tx e = h) (build a) = (if action_tx a = h then build a else [])"
    by (auto simp: filter_id_conv filter_empty_conv entries_tx)
  with Cons show ?case by simp
qed simp

lemma balanced_tx:
  "debit_total is_debit amount (filter (\<lambda>e. entry_tx e = h) (concat (map build as))) =
   credit_total is_debit amount (filter (\<lambda>e. entry_tx e = h) (concat (map build as)))"
  unfolding filter_tx by (rule balanced_all)

lemma at_most_two: "length (build a) = 0 \<or> length (build a) = 2"
  using pair_or_none [of a] by auto

end

definition entry_keys :: "string \<Rightarrow> string list \<Rightarrow> string set" where
  "entry_keys tag ids = (\<Union>a \<in> set ids. \<Union>i \<in> {0, 1}. {canonical_key tag [a, show_int i]})"

text \<open>
  A builder that also numbers its entries: the identifier of an entry hashes the identifier of its
  action and its position. Then the entries of distinct actions have distinct identifiers, unless
  two of the hashed keys collide.
\<close>

locale numbered_entries = double_entry build is_debit amount entry_tx action_tx
  for build :: "'a \<Rightarrow> 'e list" and is_debit amount entry_tx action_tx +
  fixes entry_id :: "'e \<Rightarrow> string" and action_id :: "'a \<Rightarrow> string" and tag :: string
  assumes entry_ids: "map entry_id (build a) = [] \<or>
    map entry_id (build a) = map (\<lambda>i. sha256_hex (canonical_key tag [action_id a, show_int i])) [0, 1]"
    and tag_free: "CHR ''|'' \<notin> set tag"
begin

lemma id_in_keys:
  assumes "e \<in> set (build a)"
  shows "\<exists>i \<in> {0, 1}. entry_id e = sha256_hex (canonical_key tag [action_id a, show_int i])"
proof -
  have "entry_id e \<in> set (map entry_id (build a))" using assms by simp
  then show ?thesis using entry_ids [of a] by auto
qed

lemma ids_distinct:
  assumes "distinct (map action_id as)" "pipe_free (map action_id as)" "inj_on sha256_hex (entry_keys tag (map action_id as))"
  shows "distinct (map entry_id (concat (map build as)))"
  using assms
proof (induction as)
  case (Cons a as)
  have inj: "canonical_key tag [action_id b, show_int i] = canonical_key tag [action_id c, show_int j]
      \<longleftrightarrow> action_id b = action_id c \<and> i = j"
    if "b \<in> set (a # as)" "c \<in> set (a # as)" for b c i j
    using canonical_key_inj [OF tag_free, of "[action_id b, show_int i]" "[action_id c, show_int j]"]
      Cons.prems(2) that by (auto simp: pipe_free_def)
  have "entry_keys tag (map action_id as) \<subseteq> entry_keys tag (map action_id (a # as))" by (auto simp: entry_keys_def)
  then have "distinct (map entry_id (concat (map build as)))"
    using Cons by (auto intro: inj_on_subset)
  moreover have "distinct (map entry_id (build a))"
  proof (cases "map entry_id (build a) = []")
    case False
    have "sha256_hex (canonical_key tag [action_id a, show_int 0]) \<noteq>
        sha256_hex (canonical_key tag [action_id a, show_int 1])"
    proof
      assume "sha256_hex (canonical_key tag [action_id a, show_int 0]) =
        sha256_hex (canonical_key tag [action_id a, show_int 1])"
      then have "canonical_key tag [action_id a, show_int 0] = canonical_key tag [action_id a, show_int 1]"
        by (rule inj_onD [OF Cons.prems(3)]) (auto simp: entry_keys_def)
      then show False using inj [of a a 0 1] by simp
    qed
    with False entry_ids [of a] show ?thesis by auto
  qed simp
  moreover have "entry_id d \<noteq> entry_id e"
    if de: "d \<in> set (build a)" "b \<in> set as" "e \<in> set (build b)" for d b e
  proof
    assume eq: "entry_id d = entry_id e"
    obtain i where i: "i \<in> {0, 1}" "entry_id d = sha256_hex (canonical_key tag [action_id a, show_int i])"
      using id_in_keys [OF de(1)] by blast
    obtain j where j: "j \<in> {0, 1}" "entry_id e = sha256_hex (canonical_key tag [action_id b, show_int j])"
      using id_in_keys [OF de(3)] by blast
    have "canonical_key tag [action_id a, show_int i] = canonical_key tag [action_id b, show_int j]"
      by (rule inj_onD [OF Cons.prems(3)]) (use eq i j de(2) in \<open>auto simp: entry_keys_def\<close>)
    then have "action_id a = action_id b" using inj [of a b i j] de(2) by simp
    then show False using Cons.prems(1) de(2) by (auto simp: rev_image_eqI)
  qed
  ultimately show ?case by fastforce
qed simp

lemma ids_distinct_or_collision:
  assumes "distinct (map action_id as)" "pipe_free (map action_id as)"
  shows "distinct (map entry_id (concat (map build as))) \<or>
    (\<exists>k \<in> entry_keys tag (map action_id as). \<exists>k' \<in> entry_keys tag (map action_id as). k \<noteq> k' \<and> sha256_hex k = sha256_hex k')"
  using ids_distinct [OF assms] by (auto simp: inj_on_def)

end

end
