(* ===== verification/Staking.thy ===== *)
theory Staking
  imports Movement_Builder Contract_Registry Double_Entry
begin

text \<open>
  \<open>protocols/staking_v02/semantics.py\<close> and \<open>ledger_builder.py\<close>: staking events become economic
  actions, actions become balanced ledger entries. The registry is used through \<open>role\<close> and
  \<open>get_phase\<close> only, so the definitions take these two functions.
\<close>

section \<open>Actions\<close>

datatype ActionKind = STAKE | UNSTAKE_REQUESTED | UNSTAKE_FINALIZED | REWARD_CLAIMED
  | REWARD_ACCRUED | SLASHED | MIGRATED_FROM_V01 | POOL_CONFIG_CHANGED

fun kind_value :: "ActionKind \<Rightarrow> string" where
  "kind_value STAKE = ''stake''"
| "kind_value UNSTAKE_REQUESTED = ''unstake_requested''"
| "kind_value UNSTAKE_FINALIZED = ''unstake_finalized''"
| "kind_value REWARD_CLAIMED = ''reward_claimed''"
| "kind_value REWARD_ACCRUED = ''reward_accrued''"
| "kind_value SLASHED = ''slashed''"
| "kind_value MIGRATED_FROM_V01 = ''migrated_from_v01''"
| "kind_value POOL_CONFIG_CHANGED = ''pool_config_changed''"

definition EVENT_NAME_TO_KIND :: "(string \<times> ActionKind) list" where
  "EVENT_NAME_TO_KIND = [
     (''Staked'', STAKE), (''Stake'', STAKE),
     (''UnstakeRequested'', UNSTAKE_REQUESTED), (''UnbondingPeriodStarted'', UNSTAKE_REQUESTED),
     (''Unstaked'', UNSTAKE_FINALIZED), (''UnstakeFinalized'', UNSTAKE_FINALIZED),
     (''Withdrawn'', UNSTAKE_FINALIZED),
     (''RewardClaimed'', REWARD_CLAIMED), (''RewardsClaimed'', REWARD_CLAIMED),
     (''RewardAdded'', REWARD_ACCRUED), (''RewardAccrued'', REWARD_ACCRUED),
     (''Slashed'', SLASHED), (''Migrated'', MIGRATED_FROM_V01), (''MigratedFromV01'', MIGRATED_FROM_V01),
     (''PoolConfigChanged'', POOL_CONFIG_CHANGED), (''ConfigSet'', POOL_CONFIG_CHANGED)]"

record EconomicAction =
  ea_action_id :: string
  ea_kind :: ActionKind
  ea_chain_id :: int
  ea_block_number :: int
  ea_tx_hash :: string
  ea_log_index :: int
  ea_contract_address :: string
  ea_pool_role :: string
  ea_wallet :: "string option"
  ea_amount_link :: int
  ea_source_event_signature :: string
  ea_raw_log_id :: string
  ea_decoded_event_id :: string

record EnrichedAction =
  en_action :: EconomicAction
  en_pool_address :: string
  en_pool_role :: string
  en_contract_phase_version :: string

definition action_fields :: "string \<times> string \<Rightarrow> string list" where
  "action_fields x = [fst x, snd x]"

definition compute_action_id :: "DecodedEvent \<Rightarrow> ActionKind \<Rightarrow> string" where
  "compute_action_id decoded kind =
     sha256_hex (canonical_key ''action'' (action_fields (de_decoded_event_id decoded, kind_value kind)))"

definition v01_action_id :: "DecodedEvent \<Rightarrow> string" where
  "v01_action_id decoded =
     sha256_hex (canonical_key ''action'' (action_fields (de_decoded_event_id decoded, ''migrated_v01_debit'')))"

interpretation action_id: hashed_id "\<lambda>x. sha256_hex (canonical_key ''action'' (action_fields x))"
  "''action''" action_fields
  by unfold_locales simp_all

section \<open>Classification\<close>

text \<open>The first key with a value, in the indexed parameters first.\<close>

fun first_present :: "pydict \<Rightarrow> string list \<Rightarrow> pyval option" where
  "first_present source [] = None"
| "first_present source (k # ks) =
     (if dict_get source k \<noteq> PNone then Some (dict_get source k) else first_present source ks)"

definition first_param :: "DecodedEvent \<Rightarrow> string list \<Rightarrow> pyval option" where
  "first_param decoded ks = (case first_present (de_indexed_params decoded) ks of
     Some v \<Rightarrow> Some v | None \<Rightarrow> first_present (de_data_params decoded) ks)"

definition extract_amount_link :: "DecodedEvent \<Rightarrow> int res" where
  "extract_amount_link decoded = (case first_param decoded
     [''amount'', ''value'', ''newPrincipal'', ''principal'', ''reward'', ''slashedAmount'',
      ''slashedPrincipal'', ''rewardAmount'', ''stakedAmount'', ''withdrawnAmount''] of
     Some v \<Rightarrow> py_int v | None \<Rightarrow> Inr 0)"

definition extract_wallet :: "DecodedEvent \<Rightarrow> string option" where
  "extract_wallet decoded = map_option (\<lambda>v. lower (py_str v)) (first_param decoded
     [''staker'', ''wallet'', ''user'', ''operator'', ''account'', ''from''])"

definition role_or :: "string option \<Rightarrow> string \<Rightarrow> string" where
  \<comment> \<open>\<open>registry.role(a) or default\<close>\<close>
  "role_or r d = (case r of None \<Rightarrow> d | Some s \<Rightarrow> if s = '''' then d else s)"

definition classify_event_as_action :: "DecodedEvent \<Rightarrow> (string \<Rightarrow> string option) \<Rightarrow> EconomicAction list res" where
  "classify_event_as_action decoded role_of =
     (let role = role_or (role_of (de_contract_address decoded)) ''unknown'' in
      if role = ''unknown'' then Inr []
      else case map_of EVENT_NAME_TO_KIND (de_event_name decoded) of
        None \<Rightarrow> Inr []
      | Some kind \<Rightarrow> rbind (extract_amount_link decoded) (\<lambda>amount.
          let base_action =
            \<lparr>ea_action_id = compute_action_id decoded kind, ea_kind = kind,
             ea_chain_id = de_chain_id decoded, ea_block_number = de_block_number decoded,
             ea_tx_hash = de_tx_hash decoded, ea_log_index = de_log_index decoded,
             ea_contract_address = de_contract_address decoded, ea_pool_role = role,
             ea_wallet = extract_wallet decoded, ea_amount_link = amount,
             ea_source_event_signature = de_event_signature decoded,
             ea_raw_log_id = de_raw_log_id decoded,
             ea_decoded_event_id = de_decoded_event_id decoded\<rparr> in
          if kind = MIGRATED_FROM_V01
          then Inr [base_action\<lparr>ea_action_id := v01_action_id decoded, ea_pool_role := ''staking_pool_v01''\<rparr>,
                    base_action]
          else Inr [base_action]))"

definition enrich_action_with_context :: "EconomicAction \<Rightarrow> (string \<Rightarrow> string option)
    \<Rightarrow> (string \<Rightarrow> int \<Rightarrow> Phase res) \<Rightarrow> EnrichedAction res" where
  "enrich_action_with_context action role_of phase_at =
     (let role = role_or (role_of (ea_contract_address action)) (ea_pool_role action) in
      rbind (case phase_at (ea_contract_address action) (ea_block_number action) of
          Inr phase \<Rightarrow> Inr (ph_abi_version phase)
        | Inl e \<Rightarrow> if exc_class e = KeyError then Inr ''unknown'' else Inl e) (\<lambda>version.
      Inr \<lparr>en_action = action, en_pool_address = ea_contract_address action, en_pool_role = role,
            en_contract_phase_version = version\<rparr>))"

section \<open>The ledger\<close>

datatype Direction = DEBIT | CREDIT

record LedgerEntry =
  le_entry_id :: string
  le_action_id :: string
  le_entry_index :: int
  le_account :: string
  le_direction :: Direction
  le_amount_link :: int
  le_chain_id :: int
  le_block_number :: int
  le_tx_hash :: string

record DoubleEntryCheck =
  ck_tx_hash :: string
  ck_is_balanced :: bool
  ck_debit_total :: int
  ck_credit_total :: int
  ck_delta :: int

definition ledger_entry_fields :: "string \<times> int \<Rightarrow> string list" where
  "ledger_entry_fields x = [fst x, show_int (snd x)]"

definition compute_ledger_entry_id :: "string \<Rightarrow> int \<Rightarrow> string" where
  "compute_ledger_entry_id action_id entry_index =
     sha256_hex (canonical_key ''ledger_entry'' (ledger_entry_fields (action_id, entry_index)))"

interpretation ledger_entry_id:
  hashed_id "\<lambda>(a, i). compute_ledger_entry_id a i" "''ledger_entry''" ledger_entry_fields
  by unfold_locales (auto simp: compute_ledger_entry_id_def)

definition make_entry :: "EconomicAction \<Rightarrow> int \<Rightarrow> string \<Rightarrow> Direction \<Rightarrow> int \<Rightarrow> LedgerEntry" where
  "make_entry action entry_index account direction amount =
     \<lparr>le_entry_id = compute_ledger_entry_id (ea_action_id action) entry_index,
      le_action_id = ea_action_id action, le_entry_index = entry_index, le_account = account,
      le_direction = direction, le_amount_link = amount, le_chain_id = ea_chain_id action,
      le_block_number = ea_block_number action, le_tx_hash = ea_tx_hash action\<rparr>"

definition pool_account :: "EconomicAction \<Rightarrow> string" where
  "pool_account action = ea_pool_role action @ '':'' @ ea_contract_address action"

definition wallet_account :: "EconomicAction \<Rightarrow> string" where
  "wallet_account action = ''wallet:'' @ (case ea_wallet action of
     None \<Rightarrow> ''unknown'' | Some w \<Rightarrow> if w = '''' then ''unknown'' else w)"

definition build_ledger_entries :: "EconomicAction \<Rightarrow> TokenMovement list \<Rightarrow> LedgerEntry list" where
  "build_ledger_entries action movements =
     (if ea_amount_link action = 0 then []
      else let amount = ea_amount_link action;
               pool = pool_account action; wallet = wallet_account action;
               pair = \<lambda>debited credited. [make_entry action 0 debited DEBIT amount,
                                          make_entry action 1 credited CREDIT amount]
      in case ea_kind action of
        STAKE \<Rightarrow> pair wallet pool
      | UNSTAKE_FINALIZED \<Rightarrow> pair pool wallet
      | REWARD_CLAIMED \<Rightarrow> pair (ea_pool_role action @ '':rewards'') wallet
      | REWARD_ACCRUED \<Rightarrow> pair ''reward_funder'' (ea_pool_role action @ '':rewards'')
      | SLASHED \<Rightarrow> pair pool (ea_pool_role action @ '':forfeiture_sink'')
      | MIGRATED_FROM_V01 \<Rightarrow>
          if ea_pool_role action = ''staking_pool_v01''
          then pair (''staking_pool_v01:'' @ ea_contract_address action) ''migration_proxy''
          else pair ''migration_proxy'' pool
      | UNSTAKE_REQUESTED \<Rightarrow> []
      | POOL_CONFIG_CHANGED \<Rightarrow> [])"

abbreviation is_debit :: "LedgerEntry \<Rightarrow> bool" where "is_debit e \<equiv> le_direction e = DEBIT"

definition verify_double_entry :: "LedgerEntry list \<Rightarrow> DoubleEntryCheck" where
  "verify_double_entry entries = (case entries of
     [] \<Rightarrow> \<lparr>ck_tx_hash = '''', ck_is_balanced = True, ck_debit_total = 0, ck_credit_total = 0, ck_delta = 0\<rparr>
   | e # _ \<Rightarrow>
     let debits = sum_list (map le_amount_link (filter (\<lambda>e. le_direction e = DEBIT) entries));
         credits = sum_list (map le_amount_link (filter (\<lambda>e. le_direction e = CREDIT) entries));
         delta = debits - credits in
     \<lparr>ck_tx_hash = le_tx_hash e, ck_is_balanced = (delta = 0), ck_debit_total = debits,
      ck_credit_total = credits, ck_delta = delta\<rparr>)"

definition verify_double_entry_per_tx :: "LedgerEntry list \<Rightarrow> DoubleEntryCheck list" where
  "verify_double_entry_per_tx entries =
     map (\<lambda>(tx, grp). verify_double_entry grp) (group_into le_tx_hash entries)"

interpretation staking_ledger: double_entry "\<lambda>a. build_ledger_entries a ms" is_debit le_amount_link
  le_tx_hash ea_tx_hash for ms
  by unfold_locales
    (simp add: build_ledger_entries_def Let_def make_entry_def split: ActionKind.split)

lemma credit_iff: "(le_direction e = CREDIT) = (\<not> is_debit e)"
  by (cases "le_direction e") simp_all

lemma verify_totals:
  "entries \<noteq> [] \<Longrightarrow> verify_double_entry entries =
     (let d = debit_total is_debit le_amount_link entries; c = credit_total is_debit le_amount_link entries
      in \<lparr>ck_tx_hash = le_tx_hash (hd entries), ck_is_balanced = (d = c), ck_debit_total = d,
           ck_credit_total = c, ck_delta = d - c\<rparr>)"
  by (cases entries)
    (simp_all add: verify_double_entry_def debit_total_def credit_total_def credit_iff Let_def)

interpretation staking_numbered: numbered_entries "\<lambda>a. build_ledger_entries a ms" is_debit
  le_amount_link le_tx_hash ea_tx_hash le_entry_id ea_action_id "''ledger_entry''" for ms
  by unfold_locales
    (simp_all add: build_ledger_entries_def Let_def make_entry_def compute_ledger_entry_id_def
      ledger_entry_fields_def split: ActionKind.split)

lemma movements_informational: "build_ledger_entries a ms = build_ledger_entries a []"
  by (simp add: build_ledger_entries_def)

section \<open>Properties\<close>

text \<open>C5: the staking ledger balances: whatever the actions and their movements, the per-transaction
  check of the entries built from them yields one verdict per transaction with entries, and every
  verdict is balanced with equal debits and credits.\<close>

theorem staking_ledger_balanced:
  "let entries = concat (map (\<lambda>a. build_ledger_entries a (evidence_of a)) actions);
       checks = verify_double_entry_per_tx entries
   in list_all (\<lambda>ck. ck_is_balanced ck \<and> ck_delta ck = 0 \<and> ck_debit_total ck = ck_credit_total ck) checks
     \<and> distinct (map ck_tx_hash checks) \<and> set (map ck_tx_hash checks) = le_tx_hash ` set entries"
proof -
  let ?es = "concat (map (\<lambda>a. build_ledger_entries a []) actions)"
  have es: "concat (map (\<lambda>a. build_ledger_entries a (evidence_of a)) actions) = ?es"
    by (subst movements_informational) simp
  obtain ks where ks: "distinct ks" "set ks = le_tx_hash ` set ?es"
    "group_into le_tx_hash ?es = map (\<lambda>k. (k, filter (\<lambda>e. le_tx_hash e = k) ?es)) ks"
    by (rule group_intoE)
  let ?g = "\<lambda>k. filter (\<lambda>e. le_tx_hash e = k) ?es"
  have checks: "verify_double_entry_per_tx ?es = map (\<lambda>k. verify_double_entry (?g k)) ks"
    by (simp add: verify_double_entry_per_tx_def ks(3) comp_def)
  have ne: "?g k \<noteq> []" if "k \<in> set ks" for k using that ks(2) by (auto simp: filter_empty_conv)
  have tx: "le_tx_hash (hd (?g k)) = k" if "k \<in> set ks" for k
    using hd_in_set [OF ne [OF that]] by auto
  have hashes: "map ck_tx_hash (verify_double_entry_per_tx ?es) = ks"
    unfolding checks using ne tx by (simp add: verify_totals Let_def comp_def map_idI)
  have "ck_is_balanced ck \<and> ck_delta ck = 0 \<and> ck_debit_total ck = ck_credit_total ck"
    if "ck \<in> set (verify_double_entry_per_tx ?es)" for ck
    using that ne staking_ledger.balanced_tx [of _ "[]" actions]
    by (auto simp: checks verify_totals Let_def)
  then have "list_all (\<lambda>ck. ck_is_balanced ck \<and> ck_delta ck = 0 \<and> ck_debit_total ck = ck_credit_total ck)
      (verify_double_entry_per_tx ?es)" unfolding list_all_iff by blast
  then show ?thesis unfolding Let_def es hashes using ks(1,2) by simp
qed

text \<open>C16: the two actions of a \<open>Migrated\<close> event of a registered contract: unless the contract is registered
  as \<open>staking_pool_v01\<close> itself, the entries move the principal once, through the account
  \<open>migration_proxy\<close>, which nets to zero: the amount leaves the v0.1 account and goes to the account of
  the registered role. Both accounts belong to the contract that emitted the event. For a contract
  registered as \<open>staking_pool_v01\<close> both actions post the v0.1 side: the v0.1 account is debited twice and
  the proxy keeps twice the amount. (The docstring of the builder has one pair without the proxy.)\<close>

theorem migration_nets:
  assumes "classify_event_as_action ev role_of = Inr actions"
    and "map_of EVENT_NAME_TO_KIND (de_event_name ev) = Some MIGRATED_FROM_V01"
    and "role_of (de_contract_address ev) = Some r" "r \<notin> {'''', ''unknown''}"
  shows "\<exists>amount. extract_amount_link ev = Inr amount \<and> length actions = 2 \<and>
    (let entries = concat (map (\<lambda>a. build_ledger_entries a []) actions);
         net = net_position is_debit le_amount_link le_account entries
     in if r = ''staking_pool_v01''
        then net ''migration_proxy'' = 2 * amount
          \<and> net (''staking_pool_v01:'' @ de_contract_address ev) = - 2 * amount
        else net ''migration_proxy'' = 0
          \<and> net (''staking_pool_v01:'' @ de_contract_address ev) = - amount
          \<and> net (r @ '':'' @ de_contract_address ev) = amount)"
proof -
  let ?c = "de_contract_address ev"
  from assms obtain amount where amt: "extract_amount_link ev = Inr amount"
    and acts: "length actions = 2" "map ea_kind actions = [MIGRATED_FROM_V01, MIGRATED_FROM_V01]"
      "map ea_pool_role actions = [''staking_pool_v01'', r]"
      "map ea_contract_address actions = [?c, ?c]" "map ea_amount_link actions = [amount, amount]"
    by (auto simp: classify_event_as_action_def role_or_def Let_def elim!: rbind_InrE)
  then obtain a b where ab: "actions = [a, b]" by (auto simp: length_Suc_conv numeral_2_eq_2)
  have colon: "CHR '':'' \<notin> set ''migration_proxy''" by simp
  have ne: "''migration_proxy'' \<noteq> x @ '':'' @ y" for x y
    using colon by (metis in_set_conv_decomp append.assoc append_Cons)
  have ne2: "''staking_pool_v01:'' @ ?c \<noteq> r @ '':'' @ ?c" if "r \<noteq> ''staking_pool_v01''"
  proof -
    have "''staking_pool_v01:'' @ ?c = ''staking_pool_v01'' @ ('':'' @ ?c)" by simp
    then show ?thesis using that by (metis append_same_eq)
  qed
  have fields: "ea_kind a = MIGRATED_FROM_V01" "ea_kind b = MIGRATED_FROM_V01"
    "ea_pool_role a = ''staking_pool_v01''" "ea_pool_role b = r"
    "ea_contract_address a = ?c" "ea_contract_address b = ?c"
    "ea_amount_link a = amount" "ea_amount_link b = amount"
    using acts unfolding ab by simp_all
  let ?v = "''staking_pool_v01:'' @ ?c" and ?p = "r @ '':'' @ ?c" and ?m = "''migration_proxy''"
  have vm: "?m \<noteq> ?v" using ne [of "''staking_pool_v01''" ?c] by simp
  have entries: "concat (map (\<lambda>a. build_ledger_entries a []) actions) =
      (if amount = 0 then []
       else [make_entry a 0 ?v DEBIT amount, make_entry a 1 ?m CREDIT amount] @
         (if r = ''staking_pool_v01'' then [make_entry b 0 ?v DEBIT amount, make_entry b 1 ?m CREDIT amount]
          else [make_entry b 0 ?m DEBIT amount, make_entry b 1 ?p CREDIT amount]))"
    unfolding ab by (simp add: build_ledger_entries_def Let_def fields pool_account_def)
  have "net_position is_debit le_amount_link le_account
      [make_entry a 0 ?v DEBIT amount, make_entry a 1 ?m CREDIT amount,
       make_entry b 0 ?m DEBIT amount, make_entry b 1 ?p CREDIT amount] x =
      (if ?v = x then - amount else 0) + (if ?p = x then amount else 0)" for x
    by (simp add: make_entry_def)
  moreover have "net_position is_debit le_amount_link le_account
      [make_entry a 0 ?v DEBIT amount, make_entry a 1 ?m CREDIT amount,
       make_entry b 0 ?v DEBIT amount, make_entry b 1 ?m CREDIT amount] x =
      (if ?v = x then - 2 * amount else 0) + (if ?m = x then 2 * amount else 0)" for x
    by (simp add: make_entry_def)
  ultimately show ?thesis
    using vm ne [of r ?c] ne2 unfolding entries Let_def using amt acts(1) by auto
qed

definition sample_event :: "string \<Rightarrow> DecodedEvent" where
  "sample_event name = \<lparr>de_raw_log_id = ''r1'', de_decoded_event_id = ''e1'', de_chain_id = 1,
     de_block_number = 100, de_tx_hash = ''0xaa'', de_log_index = 3, de_contract_address = ''0xcc'',
     de_event_name = name, de_event_signature = ''0x51'', de_indexed_params = [(''staker'', PStr ''0xD'')],
     de_data_params = [(''amount'', PInt 50)]\<rparr>"

lemma sample_amount: "extract_amount_link (sample_event n) = Inr 50"
  by (simp add: extract_amount_link_def first_param_def sample_event_def dict_get_def)

theorem migration_nets_witness:
  "\<exists>actions. classify_event_as_action (sample_event ''Migrated'') (\<lambda>_. Some ''staking_v01_pool'') = Inr actions
     \<and> net_position is_debit le_amount_link le_account
         (concat (map (\<lambda>a. build_ledger_entries a []) actions)) ''staking_v01_pool:0xcc'' = 50"
proof -
  have k: "map_of EVENT_NAME_TO_KIND (de_event_name (sample_event ''Migrated'')) = Some MIGRATED_FROM_V01"
    by (simp add: EVENT_NAME_TO_KIND_def sample_event_def)
  have "\<exists>actions. classify_event_as_action (sample_event ''Migrated'') (\<lambda>_. Some ''staking_v01_pool'') = Inr actions"
    using k by (simp add: classify_event_as_action_def role_or_def sample_amount)
  then obtain actions where a: "classify_event_as_action (sample_event ''Migrated'')
      (\<lambda>_. Some ''staking_v01_pool'') = Inr actions" by blast
  from migration_nets [OF a k refl] a show ?thesis
    by (simp add: sample_amount Let_def) (simp add: sample_event_def)
qed

text \<open>What an event becomes: actions exactly when its contract is registered under a role and its
  name is one of the protocol's; two for a migration, one otherwise; each carries the coordinates
  of the event, the kind of its name, and the amount and wallet found in its parameters.\<close>

theorem classification_exact:
  assumes "classify_event_as_action ev role_of = Inr actions"
  shows "(case map_of EVENT_NAME_TO_KIND (de_event_name ev) of
      None \<Rightarrow> actions = []
    | Some kind \<Rightarrow> if role_of (de_contract_address ev) \<in> {None, Some '''', Some ''unknown''} then actions = []
        else length actions = (if kind = MIGRATED_FROM_V01 then 2 else 1) \<and>
          (\<forall>a \<in> set actions. ea_kind a = kind \<and> extract_amount_link ev = Inr (ea_amount_link a)
            \<and> ea_wallet a = extract_wallet ev \<and> ea_tx_hash a = de_tx_hash ev
            \<and> ea_log_index a = de_log_index ev \<and> ea_chain_id a = de_chain_id ev
            \<and> ea_decoded_event_id a = de_decoded_event_id ev))"
  using assms unfolding classify_event_as_action_def Let_def
  by (auto elim!: rbind_InrE simp: role_or_def split: option.splits if_splits)

theorem classification_exact_witness:
  "\<exists>actions. classify_event_as_action (sample_event ''Staked'') (\<lambda>_. Some ''community_staking_pool'') = Inr actions
     \<and> length actions = 1 \<and> (\<forall>a \<in> set actions. ea_kind a = STAKE)"
proof -
  have k: "map_of EVENT_NAME_TO_KIND (de_event_name (sample_event ''Staked'')) = Some STAKE"
    by (simp add: EVENT_NAME_TO_KIND_def sample_event_def)
  have "\<exists>actions. classify_event_as_action (sample_event ''Staked'') (\<lambda>_. Some ''community_staking_pool'') = Inr actions"
    using k by (simp add: classify_event_as_action_def role_or_def sample_amount)
  then show ?thesis using classification_exact k by fastforce
qed

text \<open>C35: replay-stable identifiers: the entries of actions with distinct identifiers have pairwise
  distinct identifiers, or two of the keys that were hashed are a SHA-256 collision.\<close>

theorem ledger_entry_ids_distinct:
  assumes "distinct (map ea_action_id actions)" "pipe_free (map ea_action_id actions)"
  shows "distinct (map le_entry_id (concat (map (\<lambda>a. build_ledger_entries a []) actions))) \<or>
    (\<exists>k \<in> entry_keys ''ledger_entry'' (map ea_action_id actions).
      \<exists>k' \<in> entry_keys ''ledger_entry'' (map ea_action_id actions). k \<noteq> k' \<and> sha256_hex k = sha256_hex k')"
  by (rule staking_numbered.ids_distinct_or_collision [OF assms])

definition sample_action :: "string \<Rightarrow> ActionKind \<Rightarrow> int \<Rightarrow> EconomicAction" where
  "sample_action i kind amount = \<lparr>ea_action_id = i, ea_kind = kind, ea_chain_id = 1, ea_block_number = 100,
     ea_tx_hash = ''0xaa'', ea_log_index = 3, ea_contract_address = ''0xcc'',
     ea_pool_role = ''community_staking_pool'', ea_wallet = Some ''0xd'', ea_amount_link = amount,
     ea_source_event_signature = ''0x51'', ea_raw_log_id = ''r1'', ea_decoded_event_id = ''e1''\<rparr>"

theorem ledger_entry_ids_distinct_witness:
  "let actions = [sample_action ''a1'' STAKE 7, sample_action ''a2'' SLASHED 9] in
    distinct (map le_entry_id (concat (map (\<lambda>a. build_ledger_entries a []) actions))) \<or>
    (\<exists>k \<in> entry_keys ''ledger_entry'' [''a1'', ''a2''].
      \<exists>k' \<in> entry_keys ''ledger_entry'' [''a1'', ''a2'']. k \<noteq> k' \<and> sha256_hex k = sha256_hex k')"
proof -
  have ids: "map ea_action_id [sample_action ''a1'' STAKE 7, sample_action ''a2'' SLASHED 9] = [''a1'', ''a2'']"
    by (simp add: sample_action_def)
  have "distinct [''a1'', ''a2'']" "pipe_free [''a1'', ''a2'']" by simp_all
  with ledger_entry_ids_distinct [of "[sample_action ''a1'' STAKE 7, sample_action ''a2'' SLASHED 9]"]
  show ?thesis unfolding ids Let_def by blast
qed

end
