(* ===== verification/Reconciler.thy ===== *)
theory Reconciler
  imports Py_Float Staking "HOL-Library.Sublist"
begin

text \<open>
  \<open>reconciliation/economic_reconciler.py\<close>: matching economic actions with token movements, per
  action, per transaction and per partition. The search over \<open>itertools.combinations\<close> is
  \<open>combos\<close>, in the same order; the pass rate is the double of the quotient (\<open>Py_Float\<close>; a share is at
  most one, so the division cannot overflow).
\<close>

datatype Status = EXACT | PARTIAL | UNMATCHED | NOT_EXPECTED | UNEXPECTED | AMBIGUOUS

fun status_value :: "Status \<Rightarrow> string" where
  "status_value EXACT = ''exact''"
| "status_value PARTIAL = ''partial''"
| "status_value UNMATCHED = ''unmatched''"
| "status_value NOT_EXPECTED = ''not_expected''"
| "status_value UNEXPECTED = ''unexpected''"
| "status_value AMBIGUOUS = ''ambiguous''"

datatype Method = EVENT_LOG | TRACE | BALANCE_INFERRED | MANUAL_RULE

fun method_value :: "Method \<Rightarrow> string" where
  "method_value EVENT_LOG = ''event_log''"
| "method_value TRACE = ''trace''"
| "method_value BALANCE_INFERRED = ''balance_inferred''"
| "method_value MANUAL_RULE = ''manual_rule''"

definition NOT_EXPECTED_KINDS :: "string list" where
  "NOT_EXPECTED_KINDS = [kind_value UNSTAKE_REQUESTED, kind_value REWARD_ACCRUED,
     kind_value POOL_CONFIG_CHANGED]"

record ActionMovementMatch =
  am_edge_id :: string
  am_action_id :: "string option"
  am_movement_id :: "string option"
  am_allocated_amount :: int
  am_status :: Status
  am_method :: "Method option"
  am_reason :: string

record TxReconciliation =
  tr_chain_id :: int
  tr_block_number :: int
  tr_tx_hash :: string
  tr_edges :: "ActionMovementMatch list"
  tr_actions_total :: int
  tr_movements_total :: int
  tr_unmatched_actions :: int
  tr_unexpected_movements :: int
  tr_overall_status :: Status

record PartitionReconciliation =
  pn_partition_id :: string
  pn_chain_id :: int
  pn_block_range :: "int \<times> int"
  pn_tx_recons :: "TxReconciliation list"
  pn_pass_rate :: rat
  pn_counts_by_status :: "(Status \<times> int) list"

section \<open>Matching one action\<close>

fun edge_fields :: "string option \<times> string option \<times> Status \<times> int \<Rightarrow> string list" where
  "edge_fields (action_id, movement_id, status, idx) =
     [case action_id of None \<Rightarrow> '''' | Some a \<Rightarrow> a, case movement_id of None \<Rightarrow> '''' | Some m \<Rightarrow> m,
      status_value status, show_int idx]"

definition compute_edge_id :: "string option \<times> string option \<times> Status \<times> int \<Rightarrow> string" where
  "compute_edge_id k = sha256_hex (canonical_key ''edge'' (edge_fields k))"

interpretation edge_id: hashed_id compute_edge_id "''edge''" edge_fields
  by unfold_locales (simp_all add: compute_edge_id_def)

definition method_for_movement :: "TokenMovement \<Rightarrow> Method" where
  "method_for_movement movement = (if tm_source_priority movement = ''log'' then EVENT_LOG else TRACE)"

definition no_movement_edge :: "EconomicAction \<Rightarrow> Status \<Rightarrow> string \<Rightarrow> ActionMovementMatch" where
  "no_movement_edge action status reason =
     \<lparr>am_edge_id = compute_edge_id (Some (ea_action_id action), None, status, 0),
      am_action_id = Some (ea_action_id action), am_movement_id = None, am_allocated_amount = 0,
      am_status = status, am_method = None, am_reason = reason\<rparr>"

definition movement_edge :: "EconomicAction \<Rightarrow> TokenMovement \<Rightarrow> Status \<Rightarrow> int \<Rightarrow> string \<Rightarrow> ActionMovementMatch" where
  "movement_edge action m status idx reason =
     \<lparr>am_edge_id = compute_edge_id (Some (ea_action_id action), Some (tm_movement_id m), status, idx),
      am_action_id = Some (ea_action_id action), am_movement_id = Some (tm_movement_id m),
      am_allocated_amount = tm_amount m, am_status = status,
      am_method = Some (method_for_movement m), am_reason = reason\<rparr>"

text \<open>\<open>itertools.combinations\<close>: the \<open>k\<close>-element subsequences, in lexicographic order of positions.\<close>

fun combos :: "nat \<Rightarrow> 'a list \<Rightarrow> 'a list list" where
  "combos 0 xs = [[]]"
| "combos (Suc k) [] = []"
| "combos (Suc k) (x # xs) = map ((#) x) (combos k xs) @ combos (Suc k) xs"

definition total_amount :: "TokenMovement list \<Rightarrow> int" where
  "total_amount ms = sum_list (map tm_amount ms)"

fun search_sizes :: "nat list \<Rightarrow> TokenMovement list \<Rightarrow> int \<Rightarrow> TokenMovement list option" where
  "search_sizes [] movements target = None"
| "search_sizes (k # ks) movements target =
     (case find (\<lambda>combo. total_amount combo = target) (combos k movements) of
        Some combo \<Rightarrow> Some combo
      | None \<Rightarrow> search_sizes ks movements target)"

definition find_subset_summing_to :: "TokenMovement list \<Rightarrow> int \<Rightarrow> nat \<Rightarrow> TokenMovement list option" where
  "find_subset_summing_to movements target max_size =
     (if movements = [] \<or> target \<le> 0 then None
      else search_sizes [2..<min max_size (length movements) + 1] movements target)"

definition candidates :: "EconomicAction \<Rightarrow> TokenMovement list \<Rightarrow> TokenMovement list" where
  "candidates action movements =
     filter (\<lambda>m. lower (tm_tx_hash m) = lower (ea_tx_hash action) \<and> tm_amount m > 0) movements"

fun partial_edges :: "EconomicAction \<Rightarrow> nat \<Rightarrow> nat \<Rightarrow> TokenMovement list \<Rightarrow> ActionMovementMatch list" where
  "partial_edges action n i [] = []"
| "partial_edges action n i (m # ms) =
     movement_edge action m PARTIAL (int i)
       (''batched movement '' @ show_int (int i + 1) @ ''/'' @ show_int (int n))
     # partial_edges action n (Suc i) ms"

definition match_action_to_movements :: "EconomicAction \<Rightarrow> TokenMovement list \<Rightarrow> ActionMovementMatch list" where
  "match_action_to_movements action movements =
     (if kind_value (ea_kind action) \<in> set NOT_EXPECTED_KINDS
      then [no_movement_edge action NOT_EXPECTED
              (kind_value (ea_kind action) @ '' has no expected token movement'')]
      else let cands = candidates action movements; target = ea_amount_link action in
      if cands = [] then [no_movement_edge action UNMATCHED ''no movements in tx for this action'']
      else let exact_matches = filter (\<lambda>m. tm_amount m = target) cands in
      if length exact_matches = 1
      then [movement_edge action (hd exact_matches) EXACT 0 ''exact amount match'']
      else if length exact_matches > 1
      then [movement_edge action (hd exact_matches) AMBIGUOUS 0
              (show_int (int (length exact_matches)) @ '' movements match action amount; '' @
               ''requires manual disambiguation'')]
      else case (if target > 0 then find_subset_summing_to cands target 6 else None) of
        Some found \<Rightarrow>
          if length found \<ge> 2 then partial_edges action (length found) 0 found
          else [no_movement_edge action UNMATCHED (''no subset of '' @ show_int (int (length cands))
                  @ '' movements sums to '' @ show_int target)]
      | None \<Rightarrow> [no_movement_edge action UNMATCHED (''no subset of '' @ show_int (int (length cands))
                  @ '' movements sums to '' @ show_int target)])"

section \<open>Matching a transaction\<close>

definition status_priority :: "Status list" where
  "status_priority = [UNMATCHED, UNEXPECTED, AMBIGUOUS, PARTIAL, NOT_EXPECTED, EXACT]"

definition rollup_status :: "ActionMovementMatch list \<Rightarrow> Status" where
  "rollup_status edges = (case find (\<lambda>s. s \<in> set (map am_status edges)) status_priority of
     Some s \<Rightarrow> s | None \<Rightarrow> EXACT)"

text \<open>The loop over \<open>enumerate(movements)\<close> that appends the unexpected edges.\<close>

fun unexpected_edges :: "string \<Rightarrow> string set \<Rightarrow> nat \<Rightarrow> TokenMovement list \<Rightarrow> ActionMovementMatch list" where
  "unexpected_edges tx_hash matched i [] = []"
| "unexpected_edges tx_hash matched i (m # ms) =
     (if lower (tm_tx_hash m) \<noteq> tx_hash then unexpected_edges tx_hash matched (Suc i) ms
      else if tm_movement_id m \<in> matched then unexpected_edges tx_hash matched (Suc i) ms
      else \<lparr>am_edge_id = compute_edge_id (None, Some (tm_movement_id m), UNEXPECTED, int i),
            am_action_id = None, am_movement_id = Some (tm_movement_id m),
            am_allocated_amount = tm_amount m, am_status = UNEXPECTED,
            am_method = Some (method_for_movement m),
            am_reason = ''movement with no matching action''\<rparr>
           # unexpected_edges tx_hash matched (Suc i) ms)"

definition action_edges :: "EconomicAction list \<Rightarrow> TokenMovement list \<Rightarrow> ActionMovementMatch list" where
  "action_edges actions movements = concat (map (\<lambda>a. match_action_to_movements a movements) actions)"

definition matched_ids :: "ActionMovementMatch list \<Rightarrow> string set" where
  "matched_ids edges = set (List.map_filter am_movement_id edges)"

definition tx_of :: "EconomicAction list \<Rightarrow> TokenMovement list \<Rightarrow> string" where
  "tx_of actions movements = lower (case actions of
     a # _ \<Rightarrow> ea_tx_hash a | [] \<Rightarrow> (case movements of m # _ \<Rightarrow> tm_tx_hash m | [] \<Rightarrow> ''''))"

definition match_tx_economics :: "EconomicAction list \<Rightarrow> TokenMovement list
    \<Rightarrow> (string \<times> int) list option \<Rightarrow> TxReconciliation" where
  "match_tx_economics actions movements pool_balance_deltas =
     (if actions = [] \<and> movements = []
      then \<lparr>tr_chain_id = 0, tr_block_number = 0, tr_tx_hash = '''', tr_edges = [], tr_actions_total = 0,
            tr_movements_total = 0, tr_unmatched_actions = 0, tr_unexpected_movements = 0,
            tr_overall_status = EXACT\<rparr>
      else let chain_id = (case actions of a # _ \<Rightarrow> ea_chain_id a | [] \<Rightarrow> tm_chain_id (hd movements));
               block_number = (case actions of a # _ \<Rightarrow> ea_block_number a | [] \<Rightarrow> tm_block_number (hd movements));
               tx_hash = tx_of actions movements;
               matched = action_edges actions movements;
               unexpected = unexpected_edges tx_hash (matched_ids matched) 0 movements;
               edges = matched @ unexpected
      in \<lparr>tr_chain_id = chain_id, tr_block_number = block_number, tr_tx_hash = tx_hash, tr_edges = edges,
          tr_actions_total = int (length actions), tr_movements_total = int (length movements),
          tr_unmatched_actions = int (length (filter (\<lambda>e. am_status e = UNMATCHED) edges)),
          tr_unexpected_movements = int (length unexpected),
          tr_overall_status = rollup_status edges\<rparr>)"

section \<open>Reconciling a partition\<close>

definition all_statuses :: "Status list" where
  "all_statuses = [EXACT, PARTIAL, UNMATCHED, NOT_EXPECTED, UNEXPECTED, AMBIGUOUS]"

definition sorted_tx_hashes :: "(string \<times> 'a) list \<Rightarrow> (string \<times> 'b) list \<Rightarrow> string list" where
  "sorted_tx_hashes actions_by_tx movements_by_tx =
     sort (remdups (map fst actions_by_tx @ map fst movements_by_tx))"

definition partition_fields :: "int \<times> int \<times> int \<Rightarrow> string list" where
  "partition_fields p = [show_int (fst p), show_int (fst (snd p)), show_int (snd (snd p))]"

definition compute_partition_id :: "int \<times> int \<times> int \<Rightarrow> string" where
  "compute_partition_id p = sha256_hex (canonical_key ''partition'' (partition_fields p))"

interpretation partition_id: hashed_id compute_partition_id "''partition''" partition_fields
  by unfold_locales (simp_all add: compute_partition_id_def)

definition reconcile_tx :: "(string \<times> EconomicAction list) list \<Rightarrow> (string \<times> TokenMovement list) list
    \<Rightarrow> string \<Rightarrow> TxReconciliation" where
  "reconcile_tx actions_by_tx movements_by_tx tx_hash =
     match_tx_economics (dict_get_or actions_by_tx tx_hash []) (dict_get_or movements_by_tx tx_hash []) None"

definition count_status :: "TxReconciliation \<Rightarrow> (Status \<times> int) list \<Rightarrow> (Status \<times> int) list" where
  "count_status recon counts =
     AList.update (tr_overall_status recon) (dict_get_or counts (tr_overall_status recon) 0 + 1) counts"

definition reconcile_partition :: "int \<Rightarrow> int \<Rightarrow> int \<Rightarrow> (string \<times> EconomicAction list) list
    \<Rightarrow> (string \<times> TokenMovement list) list \<Rightarrow> PartitionReconciliation" where
  "reconcile_partition chain_id from_block to_block actions_by_tx movements_by_tx =
     (let tx_recons = map (reconcile_tx actions_by_tx movements_by_tx)
            (sorted_tx_hashes actions_by_tx movements_by_tx);
          counts_by_status = fold count_status tx_recons (map (\<lambda>s. (s, 0)) all_statuses);
          total = length tx_recons;
          pass_count = dict_get_or counts_by_status EXACT 0 + dict_get_or counts_by_status NOT_EXPECTED 0
      in \<lparr>pn_partition_id = compute_partition_id (chain_id, from_block, to_block), pn_chain_id = chain_id,
          pn_block_range = (from_block, to_block), pn_tx_recons = tx_recons,
          pn_pass_rate = (if total > 0 then nearest_double (of_int pass_count / of_nat total) else 1),
          pn_counts_by_status = counts_by_status\<rparr>)"

definition opt_text :: "string option \<Rightarrow> pyval" where
  "opt_text v = (case v of None \<Rightarrow> PNone | Some s \<Rightarrow> PStr s)"

text \<open>The rows of \<open>edges.json\<close>; a JSON file is the value it encodes.\<close>

definition edge_row :: "string \<Rightarrow> ActionMovementMatch \<Rightarrow> pydict" where
  "edge_row run_partition_id e =
     [(''edge_id'', PStr (am_edge_id e)), (''action_id'', opt_text (am_action_id e)),
      (''movement_id'', opt_text (am_movement_id e)),
      (''allocated_amount'', PInt (am_allocated_amount e)),
      (''status'', PStr (status_value (am_status e))),
      (''method'', opt_text (map_option method_value (am_method e))),
      (''reason'', PStr (am_reason e)), (''run_partition_id'', PStr run_partition_id)]"

definition write_reconciliation_outputs :: "ActionMovementMatch list \<Rightarrow> TxReconciliation list
    \<Rightarrow> PartitionReconciliation \<Rightarrow> string \<Rightarrow> string \<Rightarrow> (string \<times> pyval) list \<Rightarrow> WriteResult \<times> (string \<times> pyval) list" where
  "write_reconciliation_outputs edges tx_recons partition_recon gcs_path run_partition_id files =
     (\<lparr>wr_gcs_path = gcs_path, wr_rows = int (length edges + length tx_recons + 1), wr_bytes_written = 0,
       wr_run_partition_id = run_partition_id\<rparr>,
      if starts_with gcs_path ''gs://'' then files
      else AList.update (gcs_path @ ''/edges.json'')
        (PList (map (\<lambda>e. PDict (edge_row run_partition_id e)) edges)) files)"

section \<open>The search for a subset\<close>

lemma combos_iff: "ys \<in> set (combos k xs) \<longleftrightarrow> subseq ys xs \<and> length ys = k"
proof (induction k xs arbitrary: ys rule: combos.induct)
  case (3 k x xs)
  show ?case
  proof (cases ys)
    case (Cons y zs)
    have "ys \<in> set (combos (Suc k) (x # xs)) \<longleftrightarrow>
        (y = x \<and> subseq zs xs \<and> length zs = k) \<or> (subseq ys xs \<and> length ys = Suc k)"
      using Cons "3.IH" by auto
    also have "\<dots> \<longleftrightarrow> subseq ys (x # xs) \<and> length ys = Suc k"
      using Cons by (auto simp: subseq_Cons2_iff dest: subseq_Cons')
    finally show ?thesis .
  qed (use "3.IH" in auto)
qed auto

lemma search_sizes_Some:
  "search_sizes ks ms t = Some s \<Longrightarrow> subseq s ms \<and> length s \<in> set ks \<and> total_amount s = t
    \<and> (\<forall>k \<in> set (takeWhile (\<lambda>k. k \<noteq> length s) ks). \<forall>u. subseq u ms \<longrightarrow> length u = k \<longrightarrow> total_amount u \<noteq> t)"
proof (induction ks)
  case (Cons k ks)
  show ?case
  proof (cases "find (\<lambda>c. total_amount c = t) (combos k ms)")
    case None
    then have none: "\<forall>u. subseq u ms \<longrightarrow> length u = k \<longrightarrow> total_amount u \<noteq> t"
      by (auto simp: find_None_iff combos_iff)
    with Cons None show ?thesis by auto
  next
    case (Some c)
    then have "c \<in> set (combos k ms)" "total_amount c = t" by (auto dest: find_SomeD)
    with Cons.prems Some show ?thesis by (simp add: combos_iff)
  qed
qed simp

lemma search_sizes_None:
  "search_sizes ks ms t = None \<longleftrightarrow> (\<forall>u. subseq u ms \<longrightarrow> length u \<in> set ks \<longrightarrow> total_amount u \<noteq> t)"
proof (induction ks)
  case (Cons k ks)
  have "find (\<lambda>c. total_amount c = t) (combos k ms) = None \<longleftrightarrow>
      (\<forall>u. subseq u ms \<longrightarrow> length u = k \<longrightarrow> total_amount u \<noteq> t)"
    by (auto simp: find_None_iff combos_iff)
  with Cons show ?case by (auto split: option.split)
qed simp

lemma takeWhile_upt: "i \<le> n \<Longrightarrow> n < j \<Longrightarrow> takeWhile (\<lambda>k. k \<noteq> n) [i..<j] = [i..<n]"
proof -
  assume h: "i \<le> n" "n < j"
  then have "[i..<j] = [i..<n] @ n # [Suc n..<j]"
    using upt_add_eq_append [of i n "j - n"] upt_conv_Cons [of n j] by simp
  then show ?thesis by (simp add: takeWhile_append)
qed

lemma find_subset_Some:
  assumes "find_subset_summing_to ms t n = Some s"
  shows "subseq s ms \<and> total_amount s = t \<and> 0 < t \<and> 2 \<le> length s \<and> length s \<le> n
    \<and> (\<forall>u. subseq u ms \<longrightarrow> 2 \<le> length u \<longrightarrow> length u < length s \<longrightarrow> total_amount u \<noteq> t)"
proof -
  have t: "0 < t" and "search_sizes [2..<min n (length ms) + 1] ms t = Some s"
    using assms by (auto simp: find_subset_summing_to_def split: if_splits)
  from search_sizes_Some [OF this(2)] have s: "subseq s ms" "length s \<in> set [2..<min n (length ms) + 1]"
    "total_amount s = t" and small: "\<forall>k \<in> set (takeWhile (\<lambda>k. k \<noteq> length s) [2..<min n (length ms) + 1]).
      \<forall>u. subseq u ms \<longrightarrow> length u = k \<longrightarrow> total_amount u \<noteq> t" by blast+
  have "takeWhile (\<lambda>k. k \<noteq> length s) [2..<min n (length ms) + 1] = [2..<length s]"
    by (rule takeWhile_upt) (use s(2) in auto)
  with small t s show ?thesis by auto
qed

lemma find_subset_None:
  assumes "0 < t"
  shows "find_subset_summing_to ms t n = None \<longleftrightarrow>
    (\<forall>u. subseq u ms \<longrightarrow> 2 \<le> length u \<longrightarrow> length u \<le> n \<longrightarrow> total_amount u \<noteq> t)"
proof (cases "ms = []")
  case True
  then show ?thesis by (auto simp: find_subset_summing_to_def dest: list_emb_length)
next
  case False
  have "find_subset_summing_to ms t n = None \<longleftrightarrow>
      (\<forall>u. subseq u ms \<longrightarrow> length u \<in> set [2..<min n (length ms) + 1] \<longrightarrow> total_amount u \<noteq> t)"
    using False assms by (simp add: find_subset_summing_to_def search_sizes_None)
  also have "\<dots> \<longleftrightarrow> (\<forall>u. subseq u ms \<longrightarrow> 2 \<le> length u \<longrightarrow> length u \<le> n \<longrightarrow> total_amount u \<noteq> t)"
  proof -
    have "length u \<in> set [2..<min n (length ms) + 1] \<longleftrightarrow> 2 \<le> length u \<and> length u \<le> n" if "subseq u ms" for u
      using list_emb_length [OF that] by auto
    then show ?thesis by blast
  qed
  finally show ?thesis .
qed

section \<open>Edges of one action\<close>

lemma edge_simps [simp]:
  "am_action_id (no_movement_edge a s r) = Some (ea_action_id a)"
  "am_movement_id (no_movement_edge a s r) = None"
  "am_status (no_movement_edge a s r) = s"
  "am_allocated_amount (no_movement_edge a s r) = 0"
  "am_method (no_movement_edge a s r) = None"
  "am_action_id (movement_edge a m s i r) = Some (ea_action_id a)"
  "am_movement_id (movement_edge a m s i r) = Some (tm_movement_id m)"
  "am_status (movement_edge a m s i r) = s"
  "am_allocated_amount (movement_edge a m s i r) = tm_amount m"
  "am_method (movement_edge a m s i r) = Some (method_for_movement m)"
  by (simp_all add: no_movement_edge_def movement_edge_def)

lemma partial_edges_maps:
  "map am_status (partial_edges a n i ms) = replicate (length ms) PARTIAL"
  "map am_movement_id (partial_edges a n i ms) = map (\<lambda>m. Some (tm_movement_id m)) ms"
  "map am_allocated_amount (partial_edges a n i ms) = map tm_amount ms"
  "map am_action_id (partial_edges a n i ms) = replicate (length ms) (Some (ea_action_id a))"
  by (induction ms arbitrary: i) simp_all

text \<open>The four outcomes of matching, with what decides between them.\<close>

definition expects_movement :: "EconomicAction \<Rightarrow> bool" where
  "expects_movement a = (ea_kind a \<notin> {UNSTAKE_REQUESTED, REWARD_ACCRUED, POOL_CONFIG_CHANGED})"

lemma expects_iff: "(kind_value (ea_kind a) \<in> set NOT_EXPECTED_KINDS) = (\<not> expects_movement a)"
  by (cases "ea_kind a") (simp_all add: NOT_EXPECTED_KINDS_def expects_movement_def)

definition exact_candidates :: "EconomicAction \<Rightarrow> TokenMovement list \<Rightarrow> TokenMovement list" where
  "exact_candidates a ms = filter (\<lambda>m. tm_amount m = ea_amount_link a) (candidates a ms)"

definition batch_exists :: "EconomicAction \<Rightarrow> TokenMovement list \<Rightarrow> bool" where
  "batch_exists a ms = (\<exists>u. subseq u (candidates a ms) \<and> 2 \<le> length u \<and> length u \<le> 6
     \<and> total_amount u = ea_amount_link a)"

lemma match_cases:
  obtains (not_expected) r where "\<not> expects_movement a"
      "match_action_to_movements a ms = [no_movement_edge a NOT_EXPECTED r]"
  | (exact) m r where "expects_movement a" "exact_candidates a ms = [m]"
      "match_action_to_movements a ms = [movement_edge a m EXACT 0 r]"
  | (ambiguous) m m' rest r where "expects_movement a" "exact_candidates a ms = m # m' # rest"
      "match_action_to_movements a ms = [movement_edge a m AMBIGUOUS 0 r]"
  | (partial) u where "expects_movement a" "exact_candidates a ms = []" "0 < ea_amount_link a"
      "find_subset_summing_to (candidates a ms) (ea_amount_link a) 6 = Some u"
      "match_action_to_movements a ms = partial_edges a (length u) 0 u"
  | (unmatched) r where "expects_movement a" "exact_candidates a ms = []"
      "ea_amount_link a \<le> 0 \<or> find_subset_summing_to (candidates a ms) (ea_amount_link a) 6 = None"
      "match_action_to_movements a ms = [no_movement_edge a UNMATCHED r]"
proof (cases "expects_movement a")
  case False
  then show ?thesis using not_expected by (simp add: match_action_to_movements_def expects_iff)
next
  case True
  then have ne: "kind_value (ea_kind a) \<notin> set NOT_EXPECTED_KINDS" by (simp add: expects_iff)
  show ?thesis
  proof (cases "candidates a ms = []")
    case True
    then show ?thesis using unmatched ne \<open>expects_movement a\<close>
      by (simp add: match_action_to_movements_def exact_candidates_def find_subset_summing_to_def)
  next
    case cands: False
    show ?thesis
    proof (cases "exact_candidates a ms")
      case (Cons m rest)
      then show ?thesis using exact ambiguous ne \<open>expects_movement a\<close> cands
        by (cases rest) (simp_all add: match_action_to_movements_def exact_candidates_def Let_def)
    next
      case Nil
      show ?thesis
      proof (cases "if ea_amount_link a > 0
          then find_subset_summing_to (candidates a ms) (ea_amount_link a) 6 else None")
        case None
        then show ?thesis using unmatched ne \<open>expects_movement a\<close> cands Nil
          by (auto simp: match_action_to_movements_def exact_candidates_def Let_def split: if_splits)
      next
        case (Some u)
        then have u: "0 < ea_amount_link a" "find_subset_summing_to (candidates a ms) (ea_amount_link a) 6 = Some u"
          by (simp_all split: if_splits)
        moreover have "2 \<le> length u" using find_subset_Some [OF u(2)] by simp
        ultimately show ?thesis using partial ne \<open>expects_movement a\<close> cands Nil
          by (simp add: match_action_to_movements_def exact_candidates_def Let_def)
      qed
    qed
  qed
qed

section \<open>Edges of a transaction\<close>

lemma match_not_Nil: "match_action_to_movements a ms \<noteq> []"
proof (cases rule: match_cases [of a ms])
  case (partial u)
  then have "u \<noteq> []" using find_subset_Some [of "candidates a ms"] by fastforce
  with partial show ?thesis by (cases u) simp_all
qed simp_all

lemma match_action_id:
  assumes "e \<in> set (match_action_to_movements a ms)"
  shows "am_action_id e = Some (ea_action_id a)"
  using assms
proof (cases rule: match_cases [of a ms])
  case (partial u)
  have "am_action_id e \<in> set (map am_action_id (match_action_to_movements a ms))" using assms by simp
  then show ?thesis unfolding partial(5) partial_edges_maps by simp
qed simp_all

lemma match_status:
  assumes "e \<in> set (match_action_to_movements a ms)"
  shows "am_status e \<noteq> UNEXPECTED"
  using assms
proof (cases rule: match_cases [of a ms])
  case (partial u)
  have "am_status e \<in> set (map am_status (match_action_to_movements a ms))" using assms by simp
  then show ?thesis unfolding partial(5) partial_edges_maps by simp
qed simp_all

lemma subseq_subset: "subseq xs ys \<Longrightarrow> set xs \<subseteq> set ys"
  by (metis subseq_conv_nths set_nths_subset)

lemma exact_candidate: "m \<in> set (exact_candidates a ms) \<Longrightarrow>
    m \<in> set ms \<and> lower (tm_tx_hash m) = lower (ea_tx_hash a) \<and> 0 < tm_amount m"
  by (auto simp: exact_candidates_def candidates_def)

lemma match_movement_id:
  assumes "e \<in> set (match_action_to_movements a ms)" "am_movement_id e = Some i"
  shows "\<exists>m \<in> set ms. tm_movement_id m = i \<and> am_allocated_amount e = tm_amount m
    \<and> lower (tm_tx_hash m) = lower (ea_tx_hash a) \<and> 0 < tm_amount m"
  using assms
proof (cases rule: match_cases [of a ms])
  case (partial u)
  have "subseq u (candidates a ms)" using find_subset_Some [OF partial(4)] by simp
  then have u: "set u \<subseteq> set (candidates a ms)" by (rule subseq_subset)
  have "(am_movement_id e, am_allocated_amount e) \<in>
      set (zip (map am_movement_id (partial_edges a (length u) 0 u))
               (map am_allocated_amount (partial_edges a (length u) 0 u)))"
    using assms(1) unfolding partial(5) by (auto simp: zip_map_map zip_same_conv_map)
  then obtain m where "m \<in> set u" "am_movement_id e = Some (tm_movement_id m)"
    "am_allocated_amount e = tm_amount m"
    unfolding partial_edges_maps by (auto simp: zip_map_map zip_same_conv_map)
  with u assms(2) show ?thesis by (auto simp: candidates_def)
next
  case (exact m r)
  then show ?thesis using exact_candidate [of m a ms] assms by auto
next
  case (ambiguous m m' rest r)
  then show ?thesis using exact_candidate [of m a ms] assms by auto
qed simp_all

lemma unexpected_edges_props:
  "e \<in> set (unexpected_edges tx ids i ms) \<Longrightarrow> am_status e = UNEXPECTED \<and> am_action_id e = None
    \<and> (\<exists>m \<in> set ms. am_movement_id e = Some (tm_movement_id m) \<and> am_allocated_amount e = tm_amount m
        \<and> lower (tm_tx_hash m) = tx \<and> tm_movement_id m \<notin> ids)"
  by (induction ms arbitrary: i) (auto split: if_splits)

lemma unexpected_edges_ids:
  "map am_movement_id (unexpected_edges tx ids i ms) =
     map (\<lambda>m. Some (tm_movement_id m)) (filter (\<lambda>m. lower (tm_tx_hash m) = tx \<and> tm_movement_id m \<notin> ids) ms)"
  by (induction ms arbitrary: i) simp_all

lemma matched_ids_iff: "i \<in> matched_ids es \<longleftrightarrow> Some i \<in> set (map am_movement_id es)"
  by (induction es) (auto simp: matched_ids_def map_filter_simps split: option.splits)

lemma match_tx_edges:
  "actions \<noteq> [] \<or> movements \<noteq> [] \<Longrightarrow> tr_edges (match_tx_economics actions movements d) =
     action_edges actions movements @ unexpected_edges (tx_of actions movements)
       (matched_ids (action_edges actions movements)) 0 movements"
  by (auto simp: match_tx_economics_def Let_def)

section \<open>Priorities\<close>

fun severity :: "Status \<Rightarrow> nat" where
  "severity EXACT = 0"
| "severity NOT_EXPECTED = 1"
| "severity PARTIAL = 2"
| "severity AMBIGUOUS = 3"
| "severity UNEXPECTED = 4"
| "severity UNMATCHED = 5"

lemma rollup_worst:
  "edges \<noteq> [] \<Longrightarrow> rollup_status edges \<in> set (map am_status edges)
    \<and> (\<forall>e \<in> set edges. severity (am_status e) \<le> severity (rollup_status edges))"
proof -
  assume "edges \<noteq> []"
  then obtain e where "e \<in> set edges" by (cases edges) auto
  then have e: "am_status e \<in> set (map am_status edges)" by simp
  let ?S = "set (map am_status edges)"
  have "s \<in> set status_priority" for s by (cases s) (simp_all add: status_priority_def)
  then have "find (\<lambda>s. s \<in> ?S) status_priority \<noteq> None" using e unfolding find_None_iff by blast
  then have some: "find (\<lambda>s. s \<in> ?S) status_priority = Some (rollup_status edges)"
    by (auto simp: rollup_status_def simp del: set_map)
  have "severity s \<le> severity (rollup_status edges)" if "s \<in> ?S" for s
    using some that by (cases s) (auto simp: status_priority_def simp del: set_map split: if_splits)
  with some show ?thesis by (auto dest: find_SomeD)
qed

section \<open>Properties\<close>

text \<open>C6: the subset search is sound, complete and minimal: it answers a subsequence of two to
  \<open>max_size\<close> movements that sums to a positive target, no shorter one of at least two does, and it
  answers none exactly when there is none.\<close>

theorem subset_search_exact:
  "case find_subset_summing_to movements target max_size of
     Some found \<Rightarrow> subseq found movements \<and> total_amount found = target \<and> 0 < target
       \<and> length found \<in> {2..max_size}
       \<and> (\<nexists>u. subseq u movements \<and> length u \<in> {2..<length found} \<and> total_amount u = target)
   | None \<Rightarrow> \<not> (0 < target \<and> (\<exists>u. subseq u movements \<and> length u \<in> {2..max_size} \<and> total_amount u = target))"
proof (cases "find_subset_summing_to movements target max_size")
  case None
  then show ?thesis using find_subset_None [of target movements max_size] by (cases "0 < target") auto
next
  case (Some found)
  from find_subset_Some [OF this] Some show ?thesis by auto
qed

text \<open>C2: the outcome of one action, on every branch. Every action gets edges of one status; the
  allocated amounts add up to the amount of the action when movements were found (\<open>EXACT\<close>: one
  movement of the transaction has that amount; \<open>AMBIGUOUS\<close>: several have it; \<open>PARTIAL\<close>: two to six
  movements, none of them equal to it, make it up) and to zero otherwise; \<open>UNMATCHED\<close> means that
  neither one movement nor two to six of them account for it. A \<open>PARTIAL\<close> outcome names the movements
  of the first set the search finds, also when other sets make up the amount as well: for that case
  the docstring and \<open>docs/data-model.md\<close> call for \<open>AMBIGUOUS\<close>, which the code gives to several single
  movements only.\<close>

theorem match_action_outcome:
  "\<exists>status. match_action_to_movements a ms \<noteq> [] \<and> list_all (\<lambda>e. am_status e = status) (match_action_to_movements a ms)
    \<and> sum_list (map am_allocated_amount (match_action_to_movements a ms)) =
        (if status \<in> {EXACT, AMBIGUOUS, PARTIAL} then ea_amount_link a else 0)
    \<and> (case status of
        NOT_EXPECTED \<Rightarrow> \<not> expects_movement a
      | EXACT \<Rightarrow> expects_movement a \<and> length (exact_candidates a ms) = 1
      | AMBIGUOUS \<Rightarrow> expects_movement a \<and> length (exact_candidates a ms) > 1
      | PARTIAL \<Rightarrow> expects_movement a \<and> exact_candidates a ms = [] \<and> batch_exists a ms
          \<and> (\<exists>u. find_subset_summing_to (candidates a ms) (ea_amount_link a) 6 = Some u
               \<and> map am_movement_id (match_action_to_movements a ms) = map (\<lambda>m. Some (tm_movement_id m)) u)
      | UNMATCHED \<Rightarrow> expects_movement a \<and> exact_candidates a ms = []
          \<and> \<not> (0 < ea_amount_link a \<and> batch_exists a ms)
      | UNEXPECTED \<Rightarrow> False)"
proof (cases rule: match_cases [of a ms])
  case (not_expected r)
  then show ?thesis by (intro exI [of _ NOT_EXPECTED]) (simp add: list_all_iff)
next
  case (exact m r)
  then have "m \<in> set (exact_candidates a ms)" by simp
  then have "tm_amount m = ea_amount_link a" by (simp add: exact_candidates_def)
  with exact show ?thesis by (intro exI [of _ EXACT]) (simp add: list_all_iff)
next
  case (ambiguous m m' rest r)
  then have "m \<in> set (exact_candidates a ms)" by simp
  then have "tm_amount m = ea_amount_link a" by (simp add: exact_candidates_def)
  with ambiguous show ?thesis by (intro exI [of _ AMBIGUOUS]) (simp add: list_all_iff)
next
  case (partial u)
  note u = find_subset_Some [OF partial(4)]
  have "am_status e = PARTIAL" if "e \<in> set (partial_edges a (length u) 0 u)" for e
  proof -
    have "am_status e \<in> set (map am_status (partial_edges a (length u) 0 u))" using that by simp
    then show ?thesis unfolding partial_edges_maps by simp
  qed
  moreover have "sum_list (map am_allocated_amount (partial_edges a (length u) 0 u)) = ea_amount_link a"
    unfolding partial_edges_maps using u by (simp add: total_amount_def)
  moreover have "batch_exists a ms" using u unfolding batch_exists_def by blast
  moreover have "map am_movement_id (partial_edges a (length u) 0 u) = map (\<lambda>m. Some (tm_movement_id m)) u"
    by (simp add: partial_edges_maps)
  ultimately show ?thesis using partial match_not_Nil [of a ms] by (intro exI [of _ PARTIAL]) (simp add: list_all_iff)
next
  case (unmatched r)
  then have "\<not> (0 < ea_amount_link a \<and> batch_exists a ms)"
    using find_subset_None [of "ea_amount_link a" "candidates a ms" 6] by (auto simp: batch_exists_def)
  with unmatched show ?thesis by (intro exI [of _ UNMATCHED]) (simp add: list_all_iff)
qed

lemma action_edges_props:
  assumes "e \<in> set (action_edges actions movements)"
  shows "am_action_id e \<in> Some ` ea_action_id ` set actions \<and> am_status e \<noteq> UNEXPECTED
    \<and> am_movement_id e \<in> {None} \<union> Some ` tm_movement_id ` set movements"
proof -
  obtain a where a: "a \<in> set actions" "e \<in> set (match_action_to_movements a movements)"
    using assms by (auto simp: action_edges_def)
  then show ?thesis
    using match_action_id [OF a(2)] match_status [OF a(2)] match_movement_id [OF a(2)]
    by (cases "am_movement_id e") auto
qed

lemma action_has_edge:
  assumes "a \<in> set actions"
  shows "\<exists>e \<in> set (action_edges actions movements). am_action_id e = Some (ea_action_id a)"
proof -
  obtain e where "e \<in> set (match_action_to_movements a movements)"
    using match_not_Nil [of a movements] by (cases "match_action_to_movements a movements") auto
  with assms match_action_id [of e a movements] show ?thesis by (auto simp: action_edges_def)
qed

lemma movement_has_edge:
  assumes "m \<in> set movements" "lower (tm_tx_hash m) = tx"
  shows "\<exists>e \<in> set (A @ unexpected_edges tx (matched_ids A) 0 movements). am_movement_id e = Some (tm_movement_id m)"
proof (cases "tm_movement_id m \<in> matched_ids A")
  case True
  then show ?thesis by (auto simp: matched_ids_iff)
next
  case False
  then have "Some (tm_movement_id m) \<in> set (map am_movement_id (unexpected_edges tx (matched_ids A) 0 movements))"
    unfolding unexpected_edges_ids using assms by auto
  then show ?thesis by auto
qed

lemma unexpected_edge_shape:
  assumes "e \<in> set (unexpected_edges tx ids n movements)"
  shows "am_action_id e = None \<and> am_status e = UNEXPECTED
    \<and> am_movement_id e \<in> {None} \<union> Some ` tm_movement_id ` set movements"
  using unexpected_edges_props [OF assms] by auto

text \<open>A movement is reported as unexpected exactly when no action took it.\<close>

lemma unexpected_iff:
  assumes "\<forall>m \<in> set movements. lower (tm_tx_hash m) = tx" "m \<in> set movements"
  shows "(\<exists>e \<in> set (action_edges actions movements @ unexpected_edges tx (matched_ids (action_edges actions movements)) 0 movements).
      am_status e = UNEXPECTED \<and> am_movement_id e = Some (tm_movement_id m))
    = (\<nexists>a. a \<in> set actions \<and> Some (tm_movement_id m) \<in> am_movement_id ` set (match_action_to_movements a movements))"
proof -
  let ?A = "action_edges actions movements"
  let ?U = "unexpected_edges tx (matched_ids ?A) 0 movements"
  have "(\<exists>e \<in> set (?A @ ?U). am_status e = UNEXPECTED \<and> am_movement_id e = Some (tm_movement_id m)) =
      (\<exists>e \<in> set ?U. am_movement_id e = Some (tm_movement_id m))"
    using action_edges_props [of _ actions movements] unexpected_edges_props [of _ tx "matched_ids ?A" 0 movements]
    by (metis UnE UnI2 set_append)
  also have "\<dots> = (Some (tm_movement_id m) \<in> set (map am_movement_id ?U))" unfolding set_map image_iff by metis
  also have "\<dots> = (tm_movement_id m \<notin> matched_ids ?A)"
    unfolding unexpected_edges_ids using assms by auto
  also have "\<dots> = (Some (tm_movement_id m) \<notin> am_movement_id ` set ?A)" by (simp add: matched_ids_iff)
  also have "\<dots> = (\<nexists>a. a \<in> set actions \<and> Some (tm_movement_id m) \<in> am_movement_id ` set (match_action_to_movements a movements))"
    by (auto simp: action_edges_def)
  finally show ?thesis .
qed

lemma match_tx_totals:
  assumes "actions \<noteq> [] \<or> movements \<noteq> []"
  shows "let recon = match_tx_economics actions movements deltas; edges = tr_edges recon in
    tr_unexpected_movements recon = int (length (filter (\<lambda>e. am_status e = UNEXPECTED) edges))
    \<and> tr_unmatched_actions recon = int (length (filter (\<lambda>e. am_status e = UNMATCHED) edges))
    \<and> tr_overall_status recon = rollup_status edges"
proof -
  let ?A = "action_edges actions movements"
  let ?U = "unexpected_edges (tx_of actions movements) (matched_ids ?A) 0 movements"
  have "filter (\<lambda>e. am_status e = UNEXPECTED) ?A = []"
    using action_edges_props [of _ actions movements] by (auto simp: filter_empty_conv)
  moreover have "filter (\<lambda>e. am_status e = UNEXPECTED) ?U = ?U"
    using unexpected_edge_shape by (simp add: filter_id_conv)
  ultimately have "length ?U = length (filter (\<lambda>e. am_status e = UNEXPECTED) (?A @ ?U))" by simp
  then show ?thesis
    using assms match_tx_edges [OF assms, of deltas] by (auto simp: match_tx_economics_def Let_def)
qed

text \<open>C1: the reconciliation of a transaction leaves nothing out and invents nothing: every action has
  an edge, every movement of the transaction is named by one, every edge names a given action or
  movement, a movement is reported as unexpected exactly when no action took it, and the overall
  status is the worst status of an edge.\<close>

theorem match_tx_complete:
  assumes "actions \<noteq> [] \<or> movements \<noteq> []"
    and "\<forall>a \<in> set actions. lower (ea_tx_hash a) = tx" "\<forall>m \<in> set movements. lower (tm_tx_hash m) = tx"
  shows "let recon = match_tx_economics actions movements deltas; edges = tr_edges recon in
    (\<forall>a \<in> set actions. \<exists>e \<in> set edges. am_action_id e = Some (ea_action_id a))
    \<and> (\<forall>m \<in> set movements. \<exists>e \<in> set edges. am_movement_id e = Some (tm_movement_id m))
    \<and> (\<forall>e \<in> set edges. am_action_id e \<in> {None} \<union> Some ` ea_action_id ` set actions
        \<and> am_movement_id e \<in> {None} \<union> Some ` tm_movement_id ` set movements)
    \<and> (\<forall>e \<in> set edges. (am_status e = UNEXPECTED) = (am_action_id e = None))
    \<and> (\<forall>m \<in> set movements. (\<exists>e \<in> set edges. am_status e = UNEXPECTED \<and> am_movement_id e = Some (tm_movement_id m))
        = (\<nexists>a. a \<in> set actions \<and> Some (tm_movement_id m) \<in> am_movement_id ` set (match_action_to_movements a movements)))
    \<and> tr_unexpected_movements recon = int (length (filter (\<lambda>e. am_status e = UNEXPECTED) edges))
    \<and> tr_unmatched_actions recon = int (length (filter (\<lambda>e. am_status e = UNMATCHED) edges))
    \<and> tr_overall_status recon \<in> am_status ` set edges
    \<and> (\<forall>e \<in> set edges. severity (am_status e) \<le> severity (tr_overall_status recon))"
proof -
  let ?A = "action_edges actions movements"
  let ?U = "unexpected_edges tx (matched_ids ?A) 0 movements"
  have "tx_of actions movements = tx"
    using assms by (cases actions; cases movements) (auto simp: tx_of_def)
  then have edges: "tr_edges (match_tx_economics actions movements deltas) = ?A @ ?U"
    using match_tx_edges [OF assms(1)] by simp
  note act = action_has_edge [of _ actions movements] and A = action_edges_props [of _ actions movements]
  note U = unexpected_edge_shape [of _ tx "matched_ids ?A" 0 movements]
  have mov: "\<forall>m \<in> set movements. \<exists>e \<in> set (?A @ ?U). am_movement_id e = Some (tm_movement_id m)"
    using movement_has_edge assms(3) by blast
  have ne: "?A @ ?U \<noteq> []"
    using assms(1) act mov by (cases actions; cases movements) fastforce+
  have 1: "\<forall>a \<in> set actions. \<exists>e \<in> set (?A @ ?U). am_action_id e = Some (ea_action_id a)"
    using act by (metis UnI1 set_append)
  have 2: "\<forall>e \<in> set (?A @ ?U). am_action_id e \<in> {None} \<union> Some ` ea_action_id ` set actions
        \<and> am_movement_id e \<in> {None} \<union> Some ` tm_movement_id ` set movements"
    using A U by (metis (no_types, lifting) UnCI UnE insertI1 set_append)
  have 3: "\<forall>e \<in> set (?A @ ?U). (am_status e = UNEXPECTED) = (am_action_id e = None)"
    using A U by (metis (no_types, lifting) UnE imageE option.distinct(1) set_append)
  have 4: "\<forall>m \<in> set movements. (\<exists>e \<in> set (?A @ ?U). am_status e = UNEXPECTED \<and> am_movement_id e = Some (tm_movement_id m))
        = (\<nexists>a. a \<in> set actions \<and> Some (tm_movement_id m) \<in> am_movement_id ` set (match_action_to_movements a movements))"
    using unexpected_iff [OF assms(3)] by blast
  note totals = match_tx_totals [OF assms(1), of deltas, unfolded Let_def edges]
  show ?thesis
    unfolding Let_def edges using totals 1 2 3 4 mov rollup_worst [OF ne] by (simp only: set_map simp_thms) blast
qed

theorem match_tx_complete_witness:
  "let recon = match_tx_economics [sample_action ''a1'' STAKE 7]
       [(sample_movement ''m1'' ''log'' ''0xf'' ''l1'')\<lparr>tm_amount := 3\<rparr>,
        (sample_movement ''m2'' ''log'' ''0xf'' ''l2'')\<lparr>tm_amount := 4\<rparr>] None
   in (\<exists>e \<in> set (tr_edges recon). am_action_id e = Some ''a1'')
     \<and> (\<exists>e \<in> set (tr_edges recon). am_movement_id e = Some ''m2'')"
proof -
  let ?as = "[sample_action ''a1'' STAKE 7]"
  let ?ms = "[(sample_movement ''m1'' ''log'' ''0xf'' ''l1'')\<lparr>tm_amount := 3\<rparr>,
        (sample_movement ''m2'' ''log'' ''0xf'' ''l2'')\<lparr>tm_amount := 4\<rparr>]"
  have "?as \<noteq> [] \<or> ?ms \<noteq> []" "\<forall>a \<in> set ?as. lower (ea_tx_hash a) = lower ''0xaa''"
    "\<forall>m \<in> set ?ms. lower (tm_tx_hash m) = lower ''0xaa''"
    by (simp_all add: sample_action_def sample_movement_def)
  from match_tx_complete [OF this, of None] show ?thesis
    unfolding Let_def by (simp add: sample_action_def sample_movement_def)
qed

lemma count_status_get:
  "dict_get_or (fold count_status recons d) s 0 =
     dict_get_or d s 0 + int (length (filter (\<lambda>r. tr_overall_status r = s) recons))"
proof (induction recons arbitrary: d)
  case (Cons r recons)
  have "dict_get_or (count_status r d) s 0 =
      dict_get_or d s 0 + (if tr_overall_status r = s then 1 else 0)"
    by (simp add: count_status_def dict_get_or_def update_conv')
  with Cons [of "count_status r d"] show ?case by simp
qed simp

lemma partition_counts:
  "dict_get_or (pn_counts_by_status (reconcile_partition c f t as ms)) s 0 =
     int (length (filter (\<lambda>r. tr_overall_status r = s) (pn_tx_recons (reconcile_partition c f t as ms))))"
proof -
  have "dict_get_or (map (\<lambda>s. (s, 0)) all_statuses) s 0 = (0 :: int)"
    by (cases s) (simp_all add: all_statuses_def dict_get_or_def)
  then show ?thesis by (simp add: reconcile_partition_def Let_def count_status_get)
qed

lemma filter_or_length:
  "\<forall>x. \<not> (P x \<and> Q x) \<Longrightarrow> length (filter (\<lambda>x. P x \<or> Q x) xs) = length (filter P xs) + length (filter Q xs)"
  by (induction xs) auto

lemma length_filter_all: "length (filter P xs) = length xs \<longleftrightarrow> (\<forall>x \<in> set xs. P x)"
  by (metis filter_id_conv filter_True length_filter_less less_irrefl)

definition passing :: "TxReconciliation \<Rightarrow> bool" where
  "passing r = (tr_overall_status r \<in> {EXACT, NOT_EXPECTED})"

lemma partition_pass_rate:
  "let recons = pn_tx_recons (reconcile_partition c f t as ms) in
   pn_pass_rate (reconcile_partition c f t as ms) =
     (if recons = [] then 1
      else nearest_double (of_nat (length (filter passing recons)) / of_nat (length recons)))"
proof -
  let ?p = "reconcile_partition c f t as ms"
  let ?n = "\<lambda>s. dict_get_or (pn_counts_by_status ?p) s 0"
  have "length (filter passing (pn_tx_recons ?p)) =
      length (filter (\<lambda>r. tr_overall_status r = EXACT) (pn_tx_recons ?p)) +
      length (filter (\<lambda>r. tr_overall_status r = NOT_EXPECTED) (pn_tx_recons ?p))"
    unfolding passing_def insert_iff empty_iff simp_thms by (rule filter_or_length) simp
  then have "?n EXACT + ?n NOT_EXPECTED = int (length (filter passing (pn_tx_recons ?p)))"
    by (simp add: partition_counts)
  moreover have "pn_pass_rate ?p = (if length (pn_tx_recons ?p) > 0
      then nearest_double (of_int (?n EXACT + ?n NOT_EXPECTED) / of_nat (length (pn_tx_recons ?p))) else 1)"
    by (simp add: reconcile_partition_def Let_def)
  ultimately show ?thesis by (simp add: Let_def)
qed

text \<open>C18: the report of a partition: one reconciliation per transaction that has actions or movements,
  in the order of the hashes; the counts are those of the overall statuses; the pass rate is the
  double of the share of transactions that are \<open>EXACT\<close> or \<open>NOT_EXPECTED\<close> (one when there are none). It
  lies between 0 and 1, and up to \<open>2 ^ 53\<close> transactions it is 1 exactly when all of them pass. The code
  counts \<open>NOT_EXPECTED\<close> as passed where \<open>docs/data-model.md\<close> speaks of \<open>exact\<close> alone.\<close>

theorem partition_report:
  assumes "length (sorted_tx_hashes actions_by_tx movements_by_tx) \<le> 2 ^ 53"
  shows "let p = reconcile_partition chain_id from_block to_block actions_by_tx movements_by_tx;
       recons = pn_tx_recons p; hashes = sorted_tx_hashes actions_by_tx movements_by_tx;
       passes = (\<lambda>r. tr_overall_status r \<in> {EXACT, NOT_EXPECTED}) in
     recons = map (reconcile_tx actions_by_tx movements_by_tx) hashes
     \<and> set hashes = set (map fst actions_by_tx) \<union> set (map fst movements_by_tx)
     \<and> distinct hashes \<and> sorted hashes
     \<and> (\<forall>s. dict_get_or (pn_counts_by_status p) s 0 = int (length (filter (\<lambda>r. tr_overall_status r = s) recons)))
     \<and> pn_pass_rate p = (if recons = [] then 1
         else nearest_double (of_nat (length (filter passes recons)) / of_nat (length recons)))
     \<and> 0 \<le> pn_pass_rate p \<and> pn_pass_rate p \<le> 1
     \<and> (pn_pass_rate p = 1) = list_all passes recons"
proof -
  let ?p = "reconcile_partition chain_id from_block to_block actions_by_tx movements_by_tx"
  let ?r = "pn_tx_recons ?p"
  have recons: "?r = map (reconcile_tx actions_by_tx movements_by_tx)
      (sorted_tx_hashes actions_by_tx movements_by_tx)" by (simp add: reconcile_partition_def Let_def)
  have rate: "pn_pass_rate ?p =
      (if ?r = [] then 1 else nearest_double (of_nat (length (filter passing ?r)) / of_nat (length ?r)))"
    using partition_pass_rate [of chain_id from_block to_block] by (simp add: Let_def)
  have share: "?r = [] \<or> 0 \<le> pn_pass_rate ?p \<and> pn_pass_rate ?p \<le> 1
      \<and> (pn_pass_rate ?p = 1) = (length (filter passing ?r) = length ?r)"
    using nearest_double_share [of "int (length (filter passing ?r))" "int (length ?r)"] assms
    unfolding rate by (auto simp: recons)
  have "0 \<le> pn_pass_rate ?p \<and> pn_pass_rate ?p \<le> 1 \<and> (pn_pass_rate ?p = 1) = (\<forall>r \<in> set ?r. passing r)"
    using share rate by (cases "?r = []") (simp_all add: length_filter_all)
  moreover have "set (sorted_tx_hashes actions_by_tx movements_by_tx) =
      set (map fst actions_by_tx) \<union> set (map fst movements_by_tx)"
    "distinct (sorted_tx_hashes actions_by_tx movements_by_tx)"
    "sorted (sorted_tx_hashes actions_by_tx movements_by_tx)"
    by (simp_all add: sorted_tx_hashes_def)
  moreover have "(\<lambda>r. tr_overall_status r \<in> {EXACT, NOT_EXPECTED}) = passing"
    by (simp add: passing_def fun_eq_iff)
  ultimately show ?thesis unfolding Let_def partition_counts list_all_iff using recons rate by (simp only: simp_thms)
qed

theorem partition_report_witness:
  "pn_pass_rate (reconcile_partition 1 10 20 [(''0xaa'', [sample_action ''a1'' STAKE 7])] []) \<noteq> 1"
proof -
  have hashes: "sorted_tx_hashes [(''0xaa'', [sample_action ''a1'' STAKE 7])] [] = [''0xaa'']"
    by (simp add: sorted_tx_hashes_def)
  have status: "tr_overall_status (reconcile_tx [(''0xaa'', [sample_action ''a1'' STAKE 7])] [] ''0xaa'') = UNMATCHED"
    by (simp add: reconcile_tx_def match_tx_economics_def action_edges_def match_action_to_movements_def
      candidates_def sample_action_def NOT_EXPECTED_KINDS_def rollup_status_def status_priority_def Let_def dict_get_or_def)
  have "length (sorted_tx_hashes [(''0xaa'', [sample_action ''a1'' STAKE 7])] []) \<le> 2 ^ 53"
    unfolding hashes by simp
  from partition_report [OF this, of 1 10 20] show ?thesis
    unfolding Let_def hashes by (elim conjE) (simp add: status)
qed

text \<open>Nothing prevents two actions from claiming one movement: both are \<open>EXACT\<close>, the movement is
  allocated twice, and the transaction reconciles.\<close>

lemma movement_allocated_twice:
  "let recon = match_tx_economics [sample_action ''a1'' STAKE 5, sample_action ''a2'' STAKE 5]
       [sample_movement ''m1'' ''log'' ''0xf'' ''l1''] None
   in tr_overall_status recon = EXACT \<and> tr_unexpected_movements recon = 0
     \<and> map am_movement_id (tr_edges recon) = [Some ''m1'', Some ''m1'']
     \<and> sum_list (map am_allocated_amount (tr_edges recon)) = 10"
proof -
  have l: "lower ''0xaa'' = ''0xaa''" by code_simp
  show ?thesis
    by (simp add: match_tx_economics_def action_edges_def match_action_to_movements_def sample_action_def
      sample_movement_def candidates_def Let_def tx_of_def l NOT_EXPECTED_KINDS_def movement_edge_def
      matched_ids_def map_filter_simps rollup_status_def status_priority_def)
qed

text \<open>Two pairs of movements make up the amount: the code reports the first as \<open>PARTIAL\<close>, not \<open>AMBIGUOUS\<close>.\<close>

definition with_amount :: "string \<Rightarrow> int \<Rightarrow> TokenMovement" where
  "with_amount i n = (sample_movement i ''log'' ''0xf'' i)\<lparr>tm_amount := n\<rparr>"

lemma several_batches_are_partial:
  "let a = sample_action ''a1'' STAKE 5; ms = [with_amount ''m1'' 1, with_amount ''m2'' 4, with_amount ''m3'' 2, with_amount ''m4'' 3] in
    map am_status (match_action_to_movements a ms) = [PARTIAL, PARTIAL]
    \<and> map am_movement_id (match_action_to_movements a ms) = [Some ''m1'', Some ''m2'']
    \<and> sum_list (map tm_amount [with_amount ''m3'' 2, with_amount ''m4'' 3]) = ea_amount_link a"
proof -
  let ?ms = "[with_amount ''m1'' 1, with_amount ''m2'' 4, with_amount ''m3'' 2, with_amount ''m4'' 3]"
  have found: "find_subset_summing_to ?ms 5 6 = Some [with_amount ''m1'' 1, with_amount ''m2'' 4]" by code_simp
  have cands: "candidates (sample_action ''a1'' STAKE 5) ?ms = ?ms"
    by (simp add: candidates_def sample_action_def with_amount_def sample_movement_def tx_of_def)
  have act: "ea_amount_link (sample_action ''a1'' STAKE 5) = 5"
    "kind_value (ea_kind (sample_action ''a1'' STAKE 5)) \<notin> set NOT_EXPECTED_KINDS"
    "tm_amount (with_amount i n) = n" for i n
    by (simp_all add: sample_action_def NOT_EXPECTED_KINDS_def with_amount_def)
  show ?thesis unfolding Let_def match_action_to_movements_def cands
    by (simp add: found act) (simp add: with_amount_def sample_movement_def movement_edge_def)
qed

end
