(* ===== verification/Payment_Abstraction.thy ===== *)
theory Payment_Abstraction
  imports Event_Decoder Contract_Registry Double_Entry
begin

text \<open>
  \<open>protocols/payment_abstraction/semantics.py\<close> and \<open>ledger_builder.py\<close>: the fee events of Payment
  Abstraction become actions, actions become balanced ledger entries. The registry enters through
  its \<open>role\<close> function.
\<close>

section \<open>Actions\<close>

datatype PAActionKind = FEE_RECEIVED | SWAP_EXECUTED | RESERVES_DEPOSIT | SERVICE_FEE_FORWARDED
  | CONFIG_CHANGED

fun pa_kind_value :: "PAActionKind \<Rightarrow> string" where
  "pa_kind_value FEE_RECEIVED = ''pa_fee_received''"
| "pa_kind_value SWAP_EXECUTED = ''pa_swap_executed''"
| "pa_kind_value RESERVES_DEPOSIT = ''pa_reserves_deposit''"
| "pa_kind_value SERVICE_FEE_FORWARDED = ''pa_service_fee_forwarded''"
| "pa_kind_value CONFIG_CHANGED = ''pa_config_changed''"

definition PA_RESERVES_ADDRESS :: string where
  "PA_RESERVES_ADDRESS = ''0x5680681ed3767b96914ce741a308155c7fb9171d''"

definition PA_FEE_AGGREGATOR_ADDRESS :: string where
  "PA_FEE_AGGREGATOR_ADDRESS = ''0xd6e39d42acee7abcc460e6ea78a0844a0980e78f''"

definition PA_SWAP_AUTOMATOR_ADDRESS :: string where
  "PA_SWAP_AUTOMATOR_ADDRESS = ''0x36e827ba2b270535ca1b099a6ba2b280ddc0315e''"

definition PA_EVENT_NAME_TO_KIND :: "(string \<times> PAActionKind) list" where
  "PA_EVENT_NAME_TO_KIND = [
     (''FeeReceived'', FEE_RECEIVED), (''FeesReceived'', FEE_RECEIVED), (''FeeAggregated'', FEE_RECEIVED),
     (''SwapExecuted'', SWAP_EXECUTED), (''Swap'', SWAP_EXECUTED),
     (''Deposited'', RESERVES_DEPOSIT), (''ReservesDeposit'', RESERVES_DEPOSIT),
     (''Withdrawn'', RESERVES_DEPOSIT),
     (''ServiceFeeForwarded'', SERVICE_FEE_FORWARDED), (''Forwarded'', SERVICE_FEE_FORWARDED),
     (''ConfigSet'', CONFIG_CHANGED), (''ConfigUpdated'', CONFIG_CHANGED)]"

record PAEconomicAction =
  pa_action_id :: string
  pa_kind :: PAActionKind
  pa_chain_id :: int
  pa_block_number :: int
  pa_tx_hash :: string
  pa_log_index :: int
  pa_contract_address :: string
  pa_contract_role :: string
  pa_source_token :: "string option"
  pa_output_token :: "string option"
  pa_source_amount :: int
  pa_output_amount :: int
  pa_counterparty :: "string option"
  pa_source_event_signature :: string
  pa_raw_log_id :: string
  pa_decoded_event_id :: string

definition pa_action_fields :: "string \<times> PAActionKind \<Rightarrow> string list" where
  "pa_action_fields x = [fst x, pa_kind_value (snd x)]"

definition compute_pa_action_id :: "DecodedEvent \<Rightarrow> PAActionKind \<Rightarrow> string" where
  "compute_pa_action_id decoded kind =
     sha256_hex (canonical_key ''pa_action'' (pa_action_fields (de_decoded_event_id decoded, kind)))"

interpretation pa_action_id: hashed_id "\<lambda>x. sha256_hex (canonical_key ''pa_action'' (pa_action_fields x))"
  "''pa_action''" pa_action_fields
  by unfold_locales simp_all

fun pull_token :: "DecodedEvent \<Rightarrow> string list \<Rightarrow> string option" where
  "pull_token decoded [] = None"
| "pull_token decoded (n # names) =
     (let v = py_or (dict_get (de_indexed_params decoded) n) (dict_get (de_data_params decoded) n) in
      if v \<noteq> PNone then Some (lower (py_str v)) else pull_token decoded names)"

fun pull_amount :: "DecodedEvent \<Rightarrow> string list \<Rightarrow> int res" where
  "pull_amount decoded [] = Inr 0"
| "pull_amount decoded (n # names) =
     (if dict_get (de_indexed_params decoded) n \<noteq> PNone then py_int (dict_get (de_indexed_params decoded) n)
      else if dict_get (de_data_params decoded) n \<noteq> PNone then py_int (dict_get (de_data_params decoded) n)
      else pull_amount decoded names)"

definition classify_pa_event_as_action :: "DecodedEvent \<Rightarrow> (string \<Rightarrow> string option)
    \<Rightarrow> PAEconomicAction list res" where
  "classify_pa_event_as_action decoded role_of =
     (let role = (case role_of (de_contract_address decoded) of None \<Rightarrow> '''' | Some r \<Rightarrow> r) in
      if \<not> starts_with role ''pa_'' then Inr []
      else case map_of PA_EVENT_NAME_TO_KIND (de_event_name decoded) of
        None \<Rightarrow> Inr []
      | Some kind \<Rightarrow>
          rbind (pull_amount decoded [''sourceAmount'', ''amountIn'', ''amount'', ''value'']) (\<lambda>source_amount.
          rbind (pull_amount decoded [''outputAmount'', ''amountOut'', ''linkAmount'']) (\<lambda>output_amount.
          Inr [\<lparr>pa_action_id = compute_pa_action_id decoded kind, pa_kind = kind,
            pa_chain_id = de_chain_id decoded, pa_block_number = de_block_number decoded,
            pa_tx_hash = de_tx_hash decoded, pa_log_index = de_log_index decoded,
            pa_contract_address = de_contract_address decoded, pa_contract_role = role,
            pa_source_token = pull_token decoded [''sourceToken'', ''tokenIn'', ''token''],
            pa_output_token = pull_token decoded [''outputToken'', ''tokenOut'', ''linkToken''],
            pa_source_amount = source_amount,
            pa_output_amount = (if output_amount = 0 then source_amount else output_amount),
            pa_counterparty = pull_token decoded [''from'', ''sender'', ''to'', ''recipient'', ''depositor''],
            pa_source_event_signature = de_event_signature decoded,
            pa_raw_log_id = de_raw_log_id decoded,
            pa_decoded_event_id = de_decoded_event_id decoded\<rparr>])))"

definition is_pa_contract_address :: "string \<Rightarrow> bool" where
  "is_pa_contract_address address =
     (lower address \<in> {PA_RESERVES_ADDRESS, PA_FEE_AGGREGATOR_ADDRESS, PA_SWAP_AUTOMATOR_ADDRESS})"

definition pa_role_of :: "string \<Rightarrow> string option" where
  "pa_role_of address = (let addr = lower address in
     if addr = PA_RESERVES_ADDRESS then Some ''pa_reserves''
     else if addr = PA_FEE_AGGREGATOR_ADDRESS then Some ''pa_fee_aggregator''
     else if addr = PA_SWAP_AUTOMATOR_ADDRESS then Some ''pa_swap_automator''
     else None)"

interpretation pa_roles: role_table pa_role_of
  by unfold_locales (simp add: pa_role_of_def)

section \<open>The ledger\<close>

datatype PADirection = PA_DEBIT | PA_CREDIT

record PALedgerEntry =
  pe_entry_id :: string
  pe_action_id :: string
  pe_entry_index :: int
  pe_account :: string
  pe_direction :: PADirection
  pe_amount_link :: int
  pe_chain_id :: int
  pe_block_number :: int
  pe_tx_hash :: string

definition pa_entry_fields :: "string \<times> int \<Rightarrow> string list" where
  "pa_entry_fields x = [fst x, show_int (snd x)]"

definition compute_pa_ledger_entry_id :: "string \<Rightarrow> int \<Rightarrow> string" where
  "compute_pa_ledger_entry_id action_id entry_index =
     sha256_hex (canonical_key ''pa_ledger_entry'' (pa_entry_fields (action_id, entry_index)))"

interpretation pa_entry_id:
  hashed_id "\<lambda>(a, i). compute_pa_ledger_entry_id a i" "''pa_ledger_entry''" pa_entry_fields
  by unfold_locales (auto simp: compute_pa_ledger_entry_id_def)

definition pa_entry :: "PAEconomicAction \<Rightarrow> int \<Rightarrow> string \<Rightarrow> PADirection \<Rightarrow> int \<Rightarrow> PALedgerEntry" where
  "pa_entry action idx account direction amount =
     \<lparr>pe_entry_id = compute_pa_ledger_entry_id (pa_action_id action) idx,
      pe_action_id = pa_action_id action, pe_entry_index = idx, pe_account = account,
      pe_direction = direction, pe_amount_link = amount, pe_chain_id = pa_chain_id action,
      pe_block_number = pa_block_number action, pe_tx_hash = pa_tx_hash action\<rparr>"

definition text_or :: "string option \<Rightarrow> string \<Rightarrow> string" where
  \<comment> \<open>\<open>v or default\<close> on an optional text\<close>
  "text_or v d = (case v of None \<Rightarrow> d | Some s \<Rightarrow> if s = '''' then d else s)"

definition build_pa_ledger_entries :: "PAEconomicAction \<Rightarrow> PALedgerEntry list" where
  "build_pa_ledger_entries action =
     (if pa_kind action = CONFIG_CHANGED then []
      else if pa_output_amount action \<le> 0 \<and> pa_source_amount action \<le> 0 then []
      else let counterparty = text_or (pa_counterparty action) ''unknown'';
               contract_acct = pa_contract_role action @ '':'' @ pa_contract_address action;
               pair = \<lambda>debited credited amount. [pa_entry action 0 debited PA_DEBIT amount,
                                                 pa_entry action 1 credited PA_CREDIT amount]
      in case pa_kind action of
        FEE_RECEIVED \<Rightarrow> pair (''service_contract:'' @ counterparty) contract_acct (pa_source_amount action)
      | SWAP_EXECUTED \<Rightarrow> pair contract_acct
          (''pa_reserves:'' @ text_or (pa_output_token action) ''link'') (pa_output_amount action)
      | RESERVES_DEPOSIT \<Rightarrow> pair (''upstream:'' @ counterparty) contract_acct
          (if pa_output_amount action \<noteq> 0 then pa_output_amount action else pa_source_amount action)
      | SERVICE_FEE_FORWARDED \<Rightarrow> pair contract_acct (''forwarded_to:'' @ counterparty)
          (pa_source_amount action)
      | CONFIG_CHANGED \<Rightarrow> [])"

abbreviation pa_is_debit :: "PALedgerEntry \<Rightarrow> bool" where "pa_is_debit e \<equiv> pe_direction e = PA_DEBIT"

definition verify_pa_double_entry :: "PALedgerEntry list \<Rightarrow> bool" where
  "verify_pa_double_entry entries =
     (sum_list (map pe_amount_link (filter (\<lambda>e. pe_direction e = PA_DEBIT) entries)) =
      sum_list (map pe_amount_link (filter (\<lambda>e. pe_direction e = PA_CREDIT) entries)))"

interpretation pa_ledger: double_entry build_pa_ledger_entries pa_is_debit pe_amount_link pe_tx_hash pa_tx_hash
  by unfold_locales (simp add: build_pa_ledger_entries_def Let_def pa_entry_def split: PAActionKind.split)

interpretation pa_numbered: numbered_entries build_pa_ledger_entries pa_is_debit pe_amount_link pe_tx_hash
  pa_tx_hash pe_entry_id pa_action_id "''pa_ledger_entry''"
  by unfold_locales
    (simp_all add: build_pa_ledger_entries_def Let_def pa_entry_def compute_pa_ledger_entry_id_def
      pa_entry_fields_def split: PAActionKind.split)

lemma pa_credit_iff: "(pe_direction e = PA_CREDIT) = (\<not> pa_is_debit e)"
  by (cases "pe_direction e") simp_all

lemma verify_pa_totals:
  "verify_pa_double_entry es = (debit_total pa_is_debit pe_amount_link es = credit_total pa_is_debit pe_amount_link es)"
  by (simp add: verify_pa_double_entry_def debit_total_def credit_total_def pa_credit_iff)

section \<open>Properties\<close>

text \<open>C26: the Payment Abstraction ledger balances, per transaction and as a whole, whatever the
  actions.\<close>

theorem pa_ledger_balanced:
  "verify_pa_double_entry (filter (\<lambda>e. pe_tx_hash e = h) (concat (map build_pa_ledger_entries actions)))
    \<and> verify_pa_double_entry (concat (map build_pa_ledger_entries actions))"
  by (simp only: verify_pa_totals pa_ledger.balanced_tx pa_ledger.balanced_all)


definition sample_fee_event :: DecodedEvent where
  "sample_fee_event = \<lparr>de_raw_log_id = ''r1'', de_decoded_event_id = ''e1'', de_chain_id = 1,
     de_block_number = 100, de_tx_hash = ''0xaa'', de_log_index = 3,
     de_contract_address = PA_FEE_AGGREGATOR_ADDRESS, de_event_name = ''FeeReceived'',
     de_event_signature = ''0x51'', de_indexed_params = [(''sender'', PStr ''0xD'')],
     de_data_params = [(''amount'', PInt 50)]\<rparr>"


end
