(* ===== verification/Checks.thy ===== *)
theory Checks
  imports Reconciler Payment_Abstraction
begin

text \<open>
  \<open>reconciliation/checks.py\<close>: the discrete data-quality checks. A percentage or a rate is a double
  (\<open>Py_Float\<close>); \<open>fmt3\<close> and \<open>fmt4\<close> are the renderings
  \<open>f"{x:.3f}"\<close> and \<open>f"{x:.4f}"\<close>, and \<open>fmt\<close> that of \<open>f"{x}"\<close> for a float.
\<close>

datatype Severity = INFO | WARN | CRITICAL

datatype metric = NoMetric | IntMetric int | FloatMetric rat

record CheckResult =
  cr_name :: string
  cr_passed :: bool
  cr_severity :: Severity
  cr_detail :: string
  cr_metric_value :: metric

definition check_no_unmatched_economic_actions :: "PartitionReconciliation \<Rightarrow> CheckResult" where
  "check_no_unmatched_economic_actions report =
     (let unmatched = sum_list (map tr_unmatched_actions (pn_tx_recons report)) in
      \<lparr>cr_name = ''no_unmatched_economic_actions'', cr_passed = (unmatched = 0), cr_severity = CRITICAL,
       cr_detail = ''unmatched_action_count='' @ show_int unmatched, cr_metric_value = IntMetric unmatched\<rparr>)"

fun find_dupes :: "string set \<Rightarrow> string list \<Rightarrow> string list" where
  \<comment> \<open>the loop over the identifiers with its set \<open>seen\<close>\<close>
  "find_dupes seen [] = []"
| "find_dupes seen (ev_id # rest) =
     (if ev_id \<in> seen then ev_id # find_dupes (insert ev_id seen) rest
      else find_dupes (insert ev_id seen) rest)"

definition check_no_duplicate_event_ids :: "string list \<Rightarrow> CheckResult" where
  "check_no_duplicate_event_ids decoded_event_ids =
     (let dupes = find_dupes {} decoded_event_ids in
      \<lparr>cr_name = ''no_duplicate_event_ids'', cr_passed = (length dupes = 0), cr_severity = CRITICAL,
       cr_detail = (if dupes \<noteq> [] then ''duplicate count='' @ show_int (int (length dupes)) @ ''; first 5=''
           @ py_repr (PList (map PStr (take 5 dupes))) else ''no duplicates''),
       cr_metric_value = IntMetric (int (length dupes))\<rparr>)"

definition check_freshness :: "int \<Rightarrow> int \<Rightarrow> int \<Rightarrow> CheckResult" where
  "check_freshness last_block_timestamp now_timestamp max_lag_seconds =
     (let lag = max 0 (now_timestamp - last_block_timestamp) in
      \<lparr>cr_name = ''freshness'', cr_passed = (lag \<le> max_lag_seconds), cr_severity = WARN,
       cr_detail = ''lag_seconds='' @ show_int lag @ '', max_allowed='' @ show_int max_lag_seconds,
       cr_metric_value = IntMetric lag\<rparr>)"

definition check_unknown_signatures :: "(rat \<Rightarrow> string) \<Rightarrow> (rat \<Rightarrow> string) \<Rightarrow> DecodeResult list \<Rightarrow> rat
    \<Rightarrow> int option \<Rightarrow> CheckResult" where
  "check_unknown_signatures fmt fmt3 decode_failures threshold_pct total_attempts =
     (let total = (case total_attempts of None \<Rightarrow> max 1 (int (length decode_failures)) | Some t \<Rightarrow> t);
          unknowns = int (length (filter (\<lambda>r. dr_failure_reason r = Some Unknown_topic) decode_failures));
          pct = (if total > 0 then nearest_double (nearest_double (of_int unknowns / of_int total) * 100) else 0) in
      \<lparr>cr_name = ''unknown_signatures_below_threshold'', cr_passed = (pct \<le> threshold_pct),
       cr_severity = WARN,
       cr_detail = ''unknown_topic_count='' @ show_int unknowns @ '', total='' @ show_int total
         @ '', pct='' @ fmt3 pct @ '', threshold='' @ fmt threshold_pct,
       cr_metric_value = FloatMetric pct\<rparr>)"

definition check_balance_consistency :: "(string \<times> int) list \<Rightarrow> int \<Rightarrow> CheckResult" where
  "check_balance_consistency pool_diffs tolerance_wei =
     (let bad = filter (\<lambda>(addr, diff). \<bar>diff\<bar> > tolerance_wei) pool_diffs in
      \<lparr>cr_name = ''balance_consistency'', cr_passed = (length bad = 0), cr_severity = CRITICAL,
       cr_detail = (if bad \<noteq> [] then show_int (int (length bad)) @ '' pool(s) inconsistent: ''
           @ join '', '' (map (\<lambda>(a, d). a @ ''=delta '' @ show_int d) (take 5 bad))
         else ''all pools consistent''),
       cr_metric_value = IntMetric (int (length bad))\<rparr>)"

text \<open>The ledger check reads three fields of an entry by duck typing: the transaction, the value of
  the direction, the amount.\<close>

type_synonym ledger_row = "string \<times> string \<times> int"

definition ledger_step :: "ledger_row \<Rightarrow> (string \<times> int \<times> int) list \<Rightarrow> (string \<times> int \<times> int) list" where
  "ledger_step row by_tx = (case row of (tx_hash, d_str, amount) \<Rightarrow>
     if tx_hash = '''' then by_tx
     else let (debit, credit) = dict_get_or by_tx tx_hash (0, 0) in
       AList.update tx_hash
         (if d_str = ''debit'' then (debit + amount, credit)
          else if d_str = ''credit'' then (debit, credit + amount)
          else (debit, credit)) by_tx)"

definition check_ledger_balanced_per_tx :: "ledger_row list \<Rightarrow> CheckResult" where
  "check_ledger_balanced_per_tx entries =
     (let by_tx = fold ledger_step entries [];
          violators = filter (\<lambda>(tx, d, c). d \<noteq> c) by_tx in
      \<lparr>cr_name = ''ledger_balanced_per_tx'', cr_passed = (length violators = 0), cr_severity = CRITICAL,
       cr_detail = (if violators \<noteq> [] then ''first 10 violators: ''
           @ join ''; '' (map (\<lambda>(tx, d, c). tx @ '': debit='' @ show_int d @ ''/credit='' @ show_int c)
               (take 10 violators))
         else ''all txs balanced''),
       cr_metric_value = IntMetric (int (length violators))\<rparr>)"

definition check_pass_rate :: "(rat \<Rightarrow> string) \<Rightarrow> (rat \<Rightarrow> string) \<Rightarrow> PartitionReconciliation \<Rightarrow> rat
    \<Rightarrow> CheckResult" where
  "check_pass_rate fmt fmt4 report min_pass_rate =
     \<lparr>cr_name = ''reconciliation_pass_rate'', cr_passed = (pn_pass_rate report \<ge> min_pass_rate),
      cr_severity = WARN,
      cr_detail = ''pass_rate='' @ fmt4 (pn_pass_rate report) @ '', min_required='' @ fmt min_pass_rate
        @ '', counts='' @ py_repr (PDict (map (\<lambda>(s, c). (status_value s, PInt c)) (pn_counts_by_status report))),
      cr_metric_value = FloatMetric (pn_pass_rate report)\<rparr>"

text \<open>The rows of the two kinds of ledger entries.\<close>

definition staking_row :: "LedgerEntry \<Rightarrow> ledger_row" where
  "staking_row e = (le_tx_hash e, (case le_direction e of DEBIT \<Rightarrow> ''debit'' | CREDIT \<Rightarrow> ''credit''),
     le_amount_link e)"

definition pa_row :: "PALedgerEntry \<Rightarrow> ledger_row" where
  "pa_row e = (pe_tx_hash e, (case pe_direction e of PA_DEBIT \<Rightarrow> ''debit'' | PA_CREDIT \<Rightarrow> ''credit''),
     pe_amount_link e)"

section \<open>The sums of the ledger check\<close>

definition row_sum :: "string \<Rightarrow> string \<Rightarrow> ledger_row list \<Rightarrow> int" where
  "row_sum tx dir rows = sum_list (map (\<lambda>(h, d, a). a) (filter (\<lambda>(h, d, a). h = tx \<and> d = dir) rows))"

lemma row_sum_simps [simp]:
  "row_sum tx dir [] = 0"
  "row_sum tx dir ((h, d, a) # rows) = (if h = tx \<and> d = dir then a else 0) + row_sum tx dir rows"
  "row_sum tx dir (rows @ rows') = row_sum tx dir rows + row_sum tx dir rows'"
  by (simp_all add: row_sum_def)

lemma row_sum_mset: "mset rows = mset rows' \<Longrightarrow> row_sum tx dir rows = row_sum tx dir rows'"
  unfolding row_sum_def sum_mset_sum_list [symmetric] mset_map mset_filter by simp

lemma ledger_fold_get:
  assumes "tx \<noteq> ''''"
  shows "dict_get_or (fold ledger_step rows d) tx (0, 0) =
    (fst (dict_get_or d tx (0, 0)) + row_sum tx ''debit'' rows,
     snd (dict_get_or d tx (0, 0)) + row_sum tx ''credit'' rows)"
proof (induction rows arbitrary: d)
  case (Cons r rows)
  obtain h dir a where r: "r = (h, dir, a)" by (cases r)
  have "dict_get_or (ledger_step r d) tx (0, 0) =
      (fst (dict_get_or d tx (0, 0)) + row_sum tx ''debit'' [r],
       snd (dict_get_or d tx (0, 0)) + row_sum tx ''credit'' [r])"
    using assms unfolding r
    by (cases "dict_get_or d h (0, 0)") (auto simp: ledger_step_def dict_get_or_def update_conv')
  with Cons [of "ledger_step r d"] show ?case by (simp add: r)
qed simp

lemma ledger_fold_keys:
  "set (map fst (fold ledger_step rows d)) = set (map fst d) \<union> {h. \<exists>dir a. (h, dir, a) \<in> set rows \<and> h \<noteq> ''''}"
proof (induction rows arbitrary: d)
  case (Cons r rows)
  obtain h dir a where r: "r = (h, dir, a)" by (cases r)
  have "set (map fst (ledger_step r d)) = set (map fst d) \<union> (if h = '''' then {} else {h})"
    unfolding r ledger_step_def
    by (cases "dict_get_or d h (0, 0)") (auto simp: dict_keys_update simp del: set_map)
  with Cons [of "ledger_step r d"] show ?case by (auto simp: r simp del: set_map split: if_splits)
qed simp

lemma ledger_fold_distinct: "distinct (map fst d) \<Longrightarrow> distinct (map fst (fold ledger_step rows d))"
proof (induction rows arbitrary: d)
  case (Cons r rows)
  have "distinct (map fst (ledger_step r d))"
    using Cons.prems by (cases r) (auto simp: ledger_step_def distinct_update split: prod.split)
  with Cons.IH show ?case by simp
qed simp

lemma ledger_violators:
  "filter (\<lambda>(tx, d, c). d \<noteq> c) (fold ledger_step rows []) = [] \<longleftrightarrow>
     (\<forall>tx. tx \<noteq> '''' \<longrightarrow> row_sum tx ''debit'' rows = row_sum tx ''credit'' rows)"
proof -
  let ?d = "fold ledger_step rows []"
  have dist: "distinct (map fst ?d)" by (rule ledger_fold_distinct) simp
  have ne: "tx \<noteq> ''''" if "(tx, s) \<in> set ?d" for tx s
  proof -
    have "tx \<in> set (map fst ?d)" using that by force
    then show ?thesis unfolding ledger_fold_keys by auto
  qed
  have mem: "s = (row_sum tx ''debit'' rows, row_sum tx ''credit'' rows)" if "(tx, s) \<in> set ?d" for tx s
  proof -
    have "map_of ?d tx = Some s" using that dist by simp
    then show ?thesis using ledger_fold_get [OF ne [OF that], of rows "[]"] by (simp add: dict_get_or_def)
  qed
  have absent: "row_sum tx ''debit'' rows = 0 \<and> row_sum tx ''credit'' rows = 0"
    if "tx \<noteq> ''''" "tx \<notin> set (map fst ?d)" for tx
    using ledger_fold_get [OF that(1), of rows "[]"] dict_get_or_absent [OF that(2), of "(0, 0)"]
    by (simp add: dict_get_or_def)
  show ?thesis
  proof
    assume l: "filter (\<lambda>(tx, d, c). d \<noteq> c) ?d = []"
    show "\<forall>tx. tx \<noteq> '''' \<longrightarrow> row_sum tx ''debit'' rows = row_sum tx ''credit'' rows"
    proof (intro allI impI)
      fix tx :: string assume tx: "tx \<noteq> ''''"
      show "row_sum tx ''debit'' rows = row_sum tx ''credit'' rows"
      proof (cases "tx \<in> set (map fst ?d)")
        case True
        then obtain s where s: "(tx, s) \<in> set ?d" by auto
        with l mem [OF s] show ?thesis by (auto simp: filter_empty_conv)
      qed (use absent [OF tx] in simp)
    qed
  next
    assume "\<forall>tx. tx \<noteq> '''' \<longrightarrow> row_sum tx ''debit'' rows = row_sum tx ''credit'' rows"
    then show "filter (\<lambda>(tx, d, c). d \<noteq> c) ?d = []"
      using mem ne by (auto simp: filter_empty_conv)
  qed
qed

lemma check_ledger_iff:
  "cr_passed (check_ledger_balanced_per_tx rows) \<longleftrightarrow>
     (\<forall>tx. tx \<noteq> '''' \<longrightarrow> row_sum tx ''debit'' rows = row_sum tx ''credit'' rows)"
  by (simp add: check_ledger_balanced_per_tx_def Let_def ledger_violators)

lemma staking_row_sums:
  "row_sum tx ''debit'' (map staking_row es) = debit_total is_debit le_amount_link (filter (\<lambda>e. le_tx_hash e = tx) es)"
  "row_sum tx ''credit'' (map staking_row es) = credit_total is_debit le_amount_link (filter (\<lambda>e. le_tx_hash e = tx) es)"
  by (induction es) (auto simp: staking_row_def split: Direction.splits)

lemma pa_row_sums:
  "row_sum tx ''debit'' (map pa_row es) = debit_total pa_is_debit pe_amount_link (filter (\<lambda>e. pe_tx_hash e = tx) es)"
  "row_sum tx ''credit'' (map pa_row es) = credit_total pa_is_debit pe_amount_link (filter (\<lambda>e. pe_tx_hash e = tx) es)"
  by (induction es) (auto simp: pa_row_def split: PADirection.splits)

lemma find_dupes_Nil: "find_dupes seen xs = [] \<longleftrightarrow> distinct xs \<and> seen \<inter> set xs = {}"
  by (induction xs arbitrary: seen) auto

lemma find_dupes_length: "length (find_dupes seen xs) + card (set xs - seen) = length xs"
proof (induction xs arbitrary: seen)
  case (Cons x xs)
  show ?case
  proof (cases "x \<in> seen")
    case True
    with Cons [of seen] show ?thesis by (simp add: insert_absorb)
  next
    case False
    then have "set (x # xs) - seen = insert x (set xs - insert x seen)" by auto
    then have "card (set (x # xs) - seen) = Suc (card (set xs - insert x seen))" by simp
    with Cons [of "insert x seen"] False show ?thesis by simp
  qed
qed simp

section \<open>Properties\<close>

text \<open>C25: the ledger check passes on every ledger the two builders produce, whatever the actions and
  their movements, the entries of both protocols mixed in one partition in any order; and on any list
  of rows it passes exactly when the debits and credits of each transaction with a hash agree.\<close>

theorem ledger_check_exact:
  assumes "mset ledger =
      mset (map staking_row (concat (map (\<lambda>a. build_ledger_entries a (evidence_of a)) staking_actions)))
      + mset (map pa_row (concat (map build_pa_ledger_entries pa_actions)))"
  shows "cr_passed (check_ledger_balanced_per_tx ledger)
   \<and> cr_passed (check_ledger_balanced_per_tx rows) =
     list_all (\<lambda>tx. row_sum tx ''debit'' rows = row_sum tx ''credit'' rows)
       (filter (\<lambda>tx. tx \<noteq> '''') (map fst rows))"
proof
  have "concat (map (\<lambda>a. build_ledger_entries a (evidence_of a)) staking_actions) =
      concat (map (\<lambda>a. build_ledger_entries a []) staking_actions)"
    by (subst movements_informational) simp
  with assms have "mset ledger = mset (map staking_row (concat (map (\<lambda>a. build_ledger_entries a []) staking_actions))
      @ map pa_row (concat (map build_pa_ledger_entries pa_actions)))" by simp
  note sums = row_sum_mset [OF this]
  show "cr_passed (check_ledger_balanced_per_tx ledger)"
    unfolding check_ledger_iff sums row_sum_simps staking_row_sums pa_row_sums
    by (simp add: staking_ledger.balanced_tx pa_ledger.balanced_tx)
  have z: "row_sum tx dir rows = 0" if "tx \<notin> set (map fst rows)" for tx dir
    using that by (induction rows) auto
  have "row_sum tx ''debit'' rows = row_sum tx ''credit'' rows" if "tx \<notin> set (map fst rows)" for tx
    using z [OF that] by simp
  then show "cr_passed (check_ledger_balanced_per_tx rows) =
     list_all (\<lambda>tx. row_sum tx ''debit'' rows = row_sum tx ''credit'' rows)
       (filter (\<lambda>tx. tx \<noteq> '''') (map fst rows))"
    unfolding check_ledger_iff list_all_iff set_filter by blast
qed

theorem ledger_check_exact_witness:
  "cr_passed (check_ledger_balanced_per_tx
     (rev (map staking_row (build_ledger_entries (sample_action ''a1'' STAKE 7) [])
         @ map staking_row (build_ledger_entries (sample_action ''a2'' SLASHED 9) []))))
   \<and> \<not> cr_passed (check_ledger_balanced_per_tx [(''0xaa'', ''debit'', 5), (''0xbb'', ''credit'', 5)])"
proof -
  let ?as = "[sample_action ''a1'' STAKE 7, sample_action ''a2'' SLASHED 9]"
  have "mset (rev (map staking_row (build_ledger_entries (sample_action ''a1'' STAKE 7) [])
         @ map staking_row (build_ledger_entries (sample_action ''a2'' SLASHED 9) []))) =
      mset (map staking_row (concat (map (\<lambda>a. build_ledger_entries a []) ?as)))
      + mset (map pa_row (concat (map build_pa_ledger_entries [])))" by simp
  from ledger_check_exact [OF this, of "[(''0xaa'', ''debit'', 5), (''0xbb'', ''credit'', 5)]"]
  show ?thesis by (simp add: row_sum_def)
qed

text \<open>The duplicate check passes exactly when the identifiers are pairwise distinct, and reports
  how many occurrences are superfluous; the unmatched check passes exactly when no transaction has
  an unmatched edge.\<close>

theorem duplicate_and_unmatched_checks:
  "cr_passed (check_no_duplicate_event_ids ids) = distinct ids
   \<and> cr_metric_value (check_no_duplicate_event_ids ids) = IntMetric (int (length ids) - int (card (set ids)))
   \<and> cr_passed (check_no_unmatched_economic_actions
       (reconcile_partition chain_id from_block to_block actions_by_tx movements_by_tx)) =
     list_all (\<lambda>tx. UNMATCHED \<notin> set (map am_status (tr_edges (reconcile_tx actions_by_tx movements_by_tx tx))))
       (sorted_tx_hashes actions_by_tx movements_by_tx)"
proof (intro conjI)
  show "cr_passed (check_no_duplicate_event_ids ids) = distinct ids"
    by (simp add: check_no_duplicate_event_ids_def Let_def find_dupes_Nil)
  show "cr_metric_value (check_no_duplicate_event_ids ids) = IntMetric (int (length ids) - int (card (set ids)))"
    using find_dupes_length [of "{}" ids] by (simp add: check_no_duplicate_event_ids_def Let_def)
next
  let ?p = "reconcile_partition chain_id from_block to_block actions_by_tx movements_by_tx"
  have un: "tr_unmatched_actions (match_tx_economics as ms d) =
      int (length (filter (\<lambda>e. am_status e = UNMATCHED) (tr_edges (match_tx_economics as ms d))))" for as ms d
    by (simp add: match_tx_economics_def Let_def)
  have recons: "pn_tx_recons ?p = map (reconcile_tx actions_by_tx movements_by_tx)
      (sorted_tx_hashes actions_by_tx movements_by_tx)" by (simp add: reconcile_partition_def Let_def)
  have zero: "tr_unmatched_actions (reconcile_tx actions_by_tx movements_by_tx tx) = 0 \<longleftrightarrow>
      UNMATCHED \<notin> set (map am_status (tr_edges (reconcile_tx actions_by_tx movements_by_tx tx)))" for tx
    by (simp add: reconcile_tx_def un filter_empty_conv image_iff eq_commute [of UNMATCHED])
  have nonneg: "0 \<le> tr_unmatched_actions r" if "r \<in> set (pn_tx_recons ?p)" for r
    using that by (auto simp: recons reconcile_tx_def un)
  have "cr_passed (check_no_unmatched_economic_actions ?p) = (\<forall>r \<in> set (pn_tx_recons ?p). tr_unmatched_actions r = 0)"
    using sum_list_nonneg_eq_0_iff [of "map tr_unmatched_actions (pn_tx_recons ?p)"] nonneg
    by (auto simp: check_no_unmatched_economic_actions_def Let_def)
  also have "\<dots> = list_all (\<lambda>tx. UNMATCHED \<notin> set (map am_status (tr_edges (reconcile_tx actions_by_tx movements_by_tx tx))))
       (sorted_tx_hashes actions_by_tx movements_by_tx)"
    by (simp only: list_all_iff recons zero set_map ball_simps)
  finally show "cr_passed (check_no_unmatched_economic_actions ?p) = \<dots>" .
qed

end
