(* ===== verification/Balance_Reconciler.thy ===== *)
theory Balance_Reconciler
  imports Movement_Builder
begin

text \<open>
  \<open>reconciliation/balance_reconciler.py\<close>: the movements of a pool against its balance on chain. The
  balance provider is the parameter \<open>get_token_balance\<close>: token, holder and block to a balance, or an
  exception.
\<close>

record BalanceVerification =
  bv_chain_id :: int
  bv_pool_address :: string
  bv_block_number :: int
  bv_expected_delta :: int
  bv_observed_balance_delta :: int
  bv_is_consistent :: bool
  bv_diff :: int

record PoolReconciliation =
  pl_chain_id :: int
  pl_pool_address :: string
  pl_from_block :: int
  pl_to_block :: int
  pl_net_movements :: int
  pl_start_balance :: int
  pl_end_balance :: int
  pl_is_consistent :: bool
  pl_diff :: int

type_synonym balance_provider = "string \<Rightarrow> string \<Rightarrow> int \<Rightarrow> int res"

definition delta_step :: "string \<Rightarrow> int \<Rightarrow> int \<Rightarrow> TokenMovement \<Rightarrow> int \<Rightarrow> int" where
  "delta_step target from_block to_block m delta =
     (if tm_block_number m < from_block \<or> tm_block_number m > to_block then delta
      else let after_in = (if lower (tm_to_addr m) = target then delta + tm_amount m else delta)
           in if lower (tm_from_addr m) = target then after_in - tm_amount m else after_in)"

definition compute_balance_delta :: "TokenMovement list \<Rightarrow> string \<Rightarrow> int \<Rightarrow> int \<Rightarrow> int" where
  "compute_balance_delta movements address from_block to_block =
     fold (delta_step (lower address) from_block to_block) movements 0"

definition verify_pool_balance :: "balance_provider \<Rightarrow> string \<Rightarrow> string \<Rightarrow> int \<Rightarrow> int \<Rightarrow> int
    \<Rightarrow> BalanceVerification res" where
  "verify_pool_balance get_token_balance token_address pool_address block_number expected_delta
      prior_block_number =
     rbind (get_token_balance token_address pool_address prior_block_number) (\<lambda>prior_balance.
     rbind (get_token_balance token_address pool_address block_number) (\<lambda>current_balance.
       let observed = current_balance - prior_balance; diff = observed - expected_delta in
       Inr \<lparr>bv_chain_id = 1, bv_pool_address = lower pool_address, bv_block_number = block_number,
            bv_expected_delta = expected_delta, bv_observed_balance_delta = observed,
            bv_is_consistent = (diff = 0), bv_diff = diff\<rparr>))"

definition reconcile_pool_movement_vs_balance :: "balance_provider \<Rightarrow> string \<Rightarrow> string
    \<Rightarrow> TokenMovement list \<Rightarrow> int \<Rightarrow> int \<Rightarrow> PoolReconciliation res" where
  "reconcile_pool_movement_vs_balance get_token_balance token_address pool_address movements
      from_block to_block =
     (let pool_lower = lower pool_address;
          net_movements = compute_balance_delta movements pool_lower from_block to_block in
      rbind (get_token_balance token_address pool_lower (from_block - 1)) (\<lambda>start_balance.
      rbind (get_token_balance token_address pool_lower to_block) (\<lambda>end_balance.
        let diff = (end_balance - start_balance) - net_movements in
        Inr \<lparr>pl_chain_id = 1, pl_pool_address = pool_lower, pl_from_block = from_block,
             pl_to_block = to_block, pl_net_movements = net_movements,
             pl_start_balance = start_balance, pl_end_balance = end_balance,
             pl_is_consistent = (diff = 0), pl_diff = diff\<rparr>)))"

section \<open>What a movement does to an address\<close>

definition in_blocks :: "int \<Rightarrow> int \<Rightarrow> TokenMovement \<Rightarrow> bool" where
  "in_blocks f t m = (f \<le> tm_block_number m \<and> tm_block_number m \<le> t)"

definition effect :: "string \<Rightarrow> TokenMovement \<Rightarrow> int" where
  "effect a m = (if lower (tm_to_addr m) = a then tm_amount m else 0)
     - (if lower (tm_from_addr m) = a then tm_amount m else 0)"

lemma delta_sum:
  "compute_balance_delta ms a f t = sum_list (map (effect (lower a)) (filter (in_blocks f t) ms))"
proof -
  have "fold (delta_step tgt f t) ms d = d + sum_list (map (effect tgt) (filter (in_blocks f t) ms))" for tgt d
    by (induction ms arbitrary: d) (auto simp: delta_step_def effect_def in_blocks_def)
  then show ?thesis by (simp add: compute_balance_delta_def)
qed

lemma delta_append:
  "compute_balance_delta (ms @ ns) a f t = compute_balance_delta ms a f t + compute_balance_delta ns a f t"
  by (simp add: delta_sum)

lemma delta_lower [simp]: "compute_balance_delta ms (lower a) f t = compute_balance_delta ms a f t"
  by (simp add: delta_sum)

lemma delta_split_blocks:
  assumes "f \<le> k" "k \<le> t"
  shows "compute_balance_delta ms a f t =
    compute_balance_delta ms a f (k - 1) + compute_balance_delta ms a k t"
  unfolding delta_sum using assms by (induction ms) (auto simp: in_blocks_def)

lemma delta_mset:
  assumes "mset ms = mset ns"
  shows "compute_balance_delta ms a f t = compute_balance_delta ns a f t"
proof -
  have "sum_mset (image_mset (effect (lower a)) (filter_mset (in_blocks f t) (mset ms))) =
      sum_mset (image_mset (effect (lower a)) (filter_mset (in_blocks f t) (mset ns)))"
    by (simp add: assms)
  then show ?thesis
    unfolding delta_sum by (simp add: sum_mset_sum_list flip: mset_map mset_filter)
qed

section \<open>Properties\<close>

text \<open>C31: balances are conserved: over any set of addresses that holds both ends of every movement,
  the deltas of the addresses add up to zero, over any block range.\<close>

theorem balance_deltas_conserved:
  assumes "finite A" "\<forall>m \<in> set ms. lower (tm_from_addr m) \<in> A \<and> lower (tm_to_addr m) \<in> A"
    and "\<forall>a \<in> A. lower a = a"
  shows "(\<Sum>a \<in> A. compute_balance_delta ms a from_block to_block) = 0"
proof -
  have one: "(\<Sum>a \<in> A. effect a m) = 0" if "m \<in> set ms" for m
    using assms(1,2) that by (simp add: effect_def sum_subtractf)
  have "(\<Sum>a \<in> A. compute_balance_delta ms a from_block to_block) =
      (\<Sum>a \<in> A. sum_list (map (effect a) (filter (in_blocks from_block to_block) ms)))"
    using assms(3) by (intro sum.cong) (simp_all add: delta_sum)
  also have "\<dots> = sum_list (map (\<lambda>m. \<Sum>a \<in> A. effect a m) (filter (in_blocks from_block to_block) ms))"
    by (induction ms) (simp_all add: sum.distrib)
  also have "\<dots> = sum_list (map (\<lambda>m. 0) (filter (in_blocks from_block to_block) ms))"
    using one by (intro arg_cong [where f = sum_list] map_cong) auto
  also have "\<dots> = 0" by simp
  finally show ?thesis .
qed

theorem balance_deltas_conserved_witness:
  "(\<Sum>a \<in> {''0xf'', ''0xb''}. compute_balance_delta [sample_movement ''i'' ''log'' ''0xf'' ''l1''] a 0 200) = 0"
proof (rule balance_deltas_conserved)
  have l: "lower ''0xf'' = ''0xf''" "lower ''0xb'' = ''0xb''" by code_simp+
  then show "\<forall>a \<in> {''0xf'', ''0xb''}. lower a = a"
    "\<forall>m \<in> set [sample_movement ''i'' ''log'' ''0xf'' ''l1'']. lower (tm_from_addr m) \<in> {''0xf'', ''0xb''}
      \<and> lower (tm_to_addr m) \<in> {''0xf'', ''0xb''}"
    by (simp_all add: sample_movement_def)
qed simp

text \<open>What an address received and what it sent in a range of blocks.\<close>

definition received :: "TokenMovement list \<Rightarrow> string \<Rightarrow> int \<Rightarrow> int \<Rightarrow> int" where
  "received ms a f t = sum_list (map tm_amount (filter (\<lambda>m. lower (tm_to_addr m) = lower a
     \<and> f \<le> tm_block_number m \<and> tm_block_number m \<le> t) ms))"

definition sent :: "TokenMovement list \<Rightarrow> string \<Rightarrow> int \<Rightarrow> int \<Rightarrow> int" where
  "sent ms a f t = sum_list (map tm_amount (filter (\<lambda>m. lower (tm_from_addr m) = lower a
     \<and> f \<le> tm_block_number m \<and> tm_block_number m \<le> t) ms))"

lemma delta_received_sent: "compute_balance_delta ms a f t = received ms a f t - sent ms a f t"
  unfolding delta_sum by (induction ms) (auto simp: received_def sent_def effect_def in_blocks_def)

text \<open>C32: what the balance check finds: against a chain where the balance of the pool at a block is what
  it had at the start, and what all movements since have brought it, less what they have taken, the
  reported difference is what the movements that the reconciliation was not given brought to the
  pool, less what they took, in the block range; so the pool is consistent exactly when those agree.\<close>

theorem pool_check_measures_missing:
  assumes chain: "\<forall>b. get_token_balance token (lower pool) b =
      Inr (genesis + received all pool start b - sent all pool start b)"
    and seen: "mset all = mset (given @ missing)"
    and blocks: "start < from_block" "from_block \<le> to_block"
  shows "\<exists>r. reconcile_pool_movement_vs_balance get_token_balance token pool given from_block to_block = Inr r
    \<and> pl_diff r = received missing pool from_block to_block - sent missing pool from_block to_block
    \<and> pl_is_consistent r = (received missing pool from_block to_block = sent missing pool from_block to_block)"
proof -
  have "compute_balance_delta all pool start to_block =
      compute_balance_delta all pool start (from_block - 1) + compute_balance_delta all pool from_block to_block"
    by (rule delta_split_blocks) (use blocks in simp_all)
  moreover have "compute_balance_delta all pool from_block to_block =
      compute_balance_delta given pool from_block to_block + compute_balance_delta missing pool from_block to_block"
    using delta_mset [OF seen] by (simp add: delta_append)
  moreover have "\<forall>b. get_token_balance token (lower pool) b = Inr (genesis + compute_balance_delta all pool start b)"
    using chain by (simp add: delta_received_sent add_diff_eq)
  moreover have "compute_balance_delta missing pool from_block to_block =
      received missing pool from_block to_block - sent missing pool from_block to_block"
    by (rule delta_received_sent)
  ultimately show ?thesis by (simp add: reconcile_pool_movement_vs_balance_def Let_def)
qed

theorem pool_check_measures_missing_witness:
  "\<exists>r. reconcile_pool_movement_vs_balance
      (\<lambda>tok holder b. Inr (7 + received [sample_movement ''i'' ''log'' ''0xf'' ''l1''] ''0xB'' 0 b
         - sent [sample_movement ''i'' ''log'' ''0xf'' ''l1''] ''0xB'' 0 b))
      ''0x70'' ''0xB'' [] 50 150 = Inr r \<and> pl_diff r = 5"
proof -
  have "received [sample_movement ''i'' ''log'' ''0xf'' ''l1''] ''0xB'' 50 150 = 5"
    "sent [sample_movement ''i'' ''log'' ''0xf'' ''l1''] ''0xB'' 50 150 = 0" by code_simp+
  moreover have "mset [sample_movement ''i'' ''log'' ''0xf'' ''l1''] =
      mset ([] @ [sample_movement ''i'' ''log'' ''0xf'' ''l1''])" by simp
  ultimately show ?thesis
    using pool_check_measures_missing [where get_token_balance =
      "\<lambda>tok holder b. Inr (7 + received [sample_movement ''i'' ''log'' ''0xf'' ''l1''] ''0xB'' 0 b
         - sent [sample_movement ''i'' ''log'' ''0xf'' ''l1''] ''0xB'' 0 b)"
      and genesis = 7 and all = "[sample_movement ''i'' ''log'' ''0xf'' ''l1'']" and given = "[]"
      and missing = "[sample_movement ''i'' ''log'' ''0xf'' ''l1'']" and start = 0 and pool = "''0xB''"
      and from_block = 50 and to_block = 150 and token = "''0x70''"] by auto
qed

end
