(* ===== verification/Analytics.thy ===== *)
theory Analytics
  imports Py_Float
begin

text \<open>
  \<open>analytics/\<close>: realized yield, fee attribution and reward distribution over the rows of the marts.
  A row is a dictionary of dynamic values; a ratio is the double the source computes (\<open>Py_Float\<close>).
\<close>

section \<open>Realized yield (\<open>analytics/apy_realized.py\<close>)\<close>

definition SECONDS_PER_YEAR :: int where "SECONDS_PER_YEAR = 365 * 24 * 3600"

record APYDataPoint =
  ap_pool_address :: string
  ap_snapshot_date :: string
  ap_cumulative_principal_link_seconds :: int
  ap_cumulative_rewards_link :: int
  ap_realized_apy :: rat

text \<open>The three integers of a stake row, and one turn of the loop.\<close>

definition stake_fields :: "int \<Rightarrow> pydict \<Rightarrow> (int \<times> int \<times> int) res" where
  "stake_fields snapshot_unix ev =
     rbind (py_int (dict_get_or ev ''principal'' (PInt 0))) (\<lambda>link.
     rbind (py_int (dict_get_or ev ''start_unix'' (PInt 0))) (\<lambda>start.
     rbind (py_int (py_or (dict_get_or ev ''end_unix'' (PInt snapshot_unix)) (PInt snapshot_unix))) (\<lambda>end.
     Inr (link, start, min end snapshot_unix))))"

definition stake_step :: "int \<Rightarrow> pydict \<Rightarrow> int \<Rightarrow> int res" where
  "stake_step snapshot_unix ev acc =
     rbind (stake_fields snapshot_unix ev) (\<lambda>(link, start, end).
       Inr (if end \<le> start \<or> link \<le> 0 then acc else acc + link * (end - start)))"

definition compute_time_weighted_principal :: "pydict list \<Rightarrow> int \<Rightarrow> int res" where
  "compute_time_weighted_principal stake_events snapshot_unix =
     foldR (stake_step snapshot_unix) stake_events 0"

definition compute_realized_apy :: "int \<Rightarrow> int \<Rightarrow> rat res" where
  "compute_realized_apy rewards_link twp =
     (if twp \<le> 0 then Inr 0
      else rbind (py_float (rewards_link * SECONDS_PER_YEAR)) (\<lambda>a.
        rbind (py_float twp) (\<lambda>b. Inr (nearest_double (a / b)))))"

definition reward_step :: "int \<Rightarrow> pydict \<Rightarrow> int \<Rightarrow> int res" where
  "reward_step snapshot_unix r acc =
     rbind (py_int (dict_get_or r ''ts_unix'' (PInt 0))) (\<lambda>ts.
       if ts \<le> snapshot_unix
       then rbind (py_int (dict_get_or r ''amount_link'' (PInt 0))) (\<lambda>a. Inr (acc + a))
       else Inr acc)"

definition compute_apy_for_pool ::
  "string \<Rightarrow> string \<Rightarrow> int \<Rightarrow> pydict list \<Rightarrow> pydict list \<Rightarrow> APYDataPoint res" where
  "compute_apy_for_pool pool_address snapshot_date snapshot_unix stake_events reward_events =
     rbind (compute_time_weighted_principal stake_events snapshot_unix) (\<lambda>twp.
     rbind (foldR (reward_step snapshot_unix) reward_events 0) (\<lambda>cumulative_rewards.
     rbind (compute_realized_apy cumulative_rewards twp) (\<lambda>apy.
     Inr \<lparr>ap_pool_address = lower pool_address, ap_snapshot_date = snapshot_date,
       ap_cumulative_principal_link_seconds = twp, ap_cumulative_rewards_link = cumulative_rewards,
       ap_realized_apy = apy\<rparr>)))"

section \<open>Fee attribution (\<open>analytics/pa_fee_attribution.py\<close>)\<close>

record FeeAttribution =
  fa_snapshot_date :: string
  fa_service :: string
  fa_source_address :: string
  fa_inflow_link :: int

definition KNOWN_SERVICE_ADDRESSES :: "(string \<times> string) list" where
  "KNOWN_SERVICE_ADDRESSES =
     [(''0x271682deb8c4e0901d1a1550ad2e64d568e69909'', ''vrf''),
      (''0x65dcc24f8ff9e51f10dcc7ed1e4e2a61e6e14bd6'', ''functions''),
      (''0x0000000000000000000000000000000000000001'', ''data_streams''),
      (''0x80226fc0ee2b096224eeac085bb9a8cba1146f7d'', ''ccip'')]"

definition classify_service :: "string \<Rightarrow> string" where
  "classify_service source_address =
     dict_get_or KNOWN_SERVICE_ADDRESSES (lower source_address) ''other''"

definition pa_counterparty :: "pydict \<Rightarrow> string" where
  "pa_counterparty action = lower (py_str (dict_get_or action ''counterparty'' (PStr [])))"

definition pa_amount :: "pydict \<Rightarrow> int res" where
  "pa_amount action =
     py_int (dict_get_or action ''output_amount'' (dict_get_or action ''amount_link'' (PInt 0)))"

type_synonym fee_buckets = "((string \<times> string) \<times> int) list"

definition bucket_step :: "pydict \<Rightarrow> fee_buckets \<Rightarrow> fee_buckets res" where
  "bucket_step action bucket =
     (let cp = pa_counterparty action in
      if cp = [] then Inr bucket
      else rbind (pa_amount action) (\<lambda>amount.
        let key = (classify_service cp, cp) in
        Inr (dict_add key amount bucket)))"

definition attribution_of :: "string \<Rightarrow> (string \<times> string) \<times> int \<Rightarrow> FeeAttribution" where
  "attribution_of snapshot_date b = (case b of ((service, src), amount) \<Rightarrow>
     \<lparr>fa_snapshot_date = snapshot_date, fa_service = service, fa_source_address = src,
      fa_inflow_link = amount\<rparr>)"

definition attribute_pa_fees :: "pydict list \<Rightarrow> string \<Rightarrow> FeeAttribution list res" where
  "attribute_pa_fees pa_actions snapshot_date =
     rbind (foldR bucket_step pa_actions []) (\<lambda>bucket.
       Inr (sort_key (\<lambda>x. - fa_inflow_link x) (map (attribution_of snapshot_date) bucket)))"

section \<open>Reward distribution (\<open>analytics/reward_distribution.py\<close>)\<close>

record DistributionEfficiency =
  ef_pool_address :: string
  ef_snapshot_date :: string
  ef_rewards_distributed :: int
  ef_rewards_claimed :: int
  ef_claim_ratio :: rat

definition sum_amount_link :: "pydict list \<Rightarrow> int res" where
  "sum_amount_link events =
     foldR (\<lambda>e acc. rbind (py_int (dict_get_or e ''amount_link'' (PInt 0))) (\<lambda>a. Inr (acc + a))) events 0"

definition compute_distribution_efficiency ::
  "string \<Rightarrow> string \<Rightarrow> pydict list \<Rightarrow> pydict list \<Rightarrow> DistributionEfficiency res" where
  "compute_distribution_efficiency pool_address snapshot_date distributed_events claimed_events =
     rbind (sum_amount_link distributed_events) (\<lambda>distributed.
     rbind (sum_amount_link claimed_events) (\<lambda>claimed.
     rbind (if 0 < distributed then py_truediv claimed distributed else Inr 0) (\<lambda>ratio.
     Inr \<lparr>ef_pool_address = lower pool_address, ef_snapshot_date = snapshot_date,
       ef_rewards_distributed = distributed, ef_rewards_claimed = claimed, ef_claim_ratio = ratio\<rparr>)))"

definition compute_unclaimed_reward_balance :: "pydict list \<Rightarrow> pydict list \<Rightarrow> int res" where
  "compute_unclaimed_reward_balance distributed_events claimed_events =
     rbind (sum_amount_link distributed_events) (\<lambda>distributed.
     rbind (sum_amount_link claimed_events) (\<lambda>claimed. Inr (distributed - claimed)))"

section \<open>Time-weighted principal is an integral\<close>

text \<open>The principal a row has at stake in the second \<open>s\<close>, in a view up to the snapshot.\<close>

definition staked_at :: "int \<Rightarrow> int \<Rightarrow> pydict \<Rightarrow> int" where
  "staked_at snapshot_unix s ev = (case stake_fields snapshot_unix ev of Inl e \<Rightarrow> 0
     | Inr (link, start, end) \<Rightarrow> if start \<le> s \<and> s < end \<and> 0 < link then link else 0)"

lemma sum_window:
  fixes a b m t :: int
  assumes "m \<le> a" "b \<le> t"
  shows "(\<Sum>s\<in>{m..<t}. if a \<le> s \<and> s < b then p else 0) = (if a < b then p * (b - a) else 0 :: int)"
proof -
  have "(\<Sum>s\<in>{m..<t}. if a \<le> s \<and> s < b then p else 0) = (\<Sum>s\<in>{s \<in> {m..<t}. a \<le> s \<and> s < b}. p)"
    by (rule sum.inter_filter [symmetric]) simp
  also have "{s \<in> {m..<t}. a \<le> s \<and> s < b} = {a..<b}" using assms by auto
  finally show ?thesis by simp
qed

lemma stake_fields_end: "stake_fields t ev = Inr (p, a, b) \<Longrightarrow> b \<le> t"
  by (auto simp: stake_fields_def rbind_Inr)

definition stake_value :: "int \<Rightarrow> pydict \<Rightarrow> int res" where
  "stake_value t ev = rbind (stake_fields t ev) (\<lambda>(p, a, b).
     Inr (if b \<le> a \<or> p \<le> 0 then 0 else p * (b - a)))"

lemma stake_step_value: "stake_step t ev acc = rbind (stake_value t ev) (\<lambda>v. Inr (acc + v))"
  by (cases "stake_fields t ev") (auto simp: stake_step_def stake_value_def)

lemma stake_value_integral:
  assumes "stake_value t ev = Inr v" "\<And>p a b. stake_fields t ev = Inr (p, a, b) \<Longrightarrow> m \<le> a"
  shows "v = (\<Sum>s\<in>{m..<t}. staked_at t s ev)"
proof -
  obtain p a b where f: "stake_fields t ev = Inr (p, a, b)"
    using assms(1) by (auto simp: stake_value_def rbind_Inr)
  then have "m \<le> a" "b \<le> t" using assms(2) stake_fields_end by blast+
  then have "(\<Sum>s\<in>{m..<t}. if a \<le> s \<and> s < b then (if 0 < p then p else 0) else 0) =
      (if a < b then (if 0 < p then p else 0) * (b - a) else 0)" by (rule sum_window)
  moreover have "staked_at t s ev = (if a \<le> s \<and> s < b then (if 0 < p then p else 0) else 0)" for s
    by (simp add: staked_at_def f)
  ultimately show ?thesis using assms(1) f by (auto simp: stake_value_def)
qed

lemma twp_values:
  "compute_time_weighted_principal evs t = rbind (mapR (stake_value t) evs) (\<lambda>vs. Inr (sum_list vs))"
  unfolding compute_time_weighted_principal_def
  by (subst foldR_sum [where g = "stake_value t"]) (simp_all add: stake_step_value)

lemma twp_integral:
  assumes "compute_time_weighted_principal evs t = Inr w"
    and "\<And>ev p a b. ev \<in> set evs \<Longrightarrow> stake_fields t ev = Inr (p, a, b) \<Longrightarrow> m \<le> a"
  shows "w = (\<Sum>s\<in>{m..<t}. \<Sum>ev\<leftarrow>evs. staked_at t s ev)"
proof -
  obtain vs where vs: "mapR (stake_value t) evs = Inr vs" "w = sum_list vs"
    using assms(1) by (auto simp: twp_values rbind_Inr)
  then have "list_all2 (\<lambda>ev v. stake_value t ev = Inr v) evs vs" by (simp add: mapR_Inr)
  then have "sum_list vs = (\<Sum>s\<in>{m..<t}. \<Sum>ev\<leftarrow>evs. staked_at t s ev)"
    using assms(2)
  proof (induction rule: list_all2_induct)
    case (Cons ev evs v vs)
    then have "v = (\<Sum>s\<in>{m..<t}. staked_at t s ev)" by (intro stake_value_integral) auto
    moreover have "sum_list vs = (\<Sum>s\<in>{m..<t}. \<Sum>ev\<leftarrow>evs. staked_at t s ev)"
      using Cons.prems by (intro Cons.IH) auto
    ultimately show ?case by (simp add: sum.distrib)
  qed simp
  with vs show ?thesis by simp
qed

lemma twp_nonneg: "compute_time_weighted_principal evs t = Inr w \<Longrightarrow> 0 \<le> w"
proof -
  assume "compute_time_weighted_principal evs t = Inr w"
  then obtain vs where vs: "list_all2 (\<lambda>ev v. stake_value t ev = Inr v) evs vs" "w = sum_list vs"
    by (auto simp: twp_values rbind_Inr mapR_Inr)
  have "0 \<le> v" if "v \<in> set vs" for v
    using list_all2_set2 [OF vs(1) that] by (auto simp: stake_value_def rbind_Inr zero_le_mult_iff)
  then show ?thesis unfolding vs(2) by (rule sum_list_nonneg)
qed

definition reward_value :: "int \<Rightarrow> pydict \<Rightarrow> int res" where
  "reward_value t r = rbind (py_int (dict_get_or r ''ts_unix'' (PInt 0))) (\<lambda>ts.
     if ts \<le> t then py_int (dict_get_or r ''amount_link'' (PInt 0)) else Inr 0)"

lemma reward_step_value: "reward_step t r acc = rbind (reward_value t r) (\<lambda>v. Inr (acc + v))"
  by (cases "py_int (dict_get_or r ''ts_unix'' (PInt 0))") (simp_all add: reward_step_def reward_value_def)

lemma reward_values: "foldR (reward_step t) rs 0 = rbind (mapR (reward_value t) rs) (\<lambda>vs. Inr (sum_list vs))"
  by (subst foldR_sum [where g = "reward_value t"]) (simp_all add: reward_step_value)

section \<open>Fee attribution partitions the inflow\<close>

definition paying :: "pydict list \<Rightarrow> pydict list" where
  "paying acts = filter (\<lambda>a. pa_counterparty a \<noteq> []) acts"

definition amount_of :: "pydict \<Rightarrow> int" where
  "amount_of a = (case pa_amount a of Inl e \<Rightarrow> 0 | Inr v \<Rightarrow> v)"

definition bucket_key :: "pydict \<Rightarrow> string \<times> string" where
  "bucket_key a = (classify_service (pa_counterparty a), pa_counterparty a)"

lemma bucket_fold:
  "foldR bucket_step acts d = Inr b \<Longrightarrow>
     b = fold (\<lambda>a. dict_add (bucket_key a) (amount_of a)) (paying acts) d"
proof (induction acts arbitrary: d)
  case (Cons a acts)
  then show ?case
    by (auto simp: bucket_step_def Let_def rbind_Inr paying_def bucket_key_def amount_of_def split: if_splits)
qed (simp add: paying_def)

lemma bucket_amounts:
  "foldR bucket_step acts d = Inr b \<Longrightarrow> a \<in> set (paying acts) \<Longrightarrow> pa_amount a = Inr (amount_of a)"
proof (induction acts arbitrary: d)
  case (Cons x acts)
  then show ?case
    by (auto simp: bucket_step_def Let_def rbind_Inr paying_def amount_of_def split: if_splits)
qed (simp add: paying_def)

lemma buckets_by_key:
  assumes "foldR bucket_step acts [] = Inr b"
  shows "b = sum_by_key (map (\<lambda>a. (bucket_key a, amount_of a)) (paying acts))"
  using bucket_fold [OF assms] by (simp add: sum_by_key_def fold_map comp_def)

lemma bucket_key_inj: "bucket_key a = bucket_key a' \<longleftrightarrow> pa_counterparty a = pa_counterparty a'"
  by (auto simp: bucket_key_def)

lemma distinct_sorted_map: "distinct (map f (sort_key g xs)) = distinct (map f xs)"
  by (rule mset_eq_imp_distinct_iff) simp

lemma sum_sorted_map: "sum_list (map f (sort_key g xs)) = sum_list (map f xs)" for f :: "'a \<Rightarrow> int"
  by (metis mset_map mset_sort sum_mset_sum_list)

lemma bucket_sum:
  assumes "a \<in> set (paying acts)"
  shows "sum_list (map snd (filter (\<lambda>(k', v). k' = bucket_key a)
      (map (\<lambda>a. (bucket_key a, amount_of a)) (paying acts)))) =
    (\<Sum>a'\<leftarrow>filter (\<lambda>a'. pa_counterparty a' = pa_counterparty a) acts. amount_of a')"
proof -
  have "filter (\<lambda>a'. bucket_key a' = bucket_key a) (paying acts) =
      filter (\<lambda>a'. pa_counterparty a' = pa_counterparty a) acts"
    using assms by (auto simp: paying_def bucket_key_inj intro!: filter_cong)
  then show ?thesis by (simp add: filter_map comp_def)
qed

section \<open>Properties\<close>

lemma apy_rounded:
  assumes "compute_realized_apy r w = Inr y" "0 < w"
  shows "\<bar>y - of_int (r * SECONDS_PER_YEAR) / of_int w\<bar>
    \<le> \<bar>of_int (r * SECONDS_PER_YEAR) / of_int w\<bar> / 2 ^ 51 + 2 powi (- 1075)"
proof -
  have y: "y = nearest_double (nearest_double (of_int (r * SECONDS_PER_YEAR)) / nearest_double (of_int w))"
    using assms by (auto simp: compute_realized_apy_def py_float_def checked_double_def Let_def rbind_Inr split: if_splits)
  have "\<bar>nearest_double (of_int w) - of_int w\<bar> \<le> of_int w / 2 ^ 53"
    using nearest_double_int_error [of w] assms(2) by simp
  then show ?thesis unfolding y
    by (rule rounded_quotient [OF nearest_double_int_error]) (use assms(2) in simp)
qed

text \<open>C34: when a pool's yield is computed, its cumulative principal is the sum, over the seconds before
  the snapshot, of the principal staked in that second; its rewards are the amounts dated up to the
  snapshot; the yield is \<open>0.0\<close> when nothing was staked, and otherwise the double that lies within one
  part in \<open>2 ^ 51\<close> (and half the least subnormal) of the rewards per year over that integral.\<close>

theorem pool_yield_exact:
  assumes "compute_apy_for_pool pool date t stakes rewards = Inr p"
    and "\<forall>ev \<in> set stakes. \<forall>q a b. stake_fields t ev = Inr (q, a, b) \<longrightarrow> m \<le> a"
  shows "ap_cumulative_principal_link_seconds p = (\<Sum>s\<in>{m..<t}. \<Sum>ev\<leftarrow>stakes. staked_at t s ev)
    \<and> (\<exists>vs. mapR (reward_value t) rewards = Inr vs \<and> ap_cumulative_rewards_link p = sum_list vs)
    \<and> (if ap_cumulative_principal_link_seconds p = 0 then ap_realized_apy p = 0
       else let exact = of_int (ap_cumulative_rewards_link p * SECONDS_PER_YEAR)
              / of_int (ap_cumulative_principal_link_seconds p)
         in \<bar>ap_realized_apy p - exact\<bar> \<le> \<bar>exact\<bar> / 2 ^ 51 + 2 powi (- 1075))"
proof -
  obtain w vs y where w: "compute_time_weighted_principal stakes t = Inr w"
    and vs: "mapR (reward_value t) rewards = Inr vs" and y: "compute_realized_apy (sum_list vs) w = Inr y"
    and p: "p = \<lparr>ap_pool_address = lower pool, ap_snapshot_date = date,
       ap_cumulative_principal_link_seconds = w, ap_cumulative_rewards_link = sum_list vs,
       ap_realized_apy = y\<rparr>"
    using assms(1) by (auto simp: compute_apy_for_pool_def rbind_Inr reward_values)
  from w have "w = (\<Sum>s\<in>{m..<t}. \<Sum>ev\<leftarrow>stakes. staked_at t s ev)"
    by (rule twp_integral) (use assms(2) in blast)
  moreover have "y = 0" if "w = 0" using y that by (simp add: compute_realized_apy_def)
  moreover have "0 < w" if "w \<noteq> 0" using twp_nonneg [OF w] that by simp
  ultimately show ?thesis using vs apy_rounded [OF y] unfolding p by (simp add: Let_def)
qed

theorem pool_yield_exact_witness:
  "\<exists>p. compute_apy_for_pool ''0xP'' ''2026-05-01'' 40
      [[(''principal'', PInt 100), (''start_unix'', PInt 10), (''end_unix'', PInt 30)],
       [(''principal'', PStr ''7''), (''start_unix'', PInt 20)]]
      [[(''ts_unix'', PInt 35), (''amount_link'', PInt 5)], [(''ts_unix'', PInt 41), (''amount_link'', PInt 9)]] = Inr p
    \<and> ap_cumulative_principal_link_seconds p = 2140 \<and> ap_cumulative_rewards_link p = 5"
proof -
  let ?stakes = "[[(''principal'', PInt 100), (''start_unix'', PInt 10), (''end_unix'', PInt 30)],
       [(''principal'', PStr ''7''), (''start_unix'', PInt 20)]]"
  let ?rewards = "[[(''ts_unix'', PInt 35), (''amount_link'', PInt 5)], [(''ts_unix'', PInt 41), (''amount_link'', PInt 9)]]"
  have seven: "py_int (PStr ''7'') = Inr 7" by code_simp
  have f: "map (stake_fields 40) ?stakes = [Inr (100, 10, 30), Inr (7, 20, 40)]"
    by (simp add: stake_fields_def dict_get_or_def seven py_or_def)
  have r: "mapR (reward_value 40) ?rewards = Inr [5, 0]" by (simp add: reward_value_def dict_get_or_def)
  have w: "compute_time_weighted_principal ?stakes 40 = Inr 2140" using f by (simp add: twp_values stake_value_def)
  have "\<exists>y. compute_realized_apy 5 2140 = Inr y"
    by (simp add: compute_realized_apy_def py_float_def checked_double_def SECONDS_PER_YEAR_def
        nearest_double_int [of 157680000, simplified] nearest_double_int [of 2140, simplified])
  then obtain p where p: "compute_apy_for_pool ''0xP'' ''2026-05-01'' 40 ?stakes ?rewards = Inr p"
    "ap_cumulative_principal_link_seconds p = 2140"
    unfolding compute_apy_for_pool_def w reward_values r by auto
  then show ?thesis using pool_yield_exact [OF p(1), of 10] f r by auto
qed

lemma attribution_keys:
  assumes "k \<in> set (map fst (sum_by_key (map (\<lambda>a. (bucket_key a, amount_of a)) (paying acts))))"
  shows "fst k = classify_service (snd k) \<and> snd k \<noteq> '''' \<and> snd k \<in> pa_counterparty ` set acts"
  using assms unfolding sum_by_key_keys by (auto simp: bucket_key_def paying_def)

lemma attribution_addresses_distinct:
  "distinct (map snd (map fst (sum_by_key (map (\<lambda>a. (bucket_key a, amount_of a)) (paying acts)))))"
proof -
  let ?kvs = "map (\<lambda>a. (bucket_key a, amount_of a)) (paying acts)"
  have "inj_on snd (set (map fst (sum_by_key ?kvs)))"
  proof (rule inj_onI)
    fix j k assume "j \<in> set (map fst (sum_by_key ?kvs))" "k \<in> set (map fst (sum_by_key ?kvs))" "snd j = snd k"
    then show "j = k" using attribution_keys [of j acts] attribution_keys [of k acts] by (simp only: prod_eq_iff simp_thms)
  qed
  then show ?thesis using sum_by_key_keys(2) [of ?kvs] by (simp only: distinct_map simp_thms)
qed

text \<open>C33: the fee attributions are in descending order of inflow, with one for each distinct
  counterparty that is not empty, under the service of that counterparty; each inflow is the sum of
  the counterparty's rows, and all of them add up to the amounts of all rows that name one.\<close>

theorem fee_attribution_exact:
  assumes "attribute_pa_fees acts date = Inr out"
  shows "sorted (map (\<lambda>x. - fa_inflow_link x) out) \<and> distinct (map fa_source_address out)
    \<and> set (map fa_source_address out) = pa_counterparty ` set acts - {''''}
    \<and> (\<forall>x \<in> set out. fa_service x = classify_service (fa_source_address x)
         \<and> fa_inflow_link x = (\<Sum>a\<leftarrow>filter (\<lambda>a. pa_counterparty a = fa_source_address x) acts. amount_of a))
    \<and> sum_list (map fa_inflow_link out) = sum_list (map amount_of (paying acts))
    \<and> list_all (\<lambda>a. pa_amount a = Inr (amount_of a)) (paying acts)"
proof -
  have am: "list_all (\<lambda>a. pa_amount a = Inr (amount_of a)) (paying acts)"
    using assms bucket_amounts by (auto simp: attribute_pa_fees_def rbind_Inr list_all_iff)
  let ?kvs = "map (\<lambda>a. (bucket_key a, amount_of a)) (paying acts)"
  let ?at = "map (attribution_of date) (sum_by_key ?kvs)"
  have out: "out = sort_key (\<lambda>x. - fa_inflow_link x) ?at"
    using assms buckets_by_key by (auto simp: attribute_pa_fees_def rbind_Inr)
  have keys: "map fst (sum_by_key ?kvs) = map (\<lambda>x. (fa_service x, fa_source_address x)) ?at"
    and amounts: "map snd (sum_by_key ?kvs) = map fa_inflow_link ?at"
    by (auto simp: attribution_of_def split: prod.splits)
  have each: "fa_source_address x \<noteq> '''' \<and> fa_service x = classify_service (fa_source_address x)
    \<and> fa_inflow_link x = (\<Sum>a\<leftarrow>filter (\<lambda>a. pa_counterparty a = fa_source_address x) acts. amount_of a)"
    if "x \<in> set out" for x
  proof -
    obtain k v where kv: "(k, v) \<in> set (sum_by_key ?kvs)" "x = attribution_of date (k, v)"
      using \<open>x \<in> set out\<close> by (auto simp: out)
    then obtain a where a: "a \<in> set (paying acts)" "k = bucket_key a"
      "v = sum_list (map snd (filter (\<lambda>(k', v). k' = bucket_key a) ?kvs))" by (auto simp: sum_by_key_mem)
    then have "v = (\<Sum>a'\<leftarrow>filter (\<lambda>a'. pa_counterparty a' = pa_counterparty a) acts. amount_of a')"
      by (simp only: bucket_sum)
    with a kv(2) show ?thesis by (simp add: attribution_of_def bucket_key_def paying_def)
  qed
  note attribution_addresses_distinct [of acts]
  then have "distinct (map fa_source_address ?at)" unfolding keys by (simp add: comp_def)
  then have dist: "distinct (map fa_source_address out)" unfolding out distinct_sorted_map .
  have "snd ` set (map fst (sum_by_key ?kvs)) = pa_counterparty ` set acts - {''''}"
    unfolding sum_by_key_keys by (auto simp: bucket_key_def paying_def image_iff)
  then have srcs: "set (map fa_source_address out) = pa_counterparty ` set acts - {''''}"
    unfolding keys by (simp add: out image_image)
  have "sum_list (map fa_inflow_link ?at) = sum_list (map amount_of (paying acts))"
    unfolding amounts [symmetric] sum_by_key_total by (simp add: comp_def)
  then have "sum_list (map fa_inflow_link out) = sum_list (map amount_of (paying acts))"
    unfolding out sum_sorted_map .
  with each dist srcs am show ?thesis by (simp add: out)
qed

theorem fee_attribution_exact_witness:
  "\<exists>out. attribute_pa_fees [[(''counterparty'', PStr ''0xAA''), (''output_amount'', PInt 3)],
      [(''counterparty'', PStr ''''), (''output_amount'', PInt 8)],
      [(''counterparty'', PStr ''0x80226FC0EE2B096224EEAC085BB9A8CBA1146F7D''), (''amount_link'', PStr ''9'')],
      [(''counterparty'', PStr ''0xaa''), (''output_amount'', PInt 4)]] ''2026-05-01'' = Inr out
    \<and> map fa_inflow_link out = [9, 7] \<and> map fa_service out = [''ccip'', ''other'']
    \<and> sum_list (map fa_inflow_link out) = 16"
proof -
  let ?acts = "[[(''counterparty'', PStr ''0xAA''), (''output_amount'', PInt 3)],
      [(''counterparty'', PStr ''''), (''output_amount'', PInt 8)],
      [(''counterparty'', PStr ''0x80226FC0EE2B096224EEAC085BB9A8CBA1146F7D''), (''amount_link'', PStr ''9'')],
      [(''counterparty'', PStr ''0xaa''), (''output_amount'', PInt 4)]]"
  have "map (\<lambda>x. (fa_inflow_link x, fa_service x)) (projr (attribute_pa_fees ?acts ''2026-05-01'')) = [(9, ''ccip''), (7, ''other'')]
      \<and> \<not> isl (attribute_pa_fees ?acts ''2026-05-01'')" by code_simp
  then obtain out where out: "attribute_pa_fees ?acts ''2026-05-01'' = Inr out"
    "map (\<lambda>x. (fa_inflow_link x, fa_service x)) out = [(9, ''ccip''), (7, ''other'')]"
    by (cases "attribute_pa_fees ?acts ''2026-05-01''") auto
  have "map amount_of (paying ?acts) = [3, 9, 4]" by code_simp
  with fee_attribution_exact [OF out(1)] out(2) show ?thesis
    by (intro exI [of _ out]) (auto simp: out(1) map_eq_Cons_conv)
qed

text \<open>The ratio is the double nearest to the share of the distributed rewards that was claimed; the
  unclaimed balance is what was distributed and not claimed, and while it is not negative the ratio
  stays in the documented range from 0 to 1.\<close>

theorem distribution_consistent:
  assumes "compute_distribution_efficiency pool date ds cs = Inr e" "0 < ef_rewards_distributed e"
  shows "ef_claim_ratio e = nearest_double (of_int (ef_rewards_claimed e) / of_int (ef_rewards_distributed e))
    \<and> (\<exists>u. compute_unclaimed_reward_balance ds cs = Inr u \<and> u = ef_rewards_distributed e - ef_rewards_claimed e
         \<and> (0 \<le> u \<and> 0 \<le> ef_rewards_claimed e \<longrightarrow> 0 \<le> ef_claim_ratio e \<and> ef_claim_ratio e \<le> 1))"
  using assms by (auto simp: compute_distribution_efficiency_def compute_unclaimed_reward_balance_def
      rbind_Inr py_truediv_def checked_double_def Let_def divide_le_eq
      intro!: nearest_double_nonneg nearest_double_le_one split: if_splits)

theorem distribution_consistent_witness:
  "\<exists>e. compute_distribution_efficiency ''0xP'' ''2026-05-01'' [[(''amount_link'', PInt 8)], [(''amount_link'', PInt 2)]]
      [[(''amount_link'', PInt 20)]] = Inr e \<and> ef_claim_ratio e = 2"
proof -
  have two: "nearest_double 2 = 2" using nearest_double_int [of 2] by simp
  then obtain e where e: "compute_distribution_efficiency ''0xP'' ''2026-05-01'' [[(''amount_link'', PInt 8)], [(''amount_link'', PInt 2)]]
      [[(''amount_link'', PInt 20)]] = Inr e" "ef_rewards_distributed e = 10" "ef_rewards_claimed e = 20"
    by (simp add: compute_distribution_efficiency_def sum_amount_link_def dict_get_or_def py_truediv_def checked_double_def)
  then show ?thesis using distribution_consistent [OF e(1)] two by simp
qed

end
