(* ===== verification/Proxy_Resolver.thy ===== *)
theory Proxy_Resolver
  imports Evm_Types
begin

text \<open>
  \<open>decoder/proxy_resolver.py\<close>: which implementation a proxy had at a block. The storage reader
  \<open>rpc_call\<close> (address, slot and block to a word, or an exception) and \<open>keccak\<close> are parameters. A
  block is an integer or a text that is passed on.
\<close>

definition EIP1967_IMPL_SLOT :: string where
  "EIP1967_IMPL_SLOT = ''0x360894a13ba1a3210667c828492db98dca3e2076cc3735a920a3ca505d382bbc''"

definition EIP1967_ADMIN_SLOT :: string where
  "EIP1967_ADMIN_SLOT = ''0xb53127684a568b3173ae13b9f8a6016e243e63b6e8ee1178d6a717850b5d6103''"

definition EIP1967_BEACON_SLOT :: string where
  "EIP1967_BEACON_SLOT = ''0xa3f0ad74e5423aebfd80d3ef4346578335a9a72aeaee59ff6cb3582b35133d50''"

section \<open>Operations\<close>

definition storage_word_to_address :: "string \<Rightarrow> string res" where
  "storage_word_to_address word = (let raw = strip_0x word in
     if length raw \<noteq> 64
     then value_error (''storage word must be 32 bytes (64 hex chars), got '' @ show_int (int (length raw)))
     else Inr (''0x'' @ lower (drop 24 raw)))"

definition resolve_implementation_from_config :: "pydict \<Rightarrow> string option" where
  "resolve_implementation_from_config contracts_yaml_phase =
     (case dict_get contracts_yaml_phase ''implementation_address'' of
        PNone \<Rightarrow> None
      | impl \<Rightarrow> Some (lower (py_str impl)))"

text \<open>\<open>if word and int(word, 16) != 0\<close>.\<close>

definition word_set :: "string \<Rightarrow> bool res" where
  "word_set word = (if word = '''' then Inr False else rbind (int_base16 word) (\<lambda>n. Inr (n \<noteq> 0)))"

definition resolve_implementation_via_rpc ::
  "(string \<Rightarrow> string \<Rightarrow> string \<Rightarrow> string res) \<Rightarrow> string \<Rightarrow> int + string \<Rightarrow> string option res" where
  "resolve_implementation_via_rpc rpc_call proxy_address block_number =
     (let proxy = lower proxy_address;
          block_hex = (case block_number of Inl n \<Rightarrow> py_hex n | Inr s \<Rightarrow> s) in
      rbind (rpc_call proxy EIP1967_IMPL_SLOT block_hex) (\<lambda>impl_word.
      rbind (word_set impl_word) (\<lambda>impl_set.
      if impl_set then rbind (storage_word_to_address impl_word) (\<lambda>a. Inr (Some a))
      else rbind (rpc_call proxy EIP1967_BEACON_SLOT block_hex) (\<lambda>beacon_word.
           rbind (word_set beacon_word) (\<lambda>beacon_set.
           if beacon_set then rbind (storage_word_to_address beacon_word) (\<lambda>a. Inr (Some a))
           else Inr None)))))"

definition is_eip1967_proxy_marker :: "string \<Rightarrow> bool res" where
  "is_eip1967_proxy_marker slot_value = (let raw = strip_0x slot_value in
     if length raw \<noteq> 64 then Inr False else rbind (int_base16 raw) (\<lambda>n. Inr (n \<noteq> 0)))"

text \<open>\<open>format(h, "064x")\<close> for a number that is not negative.\<close>

definition hex64 :: "int \<Rightarrow> string" where
  "hex64 h = (let s = show_hex_nat (nat h) in replicate (64 - length s) CHR ''0'' @ s)"

definition derive_eip1967_slot :: "(string \<Rightarrow> byte list) \<Rightarrow> string \<Rightarrow> string res" where
  "derive_eip1967_slot keccak label =
     rbind (int_base16 (to_hex (keccak label))) (\<lambda>k.
       Inr (''0x'' @ hex64 ((k - 1) AND (push_bit 256 1 - 1))))"

definition verify_impl_slot :: "(string \<Rightarrow> byte list) \<Rightarrow> bool res" where
  "verify_impl_slot keccak =
     rbind (derive_eip1967_slot keccak ''eip1967.proxy.implementation'') (\<lambda>s.
       Inr (lower s = EIP1967_IMPL_SLOT))"

section \<open>Words as text\<close>

lemma length_show_hex: "n < 16 ^ k \<Longrightarrow> 0 < k \<Longrightarrow> length (show_hex_nat n) \<le> k"
proof (induction n arbitrary: k rule: show_hex_nat.induct)
  case (1 n)
  show ?case
  proof (cases "n < 16")
    case False
    obtain j where k: "k = Suc j" using "1.prems"(2) by (cases k) auto
    then have "n div 16 < 16 ^ j" "0 < j" using "1.prems"(1) False by (cases j; auto)+
    with 1 False have "length (show_hex_nat (n div 16)) \<le> j" by blast
    with False k show ?thesis by (simp add: show_hex_nat.simps [of n])
  qed (use "1.prems" in \<open>simp add: show_hex_nat.simps [of n]\<close>)
qed

lemma parse_zeros: "parse_num 16 0 p (replicate k CHR ''0'' @ s) = parse_num 16 0 (p \<or> 0 < k) s"
proof (induction k arbitrary: p)
  case (Suc k)
  have "hex_val CHR ''0'' = Some 0" by (simp add: hex_val_def)
  with Suc show ?case by simp
qed simp

lemma hex64_word:
  assumes "n < 2 ^ 256"
  shows "length (hex64 (int n)) = 64" "int_base16 (''0x'' @ hex64 (int n)) = Inr (int n)"
proof -
  have len: "length (show_hex_nat n) \<le> 64" by (rule length_show_hex) (use assms in simp_all)
  then show "length (hex64 (int n)) = 64" by (simp add: hex64_def Let_def)
  have "hex64 (int n) \<noteq> []" by (simp add: hex64_def Let_def)
  moreover have "\<exists>d < 16. c = nibble_char d" if "c \<in> set (hex64 (int n))" for c
  proof -
    have "c = CHR ''0'' \<or> c \<in> set (show_hex_nat n)"
      using that by (auto simp: hex64_def Let_def split: if_splits)
    then show ?thesis
    proof
      assume "c = CHR ''0''"
      moreover have "nibble_char 0 = CHR ''0''" by code_simp
      ultimately show ?thesis by (intro exI [of _ 0]) simp
    qed (rule show_hex_chars)
  qed
  moreover have "parse_num 16 0 False (hex64 (int n)) = Some n"
    using parse_num_show_hex_append [of 0 _ n "[]"] by (simp add: hex64_def Let_def parse_zeros)
  ultimately show "int_base16 (''0x'' @ hex64 (int n)) = Inr (int n)"
    by (rule int_base16_nibbles(1))
qed

text \<open>The word a slot holds, as the 32 bytes that are read.\<close>

definition word_of :: "byte list \<Rightarrow> string" where "word_of bs = ''0x'' @ to_hex bs"

definition address_in :: "byte list \<Rightarrow> string" where "address_in bs = ''0x'' @ to_hex (drop 12 bs)"

lemma word_of_facts:
  assumes "length bs = 32"
  shows "storage_word_to_address (word_of bs) = Inr (address_in bs)"
    and "word_set (word_of bs) = Inr (be_value bs \<noteq> 0)"
    and "is_eip1967_proxy_marker (word_of bs) = Inr (be_value bs \<noteq> 0)"
proof -
  have ne: "bs \<noteq> []" using assms by auto
  show "storage_word_to_address (word_of bs) = Inr (address_in bs)"
    using drop_to_hex [of 12 bs] assms
    by (simp add: storage_word_to_address_def word_of_def address_in_def del: append.simps)
  show "word_set (word_of bs) = Inr (be_value bs \<noteq> 0)"
    using int_base16_to_hex(1) [OF ne] by (simp add: word_set_def word_of_def)
  show "is_eip1967_proxy_marker (word_of bs) = Inr (be_value bs \<noteq> 0)"
    using int_base16_to_hex(2) [OF ne] assms
    by (simp add: is_eip1967_proxy_marker_def word_of_def del: append.simps)
qed

section \<open>Properties\<close>

text \<open>Over a node that answers every read with a 32-byte word, resolution returns the low
  twenty bytes of the implementation slot when that word is not zero, else those of the beacon slot,
  else nothing; the marker test says exactly that a word is not zero.\<close>

theorem implementation_resolution:
  assumes "\<forall>slot. rpc_call (lower proxy) slot (py_hex n) = Inr (word_of (read slot)) \<and> length (read slot) = 32"
  shows "resolve_implementation_via_rpc rpc_call proxy (Inl n) = Inr
     (if set (read EIP1967_IMPL_SLOT) \<subseteq> {0}
      then (if set (read EIP1967_BEACON_SLOT) \<subseteq> {0} then None
            else Some (address_in (read EIP1967_BEACON_SLOT)))
      else Some (address_in (read EIP1967_IMPL_SLOT)))
    \<and> is_eip1967_proxy_marker (word_of (read slot)) = Inr (\<not> set (read slot) \<subseteq> {0})"
  using assms
  by (simp add: resolve_implementation_via_rpc_def word_of_facts be_value_zero del: set_subset_Cons)

theorem implementation_resolution_witness:
  "resolve_implementation_via_rpc
     (\<lambda>a slot b. Inr (word_of (if slot = EIP1967_BEACON_SLOT then replicate 12 0 @ replicate 20 0xAB else replicate 32 0)))
     ''0xProxy'' (Inl 18000000) = Inr (Some (''0x'' @ concat (replicate 20 ''ab'')))"
proof -
  let ?read = "\<lambda>slot. if slot = EIP1967_BEACON_SLOT then replicate 12 0 @ replicate 20 0xAB else replicate 32 (0 :: byte)"
  have ne: "EIP1967_IMPL_SLOT \<noteq> EIP1967_BEACON_SLOT" by code_simp
  have a: "address_in (?read EIP1967_BEACON_SLOT) = ''0x'' @ concat (replicate 20 ''ab'')" by code_simp
  have "set (?read EIP1967_IMPL_SLOT) \<subseteq> {0} \<and> \<not> set (?read EIP1967_BEACON_SLOT) \<subseteq> {0}"
    using ne by simp
  then show ?thesis
    using implementation_resolution [of "\<lambda>a slot b. Inr (word_of (?read slot))" "''0xProxy''" 18000000 ?read "''''"] a
    by simp
qed

text \<open>The derived slot is 66 characters long and reads back as the hash less one, modulo
  \<open>2 ^ 256\<close>: a hash of zero wraps to the greatest word.\<close>

theorem derived_slot:
  assumes "length (keccak label) = 32"
  shows "\<exists>s. derive_eip1967_slot keccak label = Inr s \<and> length s = 66
    \<and> int_base16 s = Inr ((int (be_value (keccak label)) - 1) mod 2 ^ 256)"
proof -
  have ne: "keccak label \<noteq> []" using assms by auto
  let ?h = "(int (be_value (keccak label)) - 1) mod 2 ^ 256"
  have mask: "(k - 1) AND (push_bit 256 1 - 1) = (k - 1) mod 2 ^ 256" for k :: int
    using take_bit_eq_mod [of 256 "k - 1"] by (simp add: take_bit_eq_mask mask_eq_exp_minus_1 push_bit_eq_mult)
  have n: "int (nat ?h) = ?h" "nat ?h < 2 ^ 256" by (simp_all add: nat_less_iff)
  have "derive_eip1967_slot keccak label = Inr (''0x'' @ hex64 (int (nat ?h)))"
    unfolding derive_eip1967_slot_def int_base16_to_hex(2) [OF ne] n(1) by (simp only: rbind_simps mask)
  moreover have "length (''0x'' @ hex64 (int (nat ?h))) = 66" using hex64_word(1) [OF n(2)] by simp
  ultimately show ?thesis using hex64_word(2) [OF n(2)] n(1) by metis
qed

theorem derived_slot_witness:
  "\<exists>s. derive_eip1967_slot (\<lambda>label. replicate 32 0) ''x'' = Inr s \<and> int_base16 s = Inr (2 ^ 256 - 1)"
proof -
  have "be_value (replicate 32 0) = 0" by (simp add: be_value_zero)
  then show ?thesis using derived_slot [of "\<lambda>label. replicate 32 0" "''x''"] by auto
qed

end
