(* ===== verification/Pa_Reserves.thy ===== *)
theory Pa_Reserves
  imports Proxy_Resolver Payment_Abstraction Trace_Decoder
begin

text \<open>
  \<open>protocols/payment_abstraction/reserves_resolver.py\<close>: the LINK that lands at the Reserves contract,
  found in the calls of the traces, and the path of addresses that led to it.
\<close>

definition LINK_TOKEN_ADDRESS :: string where
  "LINK_TOKEN_ADDRESS = ''0x514910771af9ca656af840dff83e8264ecf986ca''"

record ReservesInflow =
  ri_tx_hash :: string
  ri_block_number :: int
  ri_amount :: int
  ri_sender :: string
  ri_path :: "string list"
  ri_source :: string

section \<open>Operations\<close>

definition to_reserves :: "TraceTokenCall \<Rightarrow> bool" where
  "to_reserves c = (lower (tt_token_address c) = LINK_TOKEN_ADDRESS
     \<and> lower (tt_to_addr c) = lower PA_RESERVES_ADDRESS)"

definition inflow_of :: "TraceTokenCall \<Rightarrow> ReservesInflow" where
  "inflow_of c = \<lparr>ri_tx_hash = tt_tx_hash c, ri_block_number = tt_block_number c,
     ri_amount = tt_amount c, ri_sender = tt_from_addr c, ri_path = [], ri_source = ''trace''\<rparr>"

definition resolve_reserves_inflows_from_traces :: "TraceTokenCall list \<Rightarrow> ReservesInflow list" where
  "resolve_reserves_inflows_from_traces trace_calls = map inflow_of (filter to_reserves trace_calls)"

text \<open>\<open>xs[i]\<close>: a negative index counts from the end.\<close>

definition py_index :: "'a list \<Rightarrow> int \<Rightarrow> 'a res" where
  "py_index xs i = (let j = (if i < 0 then i + int (length xs) else i) in
     if 0 \<le> j \<and> j < int (length xs) then Inr (xs ! nat j)
     else Inl (Raise IndexError ''list index out of range''))"

definition push_addr :: "string option \<Rightarrow> string list \<Rightarrow> string list" where
  "push_addr to_addr path = (case to_addr of None \<Rightarrow> path
     | Some a \<Rightarrow> let addr = lower a in if path = [] \<or> last path \<noteq> addr then path @ [addr] else path)"

fun walk_path :: "RawTrace \<Rightarrow> int list \<Rightarrow> string list \<Rightarrow> string list res" where
  "walk_path node [] path = Inr path"
| "walk_path node (idx # rest) path =
     (if idx \<ge> int (length (calls node)) then Inr path
      else rbind (py_index (calls node) idx) (\<lambda>child.
             walk_path child rest (push_addr (tf_to_addr (frame child)) path)))"

definition enrich_inflow_with_path :: "ReservesInflow \<Rightarrow> RawTrace \<Rightarrow> int list \<Rightarrow> ReservesInflow res" where
  "enrich_inflow_with_path inflow root leaf_trace_address =
     rbind (walk_path root leaf_trace_address []) (\<lambda>path.
       Inr \<lparr>ri_tx_hash = ri_tx_hash inflow, ri_block_number = ri_block_number inflow,
         ri_amount = ri_amount inflow, ri_sender = ri_sender inflow, ri_path = path,
         ri_source = ri_source inflow\<rparr>)"

definition resolve_fee_aggregator_implementation :: "pydict \<Rightarrow> string option res" where
  "resolve_fee_aggregator_implementation phase_yaml =
     (let to_block_value = dict_get phase_yaml ''to_block'' in
      rbind (py_int (PStr (py_str (dict_get_or phase_yaml ''from_block'' (PInt 0))))) (\<lambda>from_block.
      rbind (if to_block_value \<noteq> PNone then rbind (py_int (PStr (py_str to_block_value))) (\<lambda>b. Inr (Some b))
             else Inr None) (\<lambda>to_block.
      Inr (resolve_implementation_from_config phase_yaml))))"

definition aggregate_reserves_inflows_per_tx :: "ReservesInflow list \<Rightarrow> (string \<times> int) list" where
  "aggregate_reserves_inflows_per_tx inflows =
     fold (\<lambda>f. dict_add (ri_tx_hash f) (ri_amount f)) inflows []"

section \<open>The path to a call\<close>

text \<open>The nodes below the root on the way to a position, from the top.\<close>

fun nodes_to :: "RawTrace \<Rightarrow> nat list \<Rightarrow> RawTrace list" where
  "nodes_to t [] = []"
| "nodes_to t (i # p) = (if i < length (calls t) then calls t ! i # nodes_to (calls t ! i) p else [])"

definition callee_of :: "RawTrace \<Rightarrow> string option" where
  "callee_of t = map_option lower (tf_to_addr (frame t))"

lemma remdups_adj_twice: "remdups_adj (xs @ x # x # ys) = remdups_adj (xs @ x # ys)"
  by (induction xs rule: remdups_adj.induct) simp_all

lemma push_addrs:
  "fold (\<lambda>t. push_addr (tf_to_addr (frame t))) ts path =
     remdups_adj (path @ List.map_filter callee_of ts)" if "remdups_adj path = path"
  using that
proof (induction ts arbitrary: path)
  case (Cons t ts)
  show ?case
  proof (cases "tf_to_addr (frame t)")
    case None
    with Cons show ?thesis by (simp add: push_addr_def callee_of_def map_filter_simps)
  next
    case (Some a)
    let ?p = "push_addr (Some a) path"
    have p: "remdups_adj ?p = ?p \<and> (\<forall>xs. remdups_adj (?p @ xs) = remdups_adj (path @ lower a # xs))"
    proof (cases "path \<noteq> [] \<and> last path = lower a")
      case True
      then obtain ys where "path = ys @ [lower a]" by (metis append_butlast_last_id)
      then show ?thesis using Cons.prems by (simp add: push_addr_def Let_def remdups_adj_twice)
    next
      case False
      then have "?p = path @ [lower a]" by (auto simp: push_addr_def Let_def)
      moreover have "remdups_adj (path @ [lower a]) = remdups_adj path @ [lower a]"
        using False by (subst remdups_adj_append') auto
      ultimately show ?thesis using Cons.prems by simp
    qed
    then have "fold (\<lambda>t. push_addr (tf_to_addr (frame t))) ts ?p =
        remdups_adj (?p @ List.map_filter callee_of ts)" by (intro Cons.IH) simp
    moreover have "callee_of t = Some (lower a)" using Some by (simp add: callee_of_def)
    ultimately show ?thesis using p Some by simp
  qed
qed (simp add: map_filter_simps)

lemma walk_path_valid:
  "node_at t p \<noteq> None \<Longrightarrow> walk_path t (map int p) path =
     Inr (fold (\<lambda>t. push_addr (tf_to_addr (frame t))) (nodes_to t p) path)"
  by (induction t p arbitrary: path rule: nodes_to.induct) (auto simp: py_index_def split: if_splits)

lemma nodes_to_last: "node_at t p = Some s \<Longrightarrow> p \<noteq> [] \<Longrightarrow> last (nodes_to t p) = s \<and> nodes_to t p \<noteq> []"
proof (induction t p rule: nodes_to.induct)
  case (2 t i p)
  then show ?case by (cases p) (auto split: if_splits)
qed simp

lemma aggregate_conv:
  "aggregate_reserves_inflows_per_tx fs = sum_by_key (map (\<lambda>f. (ri_tx_hash f, ri_amount f)) fs)"
  by (simp add: aggregate_reserves_inflows_per_tx_def sum_by_key_def fold_map comp_def)

lemma map_filter_snoc:
  "List.map_filter f (xs @ [x]) = List.map_filter f xs @ (case f x of None \<Rightarrow> [] | Some y \<Rightarrow> [y])"
  by (induction xs) (auto split: option.splits)

definition last_callee_ok :: "RawTrace \<Rightarrow> string list \<Rightarrow> bool" where
  "last_callee_ok leaf path = (case callee_of leaf of None \<Rightarrow> True | Some a \<Rightarrow> path \<noteq> [] \<and> last path = a)"

section \<open>Properties\<close>

text \<open>Enriching an inflow with the address of a call of the tree changes nothing but the path,
  which is the callees met on the way from the root to that call, lowercase, with neighbouring
  repetitions removed, and ends in the callee of the call itself.\<close>

theorem inflow_path_exact:
  assumes "node_at root p = Some leaf" and "p \<noteq> []"
  shows "\<exists>r. enrich_inflow_with_path inflow root (map int p) = Inr r
    \<and> ri_path r = remdups_adj (List.map_filter callee_of (nodes_to root p))
    \<and> last_callee_ok leaf (ri_path r)
    \<and> r\<lparr>ri_path := ri_path inflow\<rparr> = inflow"
proof -
  let ?ns = "nodes_to root p"
  let ?path = "remdups_adj (List.map_filter callee_of ?ns)"
  have "walk_path root (map int p) [] = Inr ?path"
    using assms(1) push_addrs [of "[]" ?ns] by (simp add: walk_path_valid)
  moreover obtain us where us: "?ns = us @ [leaf]"
    using nodes_to_last [OF assms] by (metis append_butlast_last_id)
  have "last_callee_ok leaf ?path"
    unfolding us map_filter_snoc by (cases "callee_of leaf") (simp_all add: last_callee_ok_def)
  ultimately show ?thesis by (simp add: enrich_inflow_with_path_def)
qed

theorem inflow_path_exact_witness:
  "\<exists>r. enrich_inflow_with_path \<lparr>ri_tx_hash = ''0xt'', ri_block_number = 1, ri_amount = 5, ri_sender = ''0xs'',
        ri_path = [], ri_source = ''trace''\<rparr>
      (RawTrace (call_frame [] ''0xR'' '''' None)
        [RawTrace (call_frame [0] ''0xA'' '''' None)
          [RawTrace (call_frame [0, 0] ''0xa'' '''' None)
            [RawTrace (call_frame [0, 0, 0] ''0xB'' '''' None) []]]]) [0, 0, 0] = Inr r
     \<and> ri_path r = [''0xa'', ''0xb'']"
proof -
  let ?inflow = "\<lparr>ri_tx_hash = ''0xt'', ri_block_number = 1, ri_amount = 5, ri_sender = ''0xs'',
        ri_path = [], ri_source = ''trace''\<rparr>"
  let ?leaf = "RawTrace (call_frame [0, 0, 0] ''0xB'' '''' None) []"
  let ?mid = "RawTrace (call_frame [0, 0] ''0xa'' '''' None) [?leaf]"
  let ?root = "RawTrace (call_frame [] ''0xR'' '''' None) [RawTrace (call_frame [0] ''0xA'' '''' None) [?mid]]"
  have n: "node_at ?root [0, 0, 0] = Some ?leaf" by simp
  have "remdups_adj (List.map_filter callee_of (nodes_to ?root [0, 0, 0])) = [''0xa'', ''0xb'']" by code_simp
  with inflow_path_exact [OF n, of ?inflow] show ?thesis by auto
qed

text \<open>The inflow of a transaction is the sum of the amounts of its calls that move LINK to the
  Reserves; a transaction is listed exactly when it has such a call, and nothing else is counted.\<close>

theorem reserves_totals_exact:
  "(tx, s) \<in> set (aggregate_reserves_inflows_per_tx (resolve_reserves_inflows_from_traces cs)) \<longleftrightarrow>
     filter (\<lambda>c. to_reserves c \<and> tt_tx_hash c = tx) cs \<noteq> []
     \<and> s = sum_list (map tt_amount (filter (\<lambda>c. to_reserves c \<and> tt_tx_hash c = tx) cs))"
proof -
  let ?kvs = "map (\<lambda>f. (ri_tx_hash f, ri_amount f)) (resolve_reserves_inflows_from_traces cs)"
  have kvs: "?kvs = map (\<lambda>c. (tt_tx_hash c, tt_amount c)) (filter to_reserves cs)"
    by (simp add: resolve_reserves_inflows_from_traces_def inflow_of_def)
  have "tx \<in> fst ` set ?kvs \<longleftrightarrow> filter (\<lambda>c. to_reserves c \<and> tt_tx_hash c = tx) cs \<noteq> []"
    unfolding kvs by (auto simp: filter_empty_conv image_image)
  moreover have "filter (\<lambda>c. tt_tx_hash c = tx) (filter to_reserves cs) =
      filter (\<lambda>c. to_reserves c \<and> tt_tx_hash c = tx) cs" by (simp add: conj_commute)
  then have "sum_list (map snd (filter (\<lambda>(k, v). k = tx) ?kvs)) =
      sum_list (map tt_amount (filter (\<lambda>c. to_reserves c \<and> tt_tx_hash c = tx) cs))"
    unfolding kvs by (simp add: filter_map comp_def)
  ultimately show ?thesis unfolding aggregate_conv sum_by_key_mem by simp
qed

end
