(* ===== verification/Rpc_Fetch.thy ===== *)
theory Rpc_Fetch
  imports Evm_Types "HOL-Library.Sublist"
begin

text \<open>
  \<open>ingestion/rpc/\<close>, the fetchers on top of the client. The client is a parameter: \<open>get_logs n f t\<close> is
  the answer to the \<open>n\<close>-th request of a run, for the blocks \<open>f\<close> to \<open>t\<close> (the address and the topics,
  which are passed through, are part of it), so that a node may fail at one time and answer at
  another. The two loops that need not end are partial functions: \<open>None\<close> is a loop that runs forever.
\<close>

type_synonym 'l log_source = "nat \<Rightarrow> int \<Rightarrow> int \<Rightarrow> 'l list res"

section \<open>Windows of logs (\<open>log_fetcher.py\<close>)\<close>

text \<open>The generator, run to its end: the windows it yields, and the exception that ended it.\<close>

partial_function (option) fetch_logs_windowed ::
  "'l log_source \<Rightarrow> nat \<Rightarrow> int \<Rightarrow> int \<Rightarrow> int \<Rightarrow> ('l list list \<times> py_err option) option" where
  "fetch_logs_windowed get_logs n cur to_block window_size =
     (if cur \<le> to_block
      then (let last_block = min (cur + window_size - 1) to_block in
        case get_logs n cur last_block of
          Inl e \<Rightarrow> Some ([], Some e)
        | Inr logs \<Rightarrow> Option.bind (fetch_logs_windowed get_logs (Suc n) (last_block + 1) to_block window_size)
            (\<lambda>(rest, err). Some (logs # rest, err)))
      else Some ([], None))"

partial_function (option) adaptive_loop ::
  "'l log_source \<Rightarrow> nat \<Rightarrow> int \<Rightarrow> int \<Rightarrow> int \<Rightarrow> int \<Rightarrow> 'l list \<Rightarrow> 'l list res option" where
  "adaptive_loop get_logs n window cur to_block min_window out =
     (if cur \<le> to_block
      then (let last_block = min (cur + window - 1) to_block in
        case get_logs n cur last_block of
          Inr logs \<Rightarrow> adaptive_loop get_logs (Suc n) window (last_block + 1) to_block min_window (out @ logs)
        | Inl e \<Rightarrow> if window div 2 < min_window then Some (Inl e)
            else adaptive_loop get_logs (Suc n) (window div 2) cur to_block min_window out)
      else Some (Inr out))"

definition fetch_logs_with_adaptive_window ::
  "'l log_source \<Rightarrow> int \<Rightarrow> int \<Rightarrow> int \<Rightarrow> int \<Rightarrow> 'l list res option" where
  "fetch_logs_with_adaptive_window get_logs from_block to_block initial_window min_window =
     adaptive_loop get_logs 0 initial_window from_block to_block min_window []"

section \<open>Blocks, receipts, traces, balances\<close>

text \<open>\<open>block_fetcher.py\<close> and \<open>transaction_fetcher.py\<close>: the client's \<open>get_block\<close>.\<close>

definition fetch_block_range :: "(int \<Rightarrow> Block res) \<Rightarrow> int \<Rightarrow> int \<Rightarrow> Block list res" where
  "fetch_block_range get_block from_block to_block = mapR get_block [from_block..to_block]"

definition fetch_canonical_block_headers :: "(int \<Rightarrow> Block res) \<Rightarrow> int \<Rightarrow> int \<Rightarrow> BlockHeader list res" where
  "fetch_canonical_block_headers get_block from_block to_block =
     mapR (\<lambda>b. rbind (get_block b) (\<lambda>blk. Inr (bk_header blk))) [from_block..to_block]"

definition fetch_transactions_for_block :: "(int \<Rightarrow> Block res) \<Rightarrow> int \<Rightarrow> Transaction list res" where
  "fetch_transactions_for_block get_block block_number =
     rbind (get_block block_number) (\<lambda>block.
       Inr (case bk_full_transactions block of None \<Rightarrow> [] | Some txs \<Rightarrow> txs))"

definition fetch_transactions_batch :: "(string \<Rightarrow> Transaction res) \<Rightarrow> string list \<Rightarrow> Transaction list res" where
  "fetch_transactions_batch get_transaction tx_hashes = mapR get_transaction tx_hashes"

text \<open>\<open>receipt_fetcher.py\<close>: the slices \<open>xs[i:i+n]\<close> for \<open>i\<close> in \<open>range(0, len(xs), n)\<close>; a step of zero
  raises, a negative one gives no slice.\<close>

function chunks :: "nat \<Rightarrow> 'a list \<Rightarrow> 'a list list" where
  "chunks n xs = (if n = 0 \<or> xs = [] then [] else take n xs # chunks n (drop n xs))"
  by pat_completeness auto
termination by (relation "measure (\<lambda>(n, xs). length xs)") auto

declare chunks.simps [simp del]

definition fetch_receipts_for_txs ::
  "(string list \<Rightarrow> Receipt list res) \<Rightarrow> string list \<Rightarrow> int \<Rightarrow> Receipt list res" where
  "fetch_receipts_for_txs get_receipts_batch tx_hashes batch_size =
     (if batch_size = 0 then value_error ''range() arg 3 must not be zero''
      else foldR (\<lambda>chunk out. rbind (get_receipts_batch chunk) (\<lambda>rs. Inr (out @ rs)))
             (chunks (nat batch_size) tx_hashes) [])"

definition fetch_receipts_for_block ::
  "(int \<Rightarrow> Block res) \<Rightarrow> (string list \<Rightarrow> Receipt list res) \<Rightarrow> int \<Rightarrow> Receipt list res" where
  "fetch_receipts_for_block get_block get_receipts_batch block_number =
     rbind (get_block block_number) (\<lambda>block.
       fetch_receipts_for_txs get_receipts_batch (bk_transaction_hashes block) 50)"

text \<open>\<open>trace_fetcher.py\<close>.\<close>

definition fetch_traces_for_txs :: "(string \<Rightarrow> RawTrace res) \<Rightarrow> string list \<Rightarrow> (string \<times> RawTrace) list res" where
  "fetch_traces_for_txs fetch_trace tx_hashes =
     foldR (\<lambda>tx_hash out. rbind (fetch_trace tx_hash) (\<lambda>t. Inr (AList.update tx_hash t out))) tx_hashes []"

text \<open>\<open>balance_fetcher.py\<close>.\<close>

definition snapshot_token_balance ::
  "int res \<Rightarrow> (string \<Rightarrow> string \<Rightarrow> int \<Rightarrow> int res) \<Rightarrow> string \<Rightarrow> string \<Rightarrow> int \<Rightarrow> TokenBalance res" where
  "snapshot_token_balance get_chain_id get_token_balance token_address holder_address block_number =
     rbind (get_token_balance token_address holder_address block_number) (\<lambda>balance.
     rbind get_chain_id (\<lambda>chain_id.
     Inr \<lparr>tb_chain_id = chain_id, tb_block_number = block_number, tb_token_address = lower token_address,
       tb_holder_address = lower holder_address, tb_balance = balance\<rparr>))"

definition snapshot_token_balances_batch ::
  "int res \<Rightarrow> (string \<Rightarrow> string \<Rightarrow> int \<Rightarrow> int res) \<Rightarrow> string \<Rightarrow> string list \<Rightarrow> int \<Rightarrow> TokenBalance list res" where
  "snapshot_token_balances_batch get_chain_id get_token_balance token_address holders block_number =
     mapR (\<lambda>h. snapshot_token_balance get_chain_id get_token_balance token_address h block_number) holders"

definition snapshot_balances_over_blocks ::
  "int res \<Rightarrow> (string \<Rightarrow> string \<Rightarrow> int \<Rightarrow> int res) \<Rightarrow> string \<Rightarrow> string \<Rightarrow> int list \<Rightarrow> TokenBalance list res" where
  "snapshot_balances_over_blocks get_chain_id get_token_balance token_address holder block_numbers =
     mapR (\<lambda>b. snapshot_token_balance get_chain_id get_token_balance token_address holder b) block_numbers"

section \<open>A node that answers from one chain\<close>

text \<open>Whenever the node answers, it answers with the logs of one fixed chain, ordered by block, that
  lie in the blocks asked for.\<close>

definition in_range :: "int \<Rightarrow> int \<Rightarrow> RawLog list \<Rightarrow> RawLog list" where
  "in_range f t ls = filter (\<lambda>l. f \<le> lg_block_number l \<and> lg_block_number l \<le> t) ls"

definition serves_chain :: "RawLog log_source \<Rightarrow> RawLog list \<Rightarrow> bool" where
  "serves_chain get_logs chain \<longleftrightarrow> sorted (map lg_block_number chain)
     \<and> (\<forall>n f t ls. get_logs n f t = Inr ls \<longrightarrow> ls = in_range f t chain)"

lemma in_range_empty: "t < f \<Longrightarrow> in_range f t ls = []"
  by (auto simp: in_range_def filter_empty_conv)

lemma in_range_split:
  assumes "sorted (map lg_block_number chain)" "f \<le> m + 1" "m \<le> t"
  shows "in_range f t chain = in_range f m chain @ in_range (m + 1) t chain"
  using assms unfolding in_range_def
proof (induction chain)
  case (Cons l ls)
  show ?case
  proof (cases "lg_block_number l \<le> m")
    case True
    with Cons show ?thesis by auto
  next
    case False
    then have "filter (\<lambda>l. f \<le> lg_block_number l \<and> lg_block_number l \<le> m) (l # ls) = []"
      using Cons.prems by (fastforce simp: filter_empty_conv)
    moreover have "filter (\<lambda>l. f \<le> lg_block_number l \<and> lg_block_number l \<le> m) ls = []"
      using calculation by (auto split: if_splits)
    ultimately show ?thesis using Cons False by auto
  qed
qed simp

lemma serves_step:
  assumes "serves_chain get_logs chain" "get_logs n cur last_block = Inr ls" "cur \<le> last_block + 1" "last_block \<le> to_block"
  shows "ls @ in_range (last_block + 1) to_block chain = in_range cur to_block chain"
  using assms by (simp add: serves_chain_def in_range_split [of chain cur "last_block" to_block])

subsection \<open>The adaptive loop ends\<close>

text \<open>Each turn advances the block or halves the window, which stays positive.\<close>

lemma adaptive_loop_ends:
  assumes "1 \<le> window" "1 \<le> min_window"
  shows "\<exists>r. adaptive_loop get_logs n window cur to_block min_window out = Some r"
  using assms(1)
proof (induction "nat (to_block - cur + 1) + nat window" arbitrary: n window cur out rule: less_induct)
  case less
  show ?case
  proof (cases "cur \<le> to_block")
    case True
    let ?last_block = "min (cur + window - 1) to_block"
    show ?thesis
    proof (cases "get_logs n cur ?last_block")
      case (Inl e)
      show ?thesis
      proof (cases "window div 2 < min_window")
        case False
        then have "\<exists>r. adaptive_loop get_logs (Suc n) (window div 2) cur to_block min_window out = Some r"
          using less.prems assms(2) by (intro less.hyps) auto
        with True Inl False show ?thesis by (simp add: adaptive_loop.simps [of _ n] Let_def)
      qed (use True Inl in \<open>simp add: adaptive_loop.simps [of _ n] Let_def\<close>)
    next
      case (Inr ls)
      have "\<exists>r. adaptive_loop get_logs (Suc n) window (?last_block + 1) to_block min_window (out @ ls) = Some r"
        using less.prems True by (intro less.hyps) auto
      with True Inr show ?thesis by (simp add: adaptive_loop.simps [of _ n] Let_def)
    qed
  qed (simp add: adaptive_loop.simps)
qed

text \<open>What it returns: the logs of the whole range after those already collected, or the exception of
  a request for fewer than \<open>2 * min_window\<close> blocks.\<close>

lemma adaptive_loop_result:
  assumes "adaptive_loop get_logs n window cur to_block min_window out = Some r"
    and "1 \<le> window" "serves_chain get_logs chain" "1 \<le> min_window"
  shows "r = Inr (out @ in_range cur to_block chain)
    \<or> (\<exists>e n f t. r = Inl e \<and> get_logs n f t = Inl e \<and> t - f + 1 < 2 * min_window)"
  using assms(1,2)
proof (induction "nat (to_block - cur + 1) + nat window" arbitrary: n window cur out rule: less_induct)
  case less
  let ?last_block = "min (cur + window - 1) to_block"
  show ?case
  proof (cases "cur \<le> to_block")
    case True
    show ?thesis
    proof (cases "get_logs n cur ?last_block")
      case (Inl e)
      show ?thesis
      proof (cases "window div 2 < min_window")
        case True
        with less.prems Inl \<open>cur \<le> to_block\<close> have "r = Inl e" by (simp add: adaptive_loop.simps [of _ n] Let_def)
        moreover have "?last_block - cur + 1 < 2 * min_window" using True by linarith
        ultimately show ?thesis using Inl by blast
      next
        case False
        with less.prems(1) Inl \<open>cur \<le> to_block\<close>
        have l: "adaptive_loop get_logs (Suc n) (window div 2) cur to_block min_window out = Some r"
          by (simp add: adaptive_loop.simps [of _ n] Let_def)
        show ?thesis using False less.prems(2) assms(4) by (intro less.hyps [OF _ l]) auto
      qed
    next
      case (Inr ls)
      with less.prems(1) True
      have l: "adaptive_loop get_logs (Suc n) window (?last_block + 1) to_block min_window (out @ ls) = Some r"
        by (simp add: adaptive_loop.simps [of _ n] Let_def)
      have "ls @ in_range (?last_block + 1) to_block chain = in_range cur to_block chain"
        using serves_step [OF assms(3) Inr] True less.prems(2) by simp
      then show ?thesis using less.hyps [OF _ l less.prems(2)] True less.prems(2) by (simp add: min_def)
    qed
  next
    case False
    with less.prems(1) show ?thesis by (simp add: adaptive_loop.simps [of _ n] in_range_empty)
  qed
qed

subsection \<open>Fixed windows\<close>

lemma windowed_result:
  assumes "serves_chain get_logs chain" "1 \<le> window_size"
  shows "\<exists>yss err. fetch_logs_windowed get_logs n cur to_block window_size = Some (yss, err)
    \<and> (case err of None \<Rightarrow> concat yss = in_range cur to_block chain
       | Some e \<Rightarrow> \<exists>n f t. get_logs n f t = Inl e \<and> prefix (concat yss) (in_range cur to_block chain))"
proof (induction "nat (to_block - cur + 1)" arbitrary: n cur rule: less_induct)
  case less
  let ?last_block = "min (cur + window_size - 1) to_block"
  show ?case
  proof (cases "cur \<le> to_block")
    case True
    show ?thesis
    proof (cases "get_logs n cur ?last_block")
      case (Inl e)
      with True show ?thesis by (auto simp: fetch_logs_windowed.simps [of _ n] Let_def)
    next
      case (Inr ls)
      have s: "in_range cur to_block chain = ls @ in_range (?last_block + 1) to_block chain"
        using serves_step [OF assms(1) Inr] True assms(2) by simp
      have "nat (to_block - (?last_block + 1) + 1) < nat (to_block - cur + 1)" using True assms(2) by (simp add: min_def)
      then obtain yss err where y: "fetch_logs_windowed get_logs (Suc n) (?last_block + 1) to_block window_size = Some (yss, err)"
        "case err of None \<Rightarrow> concat yss = in_range (?last_block + 1) to_block chain
         | Some e \<Rightarrow> \<exists>n f t. get_logs n f t = Inl e \<and> prefix (concat yss) (in_range (?last_block + 1) to_block chain)"
        using less.hyps [of "?last_block + 1" "Suc n"] by blast
      have "fetch_logs_windowed get_logs n cur to_block window_size = Some (ls # yss, err)"
        using True Inr y(1) by (simp add: fetch_logs_windowed.simps [of _ n] Let_def)
      then show ?thesis using y(2) by (auto simp: s split: option.splits)
    qed
  next
    case False
    then show ?thesis by (simp add: fetch_logs_windowed.simps [of _ n] in_range_empty)
  qed
qed

subsection \<open>Batches of receipts\<close>

lemma concat_chunks: "0 < n \<Longrightarrow> concat (chunks n xs) = xs"
proof (induction n xs rule: chunks.induct)
  case (1 n xs)
  then show ?case by (subst chunks.simps) auto
qed

lemma chunk_length: "c \<in> set (chunks n xs) \<Longrightarrow> c \<noteq> [] \<and> length c \<le> n"
proof (induction n xs rule: chunks.induct)
  case (1 n xs)
  then show ?case by (subst (asm) (2) chunks.simps) (auto split: if_splits)
qed

lemma batches:
  "foldR (\<lambda>chunk out. rbind (mapR f chunk) (\<lambda>rs. Inr (out @ rs))) cs out =
     rbind (mapR f (concat cs)) (\<lambda>rs. Inr (out @ rs))"
proof (induction cs arbitrary: out)
  case (Cons c cs)
  then show ?case by (cases "mapR f c"; cases "mapR f (concat cs)") (simp_all add: mapR_append)
qed simp

section \<open>Properties\<close>

text \<open>C10: with an initial and a minimal window of at least one block, and against a node that answers
  from one chain and never refuses a request for fewer than \<open>2 * min_window\<close> blocks, the adaptive fetch
  returns, and what it returns is exactly the logs of the range, in order, whatever larger requests the
  node refuses and when.\<close>

theorem adaptive_fetch_complete:
  assumes "serves_chain get_logs chain" "1 \<le> initial_window" "1 \<le> min_window"
    and "\<forall>n f t. t - f + 1 < 2 * min_window \<longrightarrow> (\<exists>ls. get_logs n f t = Inr ls)"
  shows "fetch_logs_with_adaptive_window get_logs from_block to_block initial_window min_window =
     Some (Inr (in_range from_block to_block chain))"
proof -
  obtain r where r: "fetch_logs_with_adaptive_window get_logs from_block to_block initial_window min_window = Some r"
    using adaptive_loop_ends [OF assms(2,3)] unfolding fetch_logs_with_adaptive_window_def by blast
  with adaptive_loop_result [OF _ assms(2,1,3)] assms(4)
  have "r = Inr (in_range from_block to_block chain)"
    unfolding fetch_logs_with_adaptive_window_def by (metis append_Nil sum.distinct(1))
  with r show ?thesis by simp
qed

definition log_at :: "int \<Rightarrow> RawLog" where
  "log_at b = \<lparr>lg_chain_id = 1, lg_block_number = b, lg_block_hash = ''0x0b'', lg_tx_hash = ''0xaa'',
     lg_tx_index = 0, lg_log_index = 0, lg_address = ''0x0a'', lg_topics = [], lg_data = ''0x''\<rparr>"

definition capped_node :: "int \<Rightarrow> RawLog list \<Rightarrow> RawLog log_source" where
  "capped_node cap chain n f t =
     (if t - f + 1 > cap then Inl (Raise ExternalError ''query returned more than 10000 results'')
      else Inr (in_range f t chain))"

theorem adaptive_fetch_complete_witness:
  "fetch_logs_with_adaptive_window (capped_node 3 [log_at 2, log_at 7, log_at 7, log_at 30]) 1 20 16 2 =
     Some (Inr [log_at 2, log_at 7, log_at 7])"
proof -
  let ?chain = "[log_at 2, log_at 7, log_at 7, log_at 30]"
  have "serves_chain (capped_node 3 ?chain) ?chain"
    by (auto simp: serves_chain_def capped_node_def log_at_def split: if_splits)
  moreover have "\<forall>n f t. t - f + 1 < 2 * (2 :: int) \<longrightarrow> (\<exists>ls. capped_node 3 ?chain n f t = Inr ls)"
    by (simp add: capped_node_def)
  moreover have "in_range 1 20 ?chain = [log_at 2, log_at 7, log_at 7]" by (simp add: in_range_def log_at_def)
  ultimately show ?thesis using adaptive_fetch_complete [of "capped_node 3 ?chain" ?chain 16 2 1 20] by simp
qed

text \<open>C24: with both windows at least one block the adaptive fetch always ends, also against a node
  that refuses anything: with the logs of the range, or with the exception of a request for fewer
  than \<open>2 * min_window\<close> blocks, so that a larger window is always retried before it gives up.\<close>

theorem adaptive_fetch_ends:
  assumes "serves_chain get_logs chain" "1 \<le> initial_window" "1 \<le> min_window"
  shows "\<exists>r. fetch_logs_with_adaptive_window get_logs from_block to_block initial_window min_window = Some r
    \<and> (r = Inr (in_range from_block to_block chain)
       \<or> (\<exists>e n f t. r = Inl e \<and> get_logs n f t = Inl e \<and> t - f + 1 < 2 * min_window))"
proof -
  obtain r where r: "fetch_logs_with_adaptive_window get_logs from_block to_block initial_window min_window = Some r"
    using adaptive_loop_ends [OF assms(2,3)] unfolding fetch_logs_with_adaptive_window_def by blast
  with adaptive_loop_result [OF _ assms(2,1,3)] show ?thesis
    unfolding fetch_logs_with_adaptive_window_def by fastforce
qed

theorem adaptive_fetch_ends_witness:
  "\<exists>r. fetch_logs_with_adaptive_window (capped_node 0 [log_at 2]) 1 20 2000 32 = Some r"
proof -
  have "serves_chain (capped_node 0 [log_at 2]) [log_at 2]"
    by (auto simp: serves_chain_def capped_node_def split: if_splits)
  from adaptive_fetch_ends [OF this, of 2000 32 1 20] show ?thesis by auto
qed

text \<open>The windows of the fixed-size fetch, joined, are the logs of the range, or, when a request
  fails, those of an initial part of it; for a client whose batch call fetches one receipt after the
  other, splitting the transactions into batches of any size changes nothing.\<close>

theorem windows_and_batches:
  assumes "serves_chain get_logs chain"
  shows "\<exists>yss err. fetch_logs_windowed get_logs 0 from_block to_block (int (Suc k)) = Some (yss, err)
      \<and> (case err of None \<Rightarrow> concat yss = in_range from_block to_block chain
         | Some e \<Rightarrow> \<exists>n f t. get_logs n f t = Inl e \<and> prefix (concat yss) (in_range from_block to_block chain))
    \<and> fetch_receipts_for_txs (mapR get_receipt) tx_hashes (int (Suc k)) = mapR get_receipt tx_hashes"
proof -
  have "fetch_receipts_for_txs (mapR get_receipt) tx_hashes (int (Suc k)) = mapR get_receipt tx_hashes"
    using concat_chunks [of "Suc k" tx_hashes]
    by (cases "mapR get_receipt tx_hashes") (simp_all add: fetch_receipts_for_txs_def batches del: of_nat_Suc)
  with windowed_result [OF assms, of "int (Suc k)" 0 from_block to_block] show ?thesis by auto
qed

theorem windows_and_batches_witness:
  "\<exists>yss err. fetch_logs_windowed (\<lambda>n f t. Inr (in_range f t [log_at 2, log_at 7])) 0 1 20 (int (Suc 4)) = Some (yss, err)
    \<and> concat yss = [log_at 2, log_at 7]"
proof -
  let ?get = "\<lambda>(n :: nat) f t. Inr (in_range f t [log_at 2, log_at 7])"
  have s: "serves_chain ?get [log_at 2, log_at 7]" by (auto simp: serves_chain_def log_at_def)
  have all: "in_range 1 20 [log_at 2, log_at 7] = [log_at 2, log_at 7]" by (simp add: in_range_def log_at_def)
  obtain yss err where y: "fetch_logs_windowed ?get 0 1 20 (int (Suc 4)) = Some (yss, err)"
    "case err of None \<Rightarrow> concat yss = in_range 1 20 [log_at 2, log_at 7]
     | Some e \<Rightarrow> \<exists>n f t. ?get n f t = Inl e \<and> prefix (concat yss) (in_range 1 20 [log_at 2, log_at 7])"
    using windows_and_batches [OF s, of 1 20 4 "\<lambda>h. Inl (Raise KeyError h)" "[]"] by blast
  then show ?thesis by (intro exI [of _ yss] exI [of _ err]) (simp add: all split: option.splits)
qed

text \<open>A window that has reached zero never advances: when the node answers requests for no blocks,
  the loop runs forever, whatever the minimum.\<close>

lemma zero_window_diverges:
  assumes "\<And>n f t. t < f \<Longrightarrow> get_logs n f t = Inr []" "cur \<le> to_block"
  shows "adaptive_loop get_logs n 0 cur to_block min_window out = None"
proof (rule ccontr)
  assume "adaptive_loop get_logs n 0 cur to_block min_window out \<noteq> None"
  then obtain r where r: "adaptive_loop get_logs n 0 cur to_block min_window out = Some r" by blast
  have "(\<forall>n f t. t < f \<longrightarrow> get_logs n f t = Inr []) \<longrightarrow> \<not> (0 = (0 :: int) \<and> cur \<le> to_block)"
    by (rule adaptive_loop.raw_induct [where P = "\<lambda>get n w cur to m out r.
        (\<forall>n f t. t < f \<longrightarrow> get n f t = Inr []) \<longrightarrow> \<not> (w = 0 \<and> cur \<le> to)", OF _ r])
      (auto simp: Let_def min_def split: if_splits sum.splits)
  with assms show False by simp
qed

end
