(* ===== verification/Rpc_Client.thy ===== *)
theory Rpc_Client
  imports Rpc_Fetch Trace_Decoder
begin

text \<open>
  \<open>ingestion/rpc/client.py\<close>: what the JSON-RPC answers become. The \<open>web3\<close> package is the parameter
  \<open>Web3\<close>: one function per call the client makes, from the arguments to the answer as a dynamic
  value, or an exception; \<open>hex_of\<close> is its rendering of bytes. The client's own state is the cached
  answer of the capability probe; the connection it opens lazily is not modelled.
\<close>

record Web3 =
  w3_chain_id :: "pyval res"
  w3_get_logs :: "string list \<Rightarrow> pyval \<Rightarrow> int \<Rightarrow> int \<Rightarrow> pydict list res"
  w3_get_block :: "pyval \<Rightarrow> bool \<Rightarrow> pydict res"
  w3_get_transaction_receipt :: "string \<Rightarrow> pydict res"
  w3_call :: "string \<Rightarrow> string \<Rightarrow> int \<Rightarrow> byte list res"
  w3_debug_trace :: "string \<Rightarrow> string \<Rightarrow> pydict res"
  hex_of :: "byte list \<Rightarrow> string"

record RpcClient =
  rpc_url :: string
  supports_trace_cache :: "bool option"

section \<open>Reading one answer\<close>

text \<open>\<open>x.hex() if hasattr(x, "hex") else str(x)\<close>, and the optional columns.\<close>

definition hex_or_str :: "Web3 \<Rightarrow> pyval \<Rightarrow> string" where
  "hex_or_str w3 v = (case v of PBytes bs \<Rightarrow> hex_of w3 bs | _ \<Rightarrow> py_str v)"

definition index_int :: "pydict \<Rightarrow> string \<Rightarrow> int res" where
  "index_int d k = rbind (dict_index d k) py_int"

definition index_hex :: "Web3 \<Rightarrow> pydict \<Rightarrow> string \<Rightarrow> string res" where
  "index_hex w3 d k = rbind (dict_index d k) (\<lambda>v. Inr (hex_or_str w3 v))"

definition opt_int :: "pydict \<Rightarrow> string \<Rightarrow> int option res" where
  "opt_int d k = (if dict_get d k = PNone then Inr None
     else rbind (py_int (dict_get d k)) (\<lambda>i. Inr (Some i)))"

definition get_chain_id :: "Web3 \<Rightarrow> int res" where
  "get_chain_id w3 = rbind (w3_chain_id w3) py_int"

section \<open>Logs, blocks, receipts, balances\<close>

definition raw_log_of :: "Web3 \<Rightarrow> int \<Rightarrow> pydict \<Rightarrow> RawLog res" where
  "raw_log_of w3 chain_id log =
     rbind (index_int log ''blockNumber'') (\<lambda>block_number.
     rbind (index_hex w3 log ''blockHash'') (\<lambda>block_hash.
     rbind (index_hex w3 log ''transactionHash'') (\<lambda>tx_hash.
     rbind (index_int log ''transactionIndex'') (\<lambda>tx_index.
     rbind (index_int log ''logIndex'') (\<lambda>log_index.
     rbind (dict_index log ''address'') (\<lambda>address.
     rbind (rbind (dict_index log ''topics'') as_list) (\<lambda>topics.
     rbind (index_hex w3 log ''data'') (\<lambda>data.
     Inr \<lparr>lg_chain_id = chain_id, lg_block_number = block_number, lg_block_hash = block_hash,
       lg_tx_hash = tx_hash, lg_tx_index = tx_index, lg_log_index = log_index,
       lg_address = lower (py_str address), lg_topics = map (hex_or_str w3) topics, lg_data = data\<rparr>))))))))"

definition client_get_logs :: "Web3 \<Rightarrow> string + string list \<Rightarrow> pyval \<Rightarrow> int \<Rightarrow> int \<Rightarrow> RawLog list res" where
  "client_get_logs w3 address topics from_block to_block =
     rbind (get_chain_id w3) (\<lambda>chain_id.
     rbind (w3_get_logs w3 (case address of Inl a \<Rightarrow> [a] | Inr as \<Rightarrow> as) topics from_block to_block) (\<lambda>results.
     mapR (raw_log_of w3 chain_id) results))"

definition header_of :: "Web3 \<Rightarrow> int \<Rightarrow> pydict \<Rightarrow> BlockHeader res" where
  "header_of w3 chain_id b =
     rbind (index_int b ''number'') (\<lambda>block_number.
     rbind (index_hex w3 b ''hash'') (\<lambda>block_hash.
     rbind (index_hex w3 b ''parentHash'') (\<lambda>parent_hash.
     rbind (index_int b ''timestamp'') (\<lambda>timestamp.
     rbind (opt_int b ''baseFeePerGas'') (\<lambda>base_fee.
     let miner = py_str (dict_get_or b ''miner'' (PStr '''')) in
     Inr \<lparr>bh_chain_id = chain_id, bh_block_number = block_number, bh_block_hash = block_hash,
       bh_parent_hash = parent_hash, bh_timestamp = timestamp,
       bh_miner = (if miner = '''' then None else Some miner), bh_base_fee_per_gas = base_fee\<rparr>)))))"

definition client_get_block :: "Web3 \<Rightarrow> int \<Rightarrow> bool \<Rightarrow> Block res" where
  "client_get_block w3 block_number full_txs =
     rbind (w3_get_block w3 (PInt block_number) full_txs) (\<lambda>b.
     rbind (get_chain_id w3) (\<lambda>chain_id.
     rbind (header_of w3 chain_id b) (\<lambda>header.
     rbind (as_list (py_or (dict_get b ''transactions'') (PList []))) (\<lambda>txs.
     Inr \<lparr>bk_header = header, bk_transaction_hashes = map (hex_or_str w3) txs,
       bk_full_transactions = None\<rparr>))))"

definition get_block_by_hash :: "Web3 \<Rightarrow> string \<Rightarrow> Block res" where
  "get_block_by_hash w3 block_hash =
     rbind (w3_get_block w3 (PStr block_hash) False) (\<lambda>b.
     rbind (index_int b ''number'') (\<lambda>n. client_get_block w3 n False))"

definition get_transaction_receipt :: "Web3 \<Rightarrow> string \<Rightarrow> Receipt res" where
  "get_transaction_receipt w3 tx_hash =
     rbind (w3_get_transaction_receipt w3 tx_hash) (\<lambda>r.
     rbind (get_chain_id w3) (\<lambda>chain_id.
     rbind (index_int r ''blockNumber'') (\<lambda>block_number.
     rbind (index_hex w3 r ''blockHash'') (\<lambda>block_hash.
     rbind (index_hex w3 r ''transactionHash'') (\<lambda>hash.
     rbind (index_int r ''transactionIndex'') (\<lambda>tx_index.
     rbind (index_int r ''status'') (\<lambda>status.
     rbind (index_int r ''gasUsed'') (\<lambda>gas_used.
     rbind (opt_int r ''effectiveGasPrice'') (\<lambda>price.
     rbind (index_int r ''cumulativeGasUsed'') (\<lambda>cumulative.
     rbind (as_list (dict_get_or r ''logs'' (PList []))) (\<lambda>logs.
     let created = dict_get r ''contractAddress'' in
     Inr \<lparr>rc_chain_id = chain_id, rc_block_number = block_number, rc_block_hash = block_hash,
       rc_tx_hash = hash, rc_tx_index = tx_index, rc_status = status, rc_gas_used = gas_used,
       rc_effective_gas_price = price, rc_cumulative_gas_used = cumulative,
       rc_contract_address = (if truthy created then Some (lower (py_str created)) else None),
       rc_logs_count = int (length logs)\<rparr>)))))))))))"

definition get_receipts_batch :: "Web3 \<Rightarrow> string list \<Rightarrow> Receipt list res" where
  "get_receipts_batch w3 tx_hashes = mapR (get_transaction_receipt w3) tx_hashes"

text \<open>\<open>s.replace("0x", "").rjust(64, "0")\<close>.\<close>

fun remove_0x :: "string \<Rightarrow> string" where
  "remove_0x (a # b # s) = (if a = CHR ''0'' \<and> b = CHR ''x'' then remove_0x s else a # remove_0x (b # s))"
| "remove_0x s = s"

definition pad64 :: "string \<Rightarrow> string" where
  "pad64 s = replicate (64 - length s) CHR ''0'' @ s"

definition get_token_balance :: "(string \<Rightarrow> byte list) \<Rightarrow> Web3 \<Rightarrow> string \<Rightarrow> string \<Rightarrow> int \<Rightarrow> int res" where
  "get_token_balance keccak w3 token_address holder_address block_number =
     (let selector = ''0x'' @ take 8 (to_hex (keccak ''balanceOf(address)''));
          padded = pad64 (remove_0x (lower holder_address)) in
      rbind (w3_call w3 token_address (selector @ padded) block_number) (\<lambda>result.
        Inr (int (be_value result))))"

definition get_finalized_block_number :: "Web3 \<Rightarrow> int res" where
  "get_finalized_block_number w3 =
     rbind (w3_get_block w3 (PStr ''finalized'') False) (\<lambda>b. index_int b ''number'')"

section \<open>Traces\<close>

definition hex_field :: "pydict \<Rightarrow> string \<Rightarrow> int res" where
  \<comment> \<open>\<open>int(node.get(k, "0x0"), 16) if isinstance(node.get(k), str) else 0\<close>\<close>
  "hex_field node k = (case dict_get node k of PStr s \<Rightarrow> int_base16 s | _ \<Rightarrow> Inr 0)"

definition trace_frame_of :: "pydict \<Rightarrow> int \<Rightarrow> string \<Rightarrow> int list \<Rightarrow> int \<Rightarrow> TraceFrame res" where
  "trace_frame_of node chain_id tx_hash trace_address block_number =
     rbind (hex_field node ''value'') (\<lambda>value.
     rbind (hex_field node ''gas'') (\<lambda>gas.
     rbind (hex_field node ''gasUsed'') (\<lambda>gas_used.
     Inr \<lparr>tf_chain_id = chain_id, tf_block_number = block_number, tf_tx_hash = tx_hash,
       tf_type = upper (py_str (dict_get_or node ''type'' (PStr ''CALL''))),
       tf_from_addr = lower (py_str (dict_get_or node ''from'' (PStr ''''))),
       tf_to_addr = (if truthy (dict_get node ''to'') then Some (lower (py_str (dict_get node ''to''))) else None),
       tf_value = value, tf_gas = gas, tf_gas_used = gas_used,
       tf_input_data = py_str (dict_get_or node ''input'' (PStr ''0x'')),
       tf_output = py_str (dict_get_or node ''output'' (PStr ''0x'')),
       tf_error = opt_str (dict_get node ''error''), tf_revert_reason = opt_str (dict_get node ''revertReason''),
       tf_trace_address = trace_address\<rparr>)))"

definition child_nodes :: "pydict \<Rightarrow> pydict list res" where
  "child_nodes node = dict_items (py_or (dict_get node ''calls'') (PList []))"

lemma child_nodes_size:
  assumes "child_nodes node = Inr ds" "d \<in> set ds"
  shows "size (PDict d) < size (PDict node)"
proof -
  from assms have v: "size (PDict d) < size (py_or (dict_get node ''calls'') (PList []))"
    unfolding child_nodes_def by (rule dict_items_size)
  show ?thesis
  proof (cases "truthy (dict_get node ''calls'')")
    case True
    then obtain v' where "map_of node ''calls'' = Some v'" "dict_get node ''calls'' = v'"
      by (auto simp: dict_get_def split: option.splits)
    with v True map_of_size [of node "''calls''" v'] show ?thesis by (simp add: py_or_def)
  next
    case False
    with v show ?thesis by (simp add: py_or_def)
  qed
qed

function trace_dict_to_raw_trace :: "pydict \<Rightarrow> int \<Rightarrow> string \<Rightarrow> int list \<Rightarrow> int \<Rightarrow> RawTrace res" where
  "trace_dict_to_raw_trace node chain_id tx_hash trace_address block_number =
     rbind (trace_frame_of node chain_id tx_hash trace_address block_number) (\<lambda>rt.
     rbind (child_nodes node) (\<lambda>calls_raw.
     rbind (mapR (\<lambda>(i, child). trace_dict_to_raw_trace child chain_id tx_hash (trace_address @ [int i]) block_number)
        (enumerate 0 calls_raw)) (\<lambda>cs.
     Inr (RawTrace rt cs))))"
  by pat_completeness auto
termination
  by (relation "measure (\<lambda>(node, c, h, a, b). size (PDict node))")
    (auto simp: in_set_enumerate_eq dest: child_nodes_size [OF _ nth_mem])

declare trace_dict_to_raw_trace.simps [simp del]

definition debug_trace_transaction :: "Web3 \<Rightarrow> string \<Rightarrow> string \<Rightarrow> RawTrace res" where
  "debug_trace_transaction w3 tx_hash tracer =
     rbind (w3_debug_trace w3 tx_hash tracer) (\<lambda>result.
     rbind (get_chain_id w3) (\<lambda>chain_id. trace_dict_to_raw_trace result chain_id tx_hash [] 0))"

definition probe_hash :: string where "probe_hash = ''0x'' @ replicate 64 CHR ''0''"

definition supports_debug_trace :: "Web3 \<Rightarrow> RpcClient \<Rightarrow> bool \<times> RpcClient" where
  "supports_debug_trace w3 self = (case supports_trace_cache self of
     Some b \<Rightarrow> (b, self)
   | None \<Rightarrow> let b = (case debug_trace_transaction w3 probe_hash ''callTracer'' of Inl e \<Rightarrow> False | Inr t \<Rightarrow> True)
      in (b, self\<lparr>supports_trace_cache := Some b\<rparr>))"

text \<open>\<open>trace_fetcher.py\<close> calls the client with the default tracer.\<close>

definition fetch_trace :: "Web3 \<Rightarrow> string \<Rightarrow> RawTrace res" where
  "fetch_trace w3 tx_hash = debug_trace_transaction w3 tx_hash ''callTracer''"

section \<open>A trace from the node is numbered\<close>

lemma trace_frame_of_fields:
  "trace_frame_of node c h a b = Inr f \<Longrightarrow> tf_trace_address f = a \<and> tf_tx_hash f = h \<and> tf_chain_id f = c"
  by (auto simp: trace_frame_of_def rbind_Inr)

lemma trace_dict_cases:
  assumes "trace_dict_to_raw_trace node c h a b = Inr t"
  obtains f ds cs where "trace_frame_of node c h a b = Inr f" "child_nodes node = Inr ds" "t = RawTrace f cs"
    "list_all2 (\<lambda>(i, d) s. trace_dict_to_raw_trace d c h (a @ [int i]) b = Inr s) (enumerate 0 ds) cs"
proof -
  from assms obtain f ds cs where x: "trace_frame_of node c h a b = Inr f" "child_nodes node = Inr ds" "t = RawTrace f cs"
    "mapR (\<lambda>(i, child). trace_dict_to_raw_trace child c h (a @ [int i]) b) (enumerate 0 ds) = Inr cs"
    by (auto simp: trace_dict_to_raw_trace.simps [of node] rbind_Inr)
  from x(4) have "list_all2 (\<lambda>(i, d) s. trace_dict_to_raw_trace d c h (a @ [int i]) b = Inr s) (enumerate 0 ds) cs"
    unfolding mapR_Inr by (rule list_all2_mono) auto
  with x(1-3) show ?thesis by (rule that)
qed

lemma trace_dict_child:
  assumes "list_all2 (\<lambda>(i, d) s. trace_dict_to_raw_trace d c h (a @ [int i]) b = Inr s) (enumerate 0 ds) cs"
    and "i < length cs"
  shows "i < length ds \<and> trace_dict_to_raw_trace (ds ! i) c h (a @ [int i]) b = Inr (cs ! i)"
  using list_all2_nthD2 [OF assms] list_all2_lengthD [OF assms(1)] assms(2) by (simp add: nth_enumerate_eq)

lemma trace_dict_numbered:
  "trace_dict_to_raw_trace node c h a b = Inr t \<Longrightarrow> assign_trace_addresses t a = t"
proof (induction t arbitrary: node a)
  case (RawTrace f cs)
  from RawTrace.prems obtain ds where f: "trace_frame_of node c h a b = Inr f"
    and cs: "list_all2 (\<lambda>(i, d) s. trace_dict_to_raw_trace d c h (a @ [int i]) b = Inr s) (enumerate 0 ds) cs"
    by (elim trace_dict_cases) auto
  have "assign_trace_addresses (cs ! i) (a @ [int i]) = cs ! i" if "i < length cs" for i
    using RawTrace.IH [OF nth_mem [OF that]] trace_dict_child [OF cs that] by blast
  then have "assign_children cs a 0 = cs" by (intro nth_equalityI) (simp_all add: assign_children_nth)
  moreover have "tf_trace_address f = a" using trace_frame_of_fields [OF f] by simp
  ultimately show ?case by simp
qed

lemma trace_dict_node:
  "trace_dict_to_raw_trace node c h a b = Inr t \<Longrightarrow> node_at t p = Some s \<Longrightarrow>
     tf_trace_address (frame s) = a @ map int p \<and> tf_tx_hash (frame s) = h"
proof (induction p arbitrary: node t a)
  case Nil
  then show ?case by (elim trace_dict_cases) (auto dest: trace_frame_of_fields)
next
  case (Cons i p)
  from Cons.prems(1) obtain f ds cs where t: "t = RawTrace f cs"
    and cs: "list_all2 (\<lambda>(i, d) s. trace_dict_to_raw_trace d c h (a @ [int i]) b = Inr s) (enumerate 0 ds) cs"
    by (elim trace_dict_cases) auto
  from Cons.prems(2) t have i: "i < length cs" "node_at (cs ! i) p = Some s" by (auto split: if_splits)
  from Cons.IH [OF conjunct2 [OF trace_dict_child [OF cs i(1)]] i(2)] show ?case by simp
qed

section \<open>Properties\<close>

text \<open>C23: the call tree read from a node is numbered by position: every call carries the hash of the
  transaction and the path at which it stands, so that the addresses are distinct, the tree is well
  addressed, and numbering it again changes nothing. When the tree decodes, its calls come in the order
  of the paths, each with its path and the hash in lower case.\<close>

theorem rpc_trace_numbered:
  assumes "debug_trace_transaction w3 tx_hash tracer = Inr t"
  shows "(\<forall>p s. node_at t p = Some s \<longrightarrow> tf_tx_hash (frame s) = tx_hash \<and> tf_trace_address (frame s) = map int p)
    \<and> addressed t \<and> distinct (map tf_trace_address (frames t)) \<and> assign_trace_addresses t [] = t
    \<and> (case decode_trace_calls keccak dec t reg of Inl e \<Rightarrow> True
       | Inr ds \<Rightarrow> list_all2 (\<lambda>p d. dc_trace_address d = map int p \<and> dc_tx_hash d = lower tx_hash) (paths t) ds
           \<and> distinct (map dc_trace_address ds))"
proof -
  obtain node c where t: "trace_dict_to_raw_trace node c tx_hash [] 0 = Inr t"
    using assms(1) by (auto simp: debug_trace_transaction_def rbind_Inr)
  then have num: "assign_trace_addresses t [] = t" by (rule trace_dict_numbered)
  have decoded: "list_all2 (\<lambda>p d. dc_trace_address d = map int p \<and> dc_tx_hash d = lower tx_hash) (paths t) ds
      \<and> distinct (map dc_trace_address ds)" if ds: "decode_trace_calls keccak dec t reg = Inr ds" for ds
  proof -
    have "list_all2 (decoded_at (decode_frame keccak dec reg) True t) (paths t) ds"
      using ds unfolding decode_trace_calls_def by (rule walk_calls_paths)
    then have calls: "list_all2 (\<lambda>p d. dc_trace_address d = map int p \<and> dc_tx_hash d = lower tx_hash) (paths t) ds"
      by (rule list_all2_mono) (auto simp: decoded_at_def dest!: decode_frame_fields dest: trace_dict_node [OF t])
    then have "map dc_trace_address ds = map (map int) (paths t)"
      by (induction rule: list_all2_induct) simp_all
    then have "distinct (map dc_trace_address ds)"
      by (simp add: distinct_map distinct_paths inj_on_def inj_map_eq_map)
    with calls show ?thesis ..
  qed
  have addr: "addressed t" using assign_addressed [of t "[]"] num by simp
  show ?thesis
    using trace_dict_node [OF t] addr addressed_distinct [OF addr] num decoded by (simp split: sum.split)
qed

definition sample_node :: pydict where
  "sample_node = [(''type'', PStr ''call''), (''from'', PStr ''0xAA''), (''to'', PStr ''0xC0''), (''value'', PStr ''0x10''),
     (''calls'', PList [PDict [(''to'', PStr ''0xC1'')], PDict [(''to'', PStr ''0xC2''), (''error'', PStr ''reverted'')]])]"

definition sample_web3 :: Web3 where
  "sample_web3 = \<lparr>w3_chain_id = Inr (PInt 1), w3_get_logs = (\<lambda>_ _ _ _. Inr []), w3_get_block = (\<lambda>_ _. Inr []),
     w3_get_transaction_receipt = (\<lambda>_. Inr []), w3_call = (\<lambda>_ _ _. Inr []),
     w3_debug_trace = (\<lambda>_ _. Inr sample_node), hex_of = to_hex\<rparr>"

lemma sample_trace:
  "\<exists>f g h. debug_trace_transaction sample_web3 ''0xaa'' ''callTracer'' = Inr (RawTrace f [RawTrace g [], RawTrace h []])
     \<and> tf_input_data f = ''0x'' \<and> tf_input_data g = ''0x'' \<and> tf_input_data h = ''0x''"
proof -
  note unfold = trace_dict_to_raw_trace.simps [of sample_node] trace_dict_to_raw_trace.simps [of "[(''to'', PStr ''0xC1'')]"]
    trace_dict_to_raw_trace.simps [of "[(''to'', PStr ''0xC2''), (''error'', PStr ''reverted'')]"]
  have x: "int_base16 ''0x10'' = Inr 16" by code_simp
  have "child_nodes sample_node = Inr [[(''to'', PStr ''0xC1'')], [(''to'', PStr ''0xC2''), (''error'', PStr ''reverted'')]]"
    by code_simp
  then show ?thesis
    by (simp add: debug_trace_transaction_def sample_web3_def get_chain_id_def unfold trace_frame_of_def
        hex_field_def dict_get_def dict_get_or_def child_nodes_def dict_items_def py_or_def as_dict_def)
      (simp add: sample_node_def x)
qed

lemma plain_frame_decodes:
  assumes "tf_input_data f = ''0x''"
  shows "\<exists>d. decode_frame (\<lambda>_. []) transfer_decode [] ok f = Inr d"
  by (cases "tf_to_addr f") (simp_all add: assms decode_frame_def registry_call_def registry_get_def Let_def
        swallow_key_error_def input_or_0x_def transfer_input_decodes)

theorem rpc_trace_numbered_witness:
  "\<exists>t ds. debug_trace_transaction sample_web3 ''0xaa'' ''callTracer'' = Inr t
    \<and> decode_trace_calls (\<lambda>_. []) transfer_decode t [] = Inr ds \<and> map dc_trace_address ds = [[], [0], [1]]"
proof -
  from sample_trace obtain f g h where t: "debug_trace_transaction sample_web3 ''0xaa'' ''callTracer'' =
      Inr (RawTrace f [RawTrace g [], RawTrace h []])" and inp: "tf_input_data f = ''0x''" "tf_input_data g = ''0x''" "tf_input_data h = ''0x''"
    by (elim exE conjE)
  then obtain ds where ds: "decode_trace_calls (\<lambda>_. []) transfer_decode (RawTrace f [RawTrace g [], RawTrace h []]) [] = Inr ds"
    using plain_frame_decodes [OF inp(1), of True] plain_frame_decodes [OF inp(2), of "frame_ok f"]
      plain_frame_decodes [OF inp(3), of "frame_ok f"] by (auto simp: decode_trace_calls_def)
  have "paths (RawTrace f [RawTrace g [], RawTrace h []]) = [[], [0], [1]]" by (simp add: upt_rec)
  then have "list_all2 (\<lambda>p d. dc_trace_address d = map int p \<and> dc_tx_hash d = lower ''0xaa'') [[], [0], [1]] ds"
    using rpc_trace_numbered [OF t, of "\<lambda>_. []" transfer_decode "[]"] by (simp only: ds sum.case)
  then have "map dc_trace_address ds = [[], [0], [1]]" by (auto simp: list_all2_Cons1)
  with t ds show ?thesis by (intro exI conjI)
qed

end
