(* ===== verification/Checkpoint_Store.thy ===== *)
theory Checkpoint_Store
  imports Prelude
begin

text \<open>
  \<open>ingestion/checkpoint.py\<close>: how far ingestion has come. A JSON file is the value it encodes, in which
  a tuple has become a list; a file system is a map from paths to such values. The class
  \<open>Checkpoint\<close> keeps a dictionary of cursors and writes all of it to its file after every change, so
  that a process started later reads back the same cursors.
\<close>

type_synonym files = "string \<Rightarrow> pyval option"

section \<open>The cursor of a job\<close>

definition checkpoint_path :: "string \<Rightarrow> int \<Rightarrow> string \<Rightarrow> string" where
  "checkpoint_path root chain_id key = root @ ''/'' @ show_int chain_id @ ''_'' @ key @ ''.json''"

text \<open>Writing a temporary file and renaming it.\<close>

definition write_text :: "string \<Rightarrow> pyval \<Rightarrow> files \<Rightarrow> files" where
  "write_text p v fs = fs(p \<mapsto> v)"

definition replace_file :: "string \<Rightarrow> string \<Rightarrow> files \<Rightarrow> files" where
  "replace_file src dst fs = (fs(dst := fs src))(src := None)"

definition get_last_processed_block :: "string \<Rightarrow> files \<Rightarrow> int \<Rightarrow> string \<Rightarrow> int option res" where
  "get_last_processed_block root fs chain_id dag_id =
     (case fs (checkpoint_path root chain_id (''dag_'' @ dag_id)) of
        None \<Rightarrow> Inr None
      | Some payload \<Rightarrow> rbind (as_dict payload) (\<lambda>d.
          rbind (py_int (dict_get_or d ''block_number'' (PInt 0))) (\<lambda>b.
          Inr (if b = 0 then None else Some b))))"

definition set_last_processed_block :: "string \<Rightarrow> int \<Rightarrow> string \<Rightarrow> int \<Rightarrow> string \<Rightarrow> files \<Rightarrow> files" where
  "set_last_processed_block root chain_id dag_id block run_partition_id fs =
     (let p = checkpoint_path root chain_id (''dag_'' @ dag_id);
          payload = PDict [(''chain_id'', PInt chain_id), (''dag_id'', PStr dag_id),
            (''block_number'', PInt block), (''run_partition_id'', PStr run_partition_id)];
          tmp = p @ ''.tmp'' in
      replace_file tmp p (write_text tmp payload fs))"

section \<open>The cursors of the sources\<close>

record CheckpointState =
  cs_chain_id :: int
  cs_source_name :: string
  cs_last_block :: int
  cs_last_block_hash :: "string option"
  cs_pending_replays :: "(int \<times> int) list"

type_synonym ckpt_key = "int \<times> string"

record Checkpoint =
  ck_file :: "pyval option"
  ck_state :: "(ckpt_key \<times> CheckpointState) list"

definition pair_of :: "pyval \<Rightarrow> (int \<times> int) res" where
  "pair_of r = rbind (as_list r) (\<lambda>xs. case xs of
     a # b # _ \<Rightarrow> rbind (py_int a) (\<lambda>f. rbind (py_int b) (\<lambda>t. Inr (f, t)))
   | _ \<Rightarrow> Inl (Raise IndexError ''list index out of range''))"

definition load_entry :: "pydict \<Rightarrow> (ckpt_key \<times> CheckpointState) list \<Rightarrow> (ckpt_key \<times> CheckpointState) list res" where
  "load_entry entry st =
     rbind (rbind (dict_index entry ''chain_id'') py_int) (\<lambda>c.
     rbind (dict_index entry ''source_name'') (\<lambda>sn.
     let src = py_str sn in
     rbind (py_int (dict_get_or entry ''last_block'' (PInt 0))) (\<lambda>b.
     rbind (rbind (as_list (dict_get_or entry ''pending_replays'' (PList []))) (mapR pair_of)) (\<lambda>replays.
     Inr (AList.update (c, src) \<lparr>cs_chain_id = c, cs_source_name = src, cs_last_block = b,
       cs_last_block_hash = opt_str (dict_get entry ''last_block_hash''), cs_pending_replays = replays\<rparr> st)))))"

definition checkpoint_load :: "pyval option \<Rightarrow> Checkpoint res" where
  "checkpoint_load file = (case file of
     None \<Rightarrow> Inr \<lparr>ck_file = None, ck_state = []\<rparr>
   | Some payload \<Rightarrow> rbind (as_dict payload) (\<lambda>d.
       rbind (dict_items (dict_get_or d ''entries'' (PList []))) (\<lambda>entries.
       rbind (foldR load_entry entries []) (\<lambda>st.
       Inr \<lparr>ck_file = file, ck_state = st\<rparr>))))"

definition entry_value :: "CheckpointState \<Rightarrow> pydict" where
  "entry_value s =
     [(''chain_id'', PInt (cs_chain_id s)), (''source_name'', PStr (cs_source_name s)),
      (''last_block'', PInt (cs_last_block s)),
      (''last_block_hash'', case cs_last_block_hash s of None \<Rightarrow> PNone | Some h \<Rightarrow> PStr h),
      (''pending_replays'', PList (map (\<lambda>(f, t). PList [PInt f, PInt t]) (cs_pending_replays s)))]"

definition checkpoint_save :: "Checkpoint \<Rightarrow> Checkpoint" where
  "checkpoint_save self = self\<lparr>ck_file :=
     Some (PDict [(''entries'', PList (map (\<lambda>(k, s). PDict (entry_value s)) (ck_state self)))])\<rparr>"

definition last_processed_block :: "Checkpoint \<Rightarrow> int \<Rightarrow> string \<Rightarrow> int" where
  "last_processed_block self chain_id source_name =
     (case map_of (ck_state self) (chain_id, source_name) of None \<Rightarrow> 0 | Some s \<Rightarrow> cs_last_block s)"

definition last_processed_block_hash :: "Checkpoint \<Rightarrow> int \<Rightarrow> string \<Rightarrow> string option" where
  "last_processed_block_hash self chain_id source_name =
     (case map_of (ck_state self) (chain_id, source_name) of None \<Rightarrow> None | Some s \<Rightarrow> cs_last_block_hash s)"

definition pending_replays :: "Checkpoint \<Rightarrow> int \<Rightarrow> string \<Rightarrow> (int \<times> int) list" where
  "pending_replays self chain_id source_name =
     (case map_of (ck_state self) (chain_id, source_name) of None \<Rightarrow> [] | Some s \<Rightarrow> cs_pending_replays s)"

definition checkpoint_advance :: "int \<Rightarrow> string \<Rightarrow> int \<Rightarrow> string \<Rightarrow> Checkpoint \<Rightarrow> Checkpoint" where
  "checkpoint_advance chain_id source_name block_number block_hash self =
     (let key = (chain_id, source_name) in
      checkpoint_save (case map_of (ck_state self) key of
        None \<Rightarrow> self\<lparr>ck_state := AList.update key \<lparr>cs_chain_id = chain_id, cs_source_name = source_name,
           cs_last_block = block_number, cs_last_block_hash = Some block_hash, cs_pending_replays = []\<rparr> (ck_state self)\<rparr>
      | Some s \<Rightarrow>
          if block_number > cs_last_block s
          then self\<lparr>ck_state := AList.update key
            (s\<lparr>cs_last_block := block_number, cs_last_block_hash := Some block_hash\<rparr>) (ck_state self)\<rparr>
          else self))"

definition mark_replay :: "int \<Rightarrow> string \<Rightarrow> int \<Rightarrow> int \<Rightarrow> Checkpoint \<Rightarrow> Checkpoint" where
  "mark_replay chain_id source_name from_block to_block self =
     (let key = (chain_id, source_name);
          s = dict_get_or (ck_state self) key \<lparr>cs_chain_id = chain_id, cs_source_name = source_name,
            cs_last_block = 0, cs_last_block_hash = None, cs_pending_replays = []\<rparr>;
          s' = (if (from_block, to_block) \<notin> set (cs_pending_replays s)
                then s\<lparr>cs_pending_replays := cs_pending_replays s @ [(from_block, to_block)]\<rparr> else s) in
      checkpoint_save (self\<lparr>ck_state := AList.update key s' (ck_state self)\<rparr>))"

definition clear_replay :: "int \<Rightarrow> string \<Rightarrow> int \<Rightarrow> int \<Rightarrow> Checkpoint \<Rightarrow> Checkpoint" where
  "clear_replay chain_id source_name from_block to_block self =
     (let key = (chain_id, source_name) in
      case map_of (ck_state self) key of
        None \<Rightarrow> self
      | Some s \<Rightarrow> checkpoint_save (self\<lparr>ck_state := AList.update key
          (s\<lparr>cs_pending_replays := filter (\<lambda>r. r \<noteq> (from_block, to_block)) (cs_pending_replays s)\<rparr>)
          (ck_state self)\<rparr>))"

section \<open>Runs\<close>

text \<open>What a process does with its store; \<open>Restart\<close> is a new process that opens the same file.\<close>

datatype ckpt_op = Advance int string int string | MarkReplay int string int int
  | ClearReplay int string int int | Restart

fun ckpt_step :: "ckpt_op \<Rightarrow> Checkpoint \<Rightarrow> Checkpoint res" where
  "ckpt_step (Advance c s b h) ck = Inr (checkpoint_advance c s b h ck)"
| "ckpt_step (MarkReplay c s f t) ck = Inr (mark_replay c s f t ck)"
| "ckpt_step (ClearReplay c s f t) ck = Inr (clear_replay c s f t ck)"
| "ckpt_step Restart ck = checkpoint_load (ck_file ck)"

definition ckpt_run :: "ckpt_op list \<Rightarrow> Checkpoint \<Rightarrow> Checkpoint res" where
  "ckpt_run ops ck = foldR ckpt_step ops ck"

section \<open>The specification\<close>

text \<open>A cursor is a block, its hash and the ranges to replay; the store is a map from keys to cursors,
  and survives a restart.\<close>

type_synonym cursor = "int \<times> string option \<times> (int \<times> int) list"
type_synonym ckpt_spec = "ckpt_key \<Rightarrow> cursor option"

fun spec_step :: "ckpt_op \<Rightarrow> ckpt_spec \<Rightarrow> ckpt_spec" where
  "spec_step (Advance c s b h) m = m((c, s) \<mapsto> (case m (c, s) of
      None \<Rightarrow> (b, Some h, [])
    | Some (l, lh, rs) \<Rightarrow> if b > l then (b, Some h, rs) else (l, lh, rs)))"
| "spec_step (MarkReplay c s f t) m = m((c, s) \<mapsto> (case m (c, s) of
      None \<Rightarrow> (0, None, [(f, t)])
    | Some (l, lh, rs) \<Rightarrow> (l, lh, (if (f, t) \<in> set rs then rs else rs @ [(f, t)]))))"
| "spec_step (ClearReplay c s f t) m = m((c, s) := map_option (\<lambda>(l, lh, rs). (l, lh, filter (\<lambda>r. r \<noteq> (f, t)) rs)) (m (c, s)))"
| "spec_step Restart m = m"

definition cursor_of :: "CheckpointState \<Rightarrow> cursor" where
  "cursor_of s = (cs_last_block s, cs_last_block_hash s, cs_pending_replays s)"

definition abs_ckpt :: "Checkpoint \<Rightarrow> ckpt_spec" where
  "abs_ckpt ck = (\<lambda>k. map_option cursor_of (map_of (ck_state ck) k))"

text \<open>The invariant: one entry per key, under its own chain and source, and the file holds what the
  process holds.\<close>

definition keyed :: "(ckpt_key \<times> CheckpointState) list \<Rightarrow> bool" where
  "keyed st \<longleftrightarrow> distinct (map fst st) \<and> (\<forall>(k, s) \<in> set st. k = (cs_chain_id s, cs_source_name s))"

definition ckpt_inv :: "Checkpoint \<Rightarrow> bool" where
  "ckpt_inv ck \<longleftrightarrow> keyed (ck_state ck) \<and>
     (ck_file ck = ck_file (checkpoint_save ck) \<or> ck_file ck = None \<and> ck_state ck = [])"

lemma save_simps [simp]: "ck_state (checkpoint_save ck) = ck_state ck" "ck_file (checkpoint_save (checkpoint_save ck)) = ck_file (checkpoint_save ck)"
  by (simp_all add: checkpoint_save_def)

lemma pairs_roundtrip: "mapR pair_of (map (\<lambda>(f, t). PList [PInt f, PInt t]) rs) = Inr rs"
  by (induction rs) (auto simp: pair_of_def as_list_def)

lemma load_entry_value: "load_entry (entry_value s) st = Inr (AList.update (cs_chain_id s, cs_source_name s) s st)"
  by (cases s; cases "cs_last_block_hash s")
    (simp_all add: load_entry_def entry_value_def dict_index_def dict_get_or_def dict_get_def as_list_def
      pairs_roundtrip opt_str_def Let_def)

lemma load_entries:
  "keyed (st0 @ st) \<Longrightarrow> foldR load_entry (map (\<lambda>(k, s). entry_value s) st) st0 = Inr (st0 @ st)"
proof (induction st arbitrary: st0)
  case (Cons e st)
  obtain k s where e: "e = (k, s)" by (cases e)
  with Cons.prems have k: "k = (cs_chain_id s, cs_source_name s)" "k \<notin> set (map fst st0)"
    by (auto simp: keyed_def)
  then have "load_entry (entry_value s) st0 = Inr (st0 @ [e])"
    by (simp add: load_entry_value update_new_key e)
  with Cons.IH [of "st0 @ [e]"] Cons.prems show ?case by (simp add: e)
qed simp

lemma load_saved:
  assumes "keyed (ck_state ck)"
  shows "checkpoint_load (ck_file (checkpoint_save ck)) = Inr (checkpoint_save ck)"
proof -
  have m: "mapR as_dict (map (\<lambda>(k, s). PDict (entry_value s)) st) = Inr (map (\<lambda>(k, s). entry_value s) st)"
    for st :: "(ckpt_key \<times> CheckpointState) list"
    by (induction st) (auto simp: as_dict_def)
  show ?thesis using load_entries [of "[]" "ck_state ck"] assms
    by (cases ck) (simp add: checkpoint_save_def checkpoint_load_def dict_get_or_def dict_items_def m as_dict_def [of "PDict d" for d])
qed

lemma keyed_update:
  "keyed st \<Longrightarrow> (cs_chain_id s, cs_source_name s) = k \<Longrightarrow> keyed (AList.update k s st)"
  using set_update_subset [of k s st] unfolding keyed_def by (auto simp: distinct_update)

text \<open>Every operation keeps the invariant and does to the map of cursors what the specification says.\<close>

lemma inv_saved: "keyed (ck_state ck) \<Longrightarrow> ckpt_inv (checkpoint_save ck)"
  by (simp add: ckpt_inv_def)

lemma abs_saved [simp]: "abs_ckpt (checkpoint_save ck) = abs_ckpt ck"
  by (simp add: abs_ckpt_def)

lemma abs_update:
  "abs_ckpt (ck\<lparr>ck_state := AList.update k s (ck_state ck)\<rparr>) = (abs_ckpt ck)(k \<mapsto> cursor_of s)"
  by (auto simp: abs_ckpt_def update_conv')

lemma keyed_lookup: "keyed st \<Longrightarrow> map_of st k = Some s \<Longrightarrow> (cs_chain_id s, cs_source_name s) = k"
  by (auto simp: keyed_def dest!: map_of_SomeD)

lemma advance_correct:
  assumes "keyed (ck_state ck)"
  shows "ckpt_inv (checkpoint_advance c src b h ck)
    \<and> abs_ckpt (checkpoint_advance c src b h ck) = spec_step (Advance c src b h) (abs_ckpt ck)"
proof (cases "map_of (ck_state ck) (c, src)")
  case None
  then show ?thesis using assms
    by (auto simp: checkpoint_advance_def abs_update cursor_of_def intro!: inv_saved keyed_update)
      (simp add: abs_ckpt_def)
next
  case (Some s)
  then have a: "abs_ckpt ck (c, src) = Some (cursor_of s)" by (simp add: abs_ckpt_def)
  then show ?thesis using assms keyed_lookup [OF assms Some]
    by (auto simp: checkpoint_advance_def Some abs_update cursor_of_def intro!: inv_saved keyed_update)
qed

lemma mark_correct:
  assumes "keyed (ck_state ck)"
  shows "ckpt_inv (mark_replay c src f t ck)
    \<and> abs_ckpt (mark_replay c src f t ck) = spec_step (MarkReplay c src f t) (abs_ckpt ck)"
proof (cases "map_of (ck_state ck) (c, src)")
  case None
  then have "abs_ckpt ck (c, src) = None" by (simp add: abs_ckpt_def)
  with None show ?thesis using assms
    by (auto simp: mark_replay_def Let_def dict_get_or_def abs_update cursor_of_def intro!: inv_saved keyed_update)
next
  case (Some s)
  then have "abs_ckpt ck (c, src) = Some (cursor_of s)" by (simp add: abs_ckpt_def)
  with Some show ?thesis using assms keyed_lookup [OF assms Some]
    by (auto simp: mark_replay_def Let_def dict_get_or_def abs_update cursor_of_def intro!: inv_saved keyed_update)
qed

lemma clear_correct:
  assumes "ckpt_inv ck"
  shows "ckpt_inv (clear_replay c src f t ck)
    \<and> abs_ckpt (clear_replay c src f t ck) = spec_step (ClearReplay c src f t) (abs_ckpt ck)"
proof (cases "map_of (ck_state ck) (c, src)")
  case None
  then have "abs_ckpt ck (c, src) = None" by (simp add: abs_ckpt_def)
  with None show ?thesis using assms by (simp add: clear_replay_def Let_def fun_upd_idem)
next
  case (Some s)
  have k: "keyed (ck_state ck)" using assms by (simp add: ckpt_inv_def)
  from Some have "abs_ckpt ck (c, src) = Some (cursor_of s)" by (simp add: abs_ckpt_def)
  with Some show ?thesis using k keyed_lookup [OF k Some]
    by (auto simp: clear_replay_def Let_def abs_update cursor_of_def
        intro!: inv_saved keyed_update)
qed

lemma restart_correct:
  assumes "ckpt_inv ck"
  shows "\<exists>ck'. checkpoint_load (ck_file ck) = Inr ck' \<and> ckpt_inv ck' \<and> abs_ckpt ck' = abs_ckpt ck"
proof (cases "ck_file ck")
  case None
  then show ?thesis using assms by (auto simp: ckpt_inv_def checkpoint_load_def checkpoint_save_def keyed_def abs_ckpt_def)
next
  case (Some v)
  then have "ck_file ck = ck_file (checkpoint_save ck)" "keyed (ck_state ck)"
    using assms by (auto simp: ckpt_inv_def)
  with load_saved [of ck] show ?thesis by (auto intro!: inv_saved)
qed

lemma step_correct:
  assumes "ckpt_inv ck"
  shows "\<exists>ck'. ckpt_step op ck = Inr ck' \<and> ckpt_inv ck' \<and> abs_ckpt ck' = spec_step op (abs_ckpt ck)"
proof -
  have "keyed (ck_state ck)" using assms by (simp add: ckpt_inv_def)
  then show ?thesis using assms
    by (cases op) (simp_all only: ckpt_step.simps sum.inject advance_correct mark_correct clear_correct
      restart_correct spec_step.simps(4), auto simp: advance_correct mark_correct clear_correct simp del: spec_step.simps)
qed

definition spec_run :: "ckpt_op list \<Rightarrow> ckpt_spec \<Rightarrow> ckpt_spec" where
  "spec_run ops m = fold spec_step ops m"

lemma run_correct:
  "ckpt_inv ck \<Longrightarrow> \<exists>ck'. ckpt_run ops ck = Inr ck' \<and> ckpt_inv ck' \<and> abs_ckpt ck' = spec_run ops (abs_ckpt ck)"
proof (induction ops arbitrary: ck)
  case (Cons op ops)
  from step_correct [OF Cons.prems] obtain ck1 where c1: "ckpt_step op ck = Inr ck1" "ckpt_inv ck1"
    "abs_ckpt ck1 = spec_step op (abs_ckpt ck)" by blast
  from Cons.IH [OF c1(2)] c1 show ?case by (simp add: ckpt_run_def spec_run_def)
qed (simp add: ckpt_run_def spec_run_def)

lemma spec_step_monotone:
  assumes "m k = Some (l, h, rs)"
  shows "\<exists>l' h' rs'. spec_step op m k = Some (l', h', rs') \<and> l \<le> l'"
  using assms by (cases op) (auto split: option.splits)

lemma spec_run_monotone:
  "m k = Some (l, h, rs) \<Longrightarrow> \<exists>l' h' rs'. spec_run ops m k = Some (l', h', rs') \<and> l \<le> l'"
proof (induction ops arbitrary: m l h rs)
  case (Cons op ops)
  from spec_step_monotone [of m k l h rs op] Cons.prems obtain l1 h1 rs1 where
    1: "spec_step op m k = Some (l1, h1, rs1)" "l \<le> l1" by blast
  then obtain l2 h2 rs2 where "spec_run ops (spec_step op m) k = Some (l2, h2, rs2)" "l1 \<le> l2"
    using Cons.IH [of "spec_step op m" l1 h1 rs1] by blast
  with 1(2) show ?case by (simp add: spec_run_def)
qed (simp add: spec_run_def)

section \<open>Properties\<close>

text \<open>C9: from any store whose file agrees with it, no run of operations and restarts raises; it does
  to the map of cursors what the specification says, in which a restart changes nothing; and the file
  agrees again, so that reopening it at any time gives the same cursors.\<close>

theorem checkpoint_refines_spec:
  assumes "ckpt_inv ck"
  shows "\<exists>ck'. ckpt_run ops ck = Inr ck' \<and> ckpt_inv ck' \<and> abs_ckpt ck' = spec_run ops (abs_ckpt ck)
    \<and> (\<exists>ck''. checkpoint_load (ck_file ck') = Inr ck'' \<and> abs_ckpt ck'' = abs_ckpt ck')"
  using run_correct [OF assms, of ops] restart_correct by blast

theorem checkpoint_refines_spec_witness:
  "\<exists>ck'. ckpt_run [Advance 1 ''logs'' 100 ''0xa'', MarkReplay 1 ''logs'' 90 95, Restart, Advance 1 ''logs'' 99 ''0xb'']
      \<lparr>ck_file = None, ck_state = []\<rparr> = Inr ck' \<and> abs_ckpt ck' (1, ''logs'') = Some (100, Some ''0xa'', [(90, 95)])"
proof -
  have "ckpt_inv \<lparr>ck_file = None, ck_state = []\<rparr>" by (simp add: ckpt_inv_def keyed_def)
  from checkpoint_refines_spec [OF this, of "[Advance 1 ''logs'' 100 ''0xa'', MarkReplay 1 ''logs'' 90 95, Restart,
      Advance 1 ''logs'' 99 ''0xb'']"] show ?thesis by (auto simp: spec_run_def) (simp add: abs_ckpt_def)
qed

text \<open>C30: from a consistent store (\<open>ckpt_inv\<close>, which an empty store satisfies and every operation keeps), the
  cursor of a source that has one never moves back, whatever is run, restarts included.\<close>

theorem checkpoint_monotone:
  assumes "ckpt_inv ck" "map_of (ck_state ck) (c, src) \<noteq> None" "ckpt_run ops ck = Inr ck'"
  shows "last_processed_block ck c src \<le> last_processed_block ck' c src"
proof -
  obtain s where s: "map_of (ck_state ck) (c, src) = Some s" using assms(2) by auto
  then have "abs_ckpt ck (c, src) = Some (cursor_of s)" by (simp add: abs_ckpt_def)
  then obtain l' h' rs' where l: "spec_run ops (abs_ckpt ck) (c, src) = Some (l', h', rs')" "cs_last_block s \<le> l'"
    using spec_run_monotone [of "abs_ckpt ck" "(c, src)"] by (fastforce simp: cursor_of_def)
  have "abs_ckpt ck' = spec_run ops (abs_ckpt ck)" using run_correct [OF assms(1), of ops] assms(3) by auto
  with l(1) have "abs_ckpt ck' (c, src) = Some (l', h', rs')" by simp
  then obtain s' where "map_of (ck_state ck') (c, src) = Some s'" "cs_last_block s' = l'"
    by (auto simp: abs_ckpt_def cursor_of_def)
  with s l(2) show ?thesis by (simp add: last_processed_block_def)
qed

theorem checkpoint_monotone_witness:
  "\<exists>ck'. ckpt_run [Advance 1 ''logs'' 7 ''0xb'', Restart]
     (checkpoint_advance 1 ''logs'' 100 ''0xa'' \<lparr>ck_file = None, ck_state = []\<rparr>) = Inr ck'
     \<and> 100 \<le> last_processed_block ck' 1 ''logs''"
proof -
  let ?ck = "checkpoint_advance 1 ''logs'' 100 ''0xa'' \<lparr>ck_file = None, ck_state = []\<rparr>"
  have inv: "ckpt_inv ?ck" using advance_correct [of "\<lparr>ck_file = None, ck_state = []\<rparr>"] by (simp add: keyed_def)
  then obtain ck' where r: "ckpt_run [Advance 1 ''logs'' 7 ''0xb'', Restart] ?ck = Inr ck'" using run_correct by blast
  have "map_of (ck_state ?ck) (1, ''logs'') \<noteq> None" "last_processed_block ?ck 1 ''logs'' = 100"
    by (simp_all add: checkpoint_advance_def Let_def last_processed_block_def)
  with checkpoint_monotone [OF inv _ r] r show ?thesis by fastforce
qed

lemma checkpoint_path_inj:
  "checkpoint_path root c k = checkpoint_path root c' k' \<longleftrightarrow> c = c' \<and> k = k'"
proof -
  have "takeWhile (\<lambda>x. x \<noteq> CHR ''_'') (show_int i @ ''_'' @ s) = show_int i" for i s
    using digits_free [of "CHR ''_''" i] by (subst takeWhile_append2) auto
  then have "show_int c @ ''_'' @ s = show_int c' @ ''_'' @ s' \<Longrightarrow> c = c'" for s s'
    by (metis show_int_inj)
  then show ?thesis by (auto simp: checkpoint_path_def)
qed

lemma checkpoint_path_not_tmp: "checkpoint_path root c k \<noteq> checkpoint_path root' c' k' @ ''.tmp''"
proof
  assume "checkpoint_path root c k = checkpoint_path root' c' k' @ ''.tmp''"
  then have "last (checkpoint_path root c k) = last (checkpoint_path root' c' k' @ ''.tmp'')" by simp
  then show False by (simp add: checkpoint_path_def)
qed

text \<open>The block of a job reads back as it was written, except that block 0 reads as none; the jobs
  of other chains and other names read as before, whatever their names are.\<close>

theorem job_block_read_back:
  "get_last_processed_block root (set_last_processed_block root c d b r fs) c' d' =
     (if c' = c \<and> d' = d then Inr (if b = 0 then None else Some b)
      else get_last_processed_block root fs c' d')"
proof -
  let ?p = "checkpoint_path root c (''dag_'' @ d)" and ?p' = "checkpoint_path root c' (''dag_'' @ d')"
  have "?p' = ?p \<longleftrightarrow> c' = c \<and> d' = d" unfolding checkpoint_path_inj by simp
  moreover have "?p' \<noteq> ?p @ ''.tmp''" "?p \<noteq> ?p @ ''.tmp''" by (rule checkpoint_path_not_tmp)+
  ultimately show ?thesis
    by (simp add: get_last_processed_block_def set_last_processed_block_def Let_def replace_file_def
        write_text_def as_dict_def dict_get_or_def del: append.simps)
qed

end
