(* ===== verification/Finality_Reorg.thy ===== *)
theory Finality_Reorg
  imports Checkpoint_Store Evm_Types
begin

text \<open>
  \<open>ingestion/finality.py\<close> and \<open>ingestion/reorg_handler.py\<close>: which blocks are final, and what a change of
  the canonical chain does. The client is a parameter (\<open>get_block\<close>, the finalized block number, the
  time); a configuration file is the YAML value it holds, if it exists.
\<close>

section \<open>Finality\<close>

definition DEFAULT_FINALITY_DEPTH :: int where "DEFAULT_FINALITY_DEPTH = 64"

definition load_finality_window_blocks :: "pyval option \<Rightarrow> int \<Rightarrow> int res" where
  "load_finality_window_blocks config fallback = (case config of
     None \<Rightarrow> Inr fallback
   | Some y \<Rightarrow>
       rbind (as_dict (py_or y (PDict []))) (\<lambda>doc.
       rbind (as_dict (py_or (dict_get_or doc ''ingestion'' (PDict [])) (PDict []))) (\<lambda>ingestion.
       case map_of ingestion ''finality_window_blocks'' of Some v \<Rightarrow> py_int v
       | None \<Rightarrow> (case map_of ingestion ''finality_depth'' of Some v \<Rightarrow> py_int v
         | None \<Rightarrow> (case map_of doc ''finality_window_blocks'' of Some v \<Rightarrow> py_int v
           | None \<Rightarrow> Inr fallback)))))"

definition compute_finality_watermark :: "pyval res \<Rightarrow> int \<Rightarrow> int" where
  "compute_finality_watermark get_finalized_block_number finality_depth =
     (case rbind get_finalized_block_number py_int of
        Inr fin \<Rightarrow> if fin > 0 then fin else max 0 finality_depth
      | Inl e \<Rightarrow> max 0 finality_depth)"

definition is_block_finalized :: "int \<Rightarrow> int \<Rightarrow> bool" where
  "is_block_finalized block_number watermark = (block_number \<le> watermark)"

definition compute_safe_to_block :: "pyval res \<Rightarrow> int \<Rightarrow> int" where
  "compute_safe_to_block get_finalized_block_number finality_depth =
     compute_finality_watermark get_finalized_block_number finality_depth"

definition watermark_from_settings :: "pyval option \<Rightarrow> int res" where
  "watermark_from_settings config = load_finality_window_blocks config DEFAULT_FINALITY_DEPTH"

section \<open>Reorganisations\<close>

definition detect_canonical_conflict :: "(int \<Rightarrow> Block res) \<Rightarrow> int \<Rightarrow> int \<Rightarrow> string \<Rightarrow> ReorgEvent option res" where
  "detect_canonical_conflict get_block now block_number known_hash =
     rbind (get_block block_number) (\<lambda>block.
     let h = bk_header block in
     Inr (if lower (bh_block_hash h) = lower known_hash then None
          else Some \<lparr>re_chain_id = bh_chain_id h, re_block_number = block_number,
            re_old_block_hash = lower known_hash, re_new_block_hash = lower (bh_block_hash h),
            re_detected_at = now\<rparr>))"

function reorg_loop :: "(int \<Rightarrow> Block res) \<Rightarrow> int \<Rightarrow> string \<Rightarrow> int \<Rightarrow> int res" where
  "reorg_loop get_block cur_block cur_hash depth =
     (if cur_block > 0
      then rbind (get_block cur_block) (\<lambda>block.
        if lower (bh_block_hash (bk_header block)) = lower cur_hash then Inr depth
        else reorg_loop get_block (cur_block - 1) (bh_parent_hash (bk_header block)) (depth + 1))
      else Inr depth)"
  by pat_completeness auto
termination by (relation "measure (\<lambda>(g, b, h, d). nat b)") auto

declare reorg_loop.simps [simp del]

definition find_reorg_depth :: "(int \<Rightarrow> Block res) \<Rightarrow> int \<Rightarrow> string \<Rightarrow> int res" where
  "find_reorg_depth get_block last_known_block_number last_known_hash =
     reorg_loop get_block last_known_block_number last_known_hash 0"

definition promote_finalized_blocks :: "int \<times> int \<Rightarrow> int \<Rightarrow> PromotionResult" where
  "promote_finalized_blocks shadow_range watermark = (case shadow_range of (from_block, to_block) \<Rightarrow>
     let eligible_to = min to_block watermark in
     if eligible_to < from_block
     then \<lparr>pr_chain_id = 1, pr_promoted_from_block = from_block, pr_promoted_to_block = from_block - 1,
       pr_promoted_count = 0, pr_conflicts = []\<rparr>
     else \<lparr>pr_chain_id = 1, pr_promoted_from_block = from_block, pr_promoted_to_block = eligible_to,
       pr_promoted_count = eligible_to - from_block + 1, pr_conflicts = []\<rparr>)"

definition mark_partition_for_replay :: "Checkpoint \<Rightarrow> int \<Rightarrow> string \<Rightarrow> int \<Rightarrow> int \<Rightarrow> Checkpoint" where
  "mark_partition_for_replay checkpoint_store chain_id source_name from_block to_block =
     mark_replay chain_id source_name from_block to_block checkpoint_store"

section \<open>Properties\<close>

text \<open>Promotion takes exactly the blocks of the shadow range that are final, and counts them.\<close>

theorem promotion_exact:
  "let r = promote_finalized_blocks (from_block, to_block) watermark;
       promoted = {b. pr_promoted_from_block r \<le> b \<and> b \<le> pr_promoted_to_block r}
   in promoted = {b. from_block \<le> b \<and> b \<le> to_block \<and> is_block_finalized b watermark}
     \<and> pr_promoted_count r = int (card promoted)"
proof -
  have "{b. f \<le> b \<and> b \<le> t} = {f..t}" for f t :: int by auto
  then show ?thesis
    by (auto simp: promote_finalized_blocks_def Let_def is_block_finalized_def)
qed

text \<open>C39: on a chain that serves the blocks up to the recorded one, linked by their parent hashes, the
  reorganisation depth of a recorded block above genesis is 0 when its hash is still canonical and 1
  otherwise, however far back the two chains part; a conflict is reported, with the two hashes, exactly
  when the hash is not canonical. At genesis the depth is always 0, also when a conflict is reported.\<close>

theorem reorg_depth_at_most_one:
  assumes "\<forall>b \<in> {0..n}. get_block b = Inr (chain b)"
    and "\<forall>b \<in> {1..n}. lower (bh_block_hash (bk_header (chain (b - 1)))) = lower (bh_parent_hash (bk_header (chain b)))"
    and "0 \<le> n"
  shows "let canonical = (lower (bh_block_hash (bk_header (chain n))) = lower known) in
    find_reorg_depth get_block n known = Inr (if canonical \<or> n = 0 then 0 else 1)
    \<and> (\<exists>r. detect_canonical_conflict get_block now n known = Inr r \<and> (r = None) = canonical
        \<and> (\<forall>ev. r = Some ev \<longrightarrow> re_block_number ev = n \<and> re_old_block_hash ev = lower known
             \<and> re_new_block_hash ev = lower (bh_block_hash (bk_header (chain n)))))"
proof -
  have blk: "get_block n = Inr (chain n)" using assms(1,3) by simp
  have nxt: "reorg_loop get_block (n - 1) (bh_parent_hash (bk_header (chain n))) 1 = Inr 1" if "0 < n"
    using assms(1,2) that by (simp add: reorg_loop.simps [of _ "n - 1"])
  have "find_reorg_depth get_block n known =
      Inr (if lower (bh_block_hash (bk_header (chain n))) = lower known \<or> n = 0 then 0 else 1)"
    using blk nxt assms(3) by (simp add: find_reorg_depth_def reorg_loop.simps [of _ n])
  then show ?thesis using blk by (simp add: detect_canonical_conflict_def Let_def)
qed

definition linked_block :: "int \<Rightarrow> Block" where
  "linked_block n = \<lparr>bk_header = \<lparr>bh_chain_id = 1, bh_block_number = n, bh_block_hash = ''0x'' @ show_int n,
     bh_parent_hash = ''0x'' @ show_int (n - 1), bh_timestamp = 0, bh_miner = None, bh_base_fee_per_gas = None\<rparr>,
     bk_transaction_hashes = [], bk_full_transactions = None\<rparr>"

theorem reorg_depth_at_most_one_witness:
  "find_reorg_depth (\<lambda>b. Inr (linked_block b)) 100 ''0xdead'' = Inr 1"
proof -
  have "lower (bh_block_hash (bk_header (linked_block 100))) \<noteq> lower ''0xdead''" by code_simp
  then show ?thesis
    using reorg_depth_at_most_one [of 100 "\<lambda>b. Inr (linked_block b)" linked_block "''0xdead''" 0]
    by (simp add: linked_block_def Let_def)
qed

text \<open>The watermark when the node gives none: the depth itself, not the head less the depth.\<close>

lemma watermark_fallback: "compute_finality_watermark (Inl e) 64 = 64"
  by (simp add: compute_finality_watermark_def)

end
