(* ===== verification/Lineage_Storage.thy ===== *)
theory Lineage_Storage
  imports Evm_Types
begin

text \<open>
  \<open>lineage/run_metadata.py\<close>, \<open>storage/manifest.py\<close> and the file layout of
  \<open>storage/dataset_writer.py\<close>. A store, local or in a bucket, is a map from paths to what was written
  there: the JSON value a file encodes, or the rows of a data file as a list of mappings. The size in
  bytes of what is written (\<open>size_of\<close>) and the clock are parameters. The writers of the single record
  types and the BigQuery loader are in \<open>Warehouse\<close>.
\<close>

type_synonym store = "string \<Rightarrow> pyval option"

section \<open>JSON values\<close>

text \<open>What a value is after \<open>json.dumps(v, default=str)\<close> and \<open>json.loads\<close>.\<close>

fun jsonify :: "pyval \<Rightarrow> pyval" where
  "jsonify (PList xs) = PList (map jsonify xs)"
| "jsonify (PTuple xs) = PList (map jsonify xs)"
| "jsonify (PDict d) = PDict (map (\<lambda>(k, v). (k, jsonify v)) d)"
| "jsonify (PBytes bs) = PStr (py_repr (PBytes bs))"
| "jsonify v = v"

section \<open>Runs (\<open>lineage/run_metadata.py\<close>)\<close>

datatype run_status = Running | Success | Failed

primrec run_status_value :: "run_status \<Rightarrow> string" where
  "run_status_value Running = ''running''"
| "run_status_value Success = ''success''"
| "run_status_value Failed = ''failed''"

definition run_status_of :: "string \<Rightarrow> run_status option" where
  "run_status_of s = (if s = ''running'' then Some Running else if s = ''success'' then Some Success
     else if s = ''failed'' then Some Failed else None)"

record RunMetadata =
  rm_run_id :: string
  rm_dag_id :: string
  rm_chain_id :: int
  rm_started_at :: int
  rm_completed_at :: "int option"
  rm_status :: run_status
  rm_partitions_processed :: int
  rm_manifest_ids :: "string list"

fun run_partition_fields :: "int \<times> string \<times> string \<times> string \<times> string \<Rightarrow> string list" where
  "run_partition_fields (chain_id, dag_id, run_id, source_name, partition_key) =
     [show_int chain_id, dag_id, run_id, source_name, partition_key]"

definition compute_run_partition_id :: "int \<times> string \<times> string \<times> string \<times> string \<Rightarrow> string" where
  "compute_run_partition_id x = sha256_hex (canonical_key ''run_partition'' (run_partition_fields x))"

interpretation run_partition_id: hashed_id compute_run_partition_id "''run_partition''" run_partition_fields
  by unfold_locales (simp_all add: compute_run_partition_id_def)

definition metadata_path :: "string \<Rightarrow> string \<Rightarrow> string" where
  "metadata_path metadata_dir run_id = metadata_dir @ ''/'' @ run_id @ ''.json''"

definition metadata_value :: "RunMetadata \<Rightarrow> pyval" where
  "metadata_value m = PDict
     [(''run_id'', PStr (rm_run_id m)), (''dag_id'', PStr (rm_dag_id m)), (''chain_id'', PInt (rm_chain_id m)),
      (''started_at'', PInt (rm_started_at m)),
      (''completed_at'', case rm_completed_at m of None \<Rightarrow> PNone | Some t \<Rightarrow> PInt t),
      (''status'', PStr (run_status_value (rm_status m))),
      (''partitions_processed'', PInt (rm_partitions_processed m)),
      (''manifest_ids'', PList (map PStr (rm_manifest_ids m)))]"

definition record_run :: "string \<Rightarrow> string \<Rightarrow> string \<Rightarrow> int \<Rightarrow> run_status \<Rightarrow> int \<Rightarrow> string list \<Rightarrow> int \<Rightarrow> int option
    \<Rightarrow> store \<Rightarrow> RunMetadata \<times> store" where
  "record_run metadata_dir dag_id run_id chain_id status partitions manifest_ids started_at completed_at fs =
     (let meta = \<lparr>rm_run_id = run_id, rm_dag_id = dag_id, rm_chain_id = chain_id, rm_started_at = started_at,
        rm_completed_at = completed_at, rm_status = status, rm_partitions_processed = partitions,
        rm_manifest_ids = manifest_ids\<rparr> in
      (meta, fs(metadata_path metadata_dir run_id \<mapsto> jsonify (metadata_value meta))))"

text \<open>Reading back; a value of another type than was written is ill-typed.\<close>

definition want_status :: "pyval \<Rightarrow> run_status res" where
  "want_status v = rbind (want_str v) (\<lambda>s. case run_status_of s of Some st \<Rightarrow> Inr st
     | None \<Rightarrow> Inl (Raise TypeError ''a status is required''))"

definition get_run_metadata :: "string \<Rightarrow> string \<Rightarrow> store \<Rightarrow> RunMetadata res" where
  "get_run_metadata metadata_dir run_id fs = (case fs (metadata_path metadata_dir run_id) of
     None \<Rightarrow> Inl (Raise FileNotFoundError (''run metadata not found for run_id='' @ repr_str run_id))
   | Some v \<Rightarrow> rbind (as_dict v) (\<lambda>payload.
       rbind (rbind (dict_index payload ''run_id'') want_str) (\<lambda>rid.
       rbind (rbind (dict_index payload ''dag_id'') want_str) (\<lambda>dag.
       rbind (rbind (dict_index payload ''chain_id'') want_int) (\<lambda>c.
       rbind (rbind (dict_index payload ''started_at'') want_int) (\<lambda>started.
       rbind (if dict_get payload ''completed_at'' = PNone then Inr None
              else rbind (want_int (dict_get payload ''completed_at'')) (\<lambda>t. Inr (Some t))) (\<lambda>completed.
       rbind (rbind (dict_index payload ''status'') want_status) (\<lambda>status.
       rbind (rbind (dict_index payload ''partitions_processed'') want_int) (\<lambda>parts.
       rbind (rbind (as_list (dict_get_or payload ''manifest_ids'' (PList []))) (mapR want_str)) (\<lambda>ids.
       Inr \<lparr>rm_run_id = rid, rm_dag_id = dag, rm_chain_id = c, rm_started_at = started,
         rm_completed_at = completed, rm_status = status, rm_partitions_processed = parts,
         rm_manifest_ids = ids\<rparr>))))))))))"

section \<open>Manifests (\<open>storage/manifest.py\<close>)\<close>

record Manifest =
  mf_run_id :: string
  mf_run_partition_id :: string
  mf_source :: string
  mf_partition_key :: string
  mf_gcs_paths :: "string list"
  mf_row_counts :: "(string \<times> int) list"
  mf_total_rows :: int

definition manifest_create :: "string \<Rightarrow> string \<Rightarrow> string \<Rightarrow> string \<Rightarrow> string list \<Rightarrow> (string \<times> int) list \<Rightarrow> Manifest" where
  "manifest_create run_id run_partition_id source partition_key gcs_paths row_counts =
     \<lparr>mf_run_id = run_id, mf_run_partition_id = run_partition_id, mf_source = source,
      mf_partition_key = partition_key, mf_gcs_paths = gcs_paths, mf_row_counts = row_counts,
      mf_total_rows = sum_list (map snd row_counts)\<rparr>"

definition manifest_value :: "Manifest \<Rightarrow> pyval" where
  "manifest_value m = PDict
     [(''run_id'', PStr (mf_run_id m)), (''run_partition_id'', PStr (mf_run_partition_id m)),
      (''source'', PStr (mf_source m)), (''partition_key'', PStr (mf_partition_key m)),
      (''gcs_paths'', PList (map PStr (mf_gcs_paths m))),
      (''row_counts'', PDict (map (\<lambda>(k, n). (k, PInt n)) (mf_row_counts m))),
      (''total_rows'', PInt (mf_total_rows m))]"

text \<open>\<open>s.partition(sep)\<close> for a separator of one character: the text before it and after it; the object a
  target names, in a bucket or on disk.\<close>

definition partition_at :: "char \<Rightarrow> string \<Rightarrow> string \<times> string" where
  "partition_at c s = (takeWhile (\<lambda>x. x \<noteq> c) s, drop 1 (dropWhile (\<lambda>x. x \<noteq> c) s))"

definition object_at :: "string \<Rightarrow> string" where
  "object_at target = (if starts_with target ''gs://''
     then (case partition_at CHR ''/'' (drop 5 target) of (bucket, name) \<Rightarrow> ''gs://'' @ bucket @ ''/'' @ name)
     else target)"

definition manifest_persist :: "Manifest \<Rightarrow> string \<Rightarrow> store \<Rightarrow> store" where
  "manifest_persist self target fs = fs(object_at target \<mapsto> jsonify (manifest_value self))"

text \<open>\<open>_ManifestPayload(**body)\<close>: the generated constructor takes the seven fields by name, and only
  \<open>total_rows\<close> has a default.\<close>

definition payload_required :: "string list" where
  "payload_required = [''run_id'', ''run_partition_id'', ''source'', ''partition_key'', ''gcs_paths'', ''row_counts'']"

definition payload_kwargs :: "pydict \<Rightarrow> pydict res" where
  "payload_kwargs body =
     (case filter (\<lambda>k. k \<notin> set (payload_required @ [''total_rows''])) (map fst body) of
        k # _ \<Rightarrow> Inl (Raise TypeError (''an unexpected keyword argument '' @ k))
      | [] \<Rightarrow> (case filter (\<lambda>k. k \<notin> set (map fst body)) payload_required of
          k # _ \<Rightarrow> Inl (Raise TypeError (''missing a required argument '' @ k))
        | [] \<Rightarrow> Inr body))"

definition manifest_load :: "string \<Rightarrow> store \<Rightarrow> Manifest res" where
  "manifest_load target fs = (case fs (object_at target) of
     None \<Rightarrow> Inl (Raise FileNotFoundError target)
   | Some v \<Rightarrow> rbind (rbind (as_dict v) payload_kwargs) (\<lambda>body.
       rbind (rbind (dict_index body ''run_id'') want_str) (\<lambda>rid.
       rbind (rbind (dict_index body ''run_partition_id'') want_str) (\<lambda>rpid.
       rbind (rbind (dict_index body ''source'') want_str) (\<lambda>src.
       rbind (rbind (dict_index body ''partition_key'') want_str) (\<lambda>key.
       rbind (rbind (rbind (dict_index body ''gcs_paths'') as_list) (mapR want_str)) (\<lambda>paths.
       rbind (rbind (rbind (dict_index body ''row_counts'') as_dict)
          (mapR (\<lambda>(k, v). rbind (want_int v) (\<lambda>n. Inr (k, n))))) (\<lambda>counts.
       rbind (want_int (dict_get_or body ''total_rows'' (PInt 0))) (\<lambda>total_rows.
       Inr \<lparr>mf_run_id = rid, mf_run_partition_id = rpid, mf_source = src, mf_partition_key = key,
         mf_gcs_paths = paths, mf_row_counts = counts, mf_total_rows = total_rows\<rparr>)))))))))"

section \<open>Data files (\<open>storage/dataset_writer.py\<close>)\<close>

definition rstrip_slash :: "string \<Rightarrow> string" where
  "rstrip_slash s = rev (dropWhile (\<lambda>c. c = CHR ''/'') (rev s))"

text \<open>Where the file of a partition goes, in a bucket or on disk.\<close>

definition object_path :: "string \<Rightarrow> string \<Rightarrow> string" where
  "object_path gcs_path run_partition_id =
     (if starts_with gcs_path ''gs://''
      then (case partition_at CHR ''/'' (drop 5 gcs_path) of (bucket, pre) \<Rightarrow>
        ''gs://'' @ bucket @ ''/'' @ (if pre \<noteq> [] then rstrip_slash pre @ ''/part-'' @ run_partition_id @ ''.parquet''
          else ''part-'' @ run_partition_id @ ''.parquet''))
      else gcs_path @ ''/part-'' @ run_partition_id @ ''.jsonl'')"

definition write_parquet_to_gcs :: "(pydict list \<Rightarrow> int) \<Rightarrow> pydict list \<Rightarrow> string \<Rightarrow> string \<Rightarrow> store
    \<Rightarrow> (int \<times> int) \<times> store" where
  "write_parquet_to_gcs size_of rows gcs_path run_partition_id fs =
     (if \<not> starts_with gcs_path ''gs://''
      then ((int (length rows), size_of rows),
            fs(object_path gcs_path run_partition_id \<mapsto> jsonify (PList (map PDict rows))))
      else if rows = [] then ((0, 0), fs)
      else ((int (length rows), size_of rows),
            fs(object_path gcs_path run_partition_id \<mapsto> PList (map PDict rows))))"

text \<open>One row: the fields of the item, tagged with its run partition and the time.\<close>

definition tag_row :: "('a \<Rightarrow> pydict) \<Rightarrow> string \<Rightarrow> 'a \<Rightarrow> int \<Rightarrow> pydict" where
  "tag_row to_dict run_partition_id item now =
     AList.update ''ingested_at'' (PInt now)
       (AList.update ''run_partition_id'' (PStr run_partition_id) (to_dict item))"

definition write_dataset :: "('a \<Rightarrow> pydict) \<Rightarrow> (nat \<Rightarrow> int) \<Rightarrow> (pydict list \<Rightarrow> int) \<Rightarrow> 'a list \<Rightarrow> string \<Rightarrow> string
    \<Rightarrow> store \<Rightarrow> WriteResult \<times> store" where
  "write_dataset to_dict clock size_of items gcs_path run_partition_id fs =
     (let rows = map (\<lambda>(i, item). tag_row to_dict run_partition_id item (clock i)) (enumerate 0 items) in
      case write_parquet_to_gcs size_of rows gcs_path run_partition_id fs of ((n_rows, n_bytes), fs') \<Rightarrow>
      (\<lparr>wr_gcs_path = gcs_path, wr_rows = n_rows, wr_bytes_written = n_bytes, wr_run_partition_id = run_partition_id\<rparr>, fs'))"

section \<open>Reading back\<close>

lemma want_counts: "mapR (\<lambda>(k, v). rbind (want_int v) (\<lambda>n. Inr (k, n))) (map (\<lambda>(k, n). (k, PInt n)) d) = Inr d"
  by (induction d) (auto simp: want_int_def)

lemma jsonify_strs: "map jsonify (map PStr xs) = map PStr xs"
  by simp

lemma jsonify_counts: "map (\<lambda>(k, v). (k, jsonify v)) (map (\<lambda>(k, n). (k, PInt n)) d) = map (\<lambda>(k, n). (k, PInt n)) d"
  by (simp add: case_prod_beta)

lemma run_status_back: "run_status_of (run_status_value st) = Some st"
  by (cases st) (simp_all add: run_status_of_def)

lemma metadata_value_json: "jsonify (metadata_value m) = metadata_value m"
  by (cases "rm_completed_at m") (simp_all add: metadata_value_def)

lemma manifest_value_json: "jsonify (manifest_value m) = manifest_value m"
  by (simp add: manifest_value_def case_prod_beta)

lemma metadata_back:
  "fs (metadata_path dir rid) = Some (metadata_value m) \<Longrightarrow> get_run_metadata dir rid fs = Inr m"
  by (cases m; cases "rm_completed_at m")
    (simp_all add: get_run_metadata_def metadata_value_def as_dict_def dict_index_def dict_get_def dict_get_or_def
      want_status_def run_status_back as_list_def want_strs del: map_map)

lemma manifest_back: "fs (object_at target) = Some (manifest_value m) \<Longrightarrow> manifest_load target fs = Inr m"
  by (cases m) (simp add: manifest_load_def payload_kwargs_def payload_required_def manifest_value_def as_dict_def dict_index_def dict_get_or_def
      as_list_def want_strs want_counts del: map_map)

lemma filter_Nil_or_hd: "(case filter P xs of [] \<Rightarrow> a | x # _ \<Rightarrow> f x) = (if \<forall>x \<in> set xs. \<not> P x then a else f (hd (filter P xs)))"
  by (cases "filter P xs") (auto simp: filter_empty_conv filter_eq_Cons_iff)

lemma payload_kwargs_iff:
  "(payload_kwargs body = Inr d) = (d = body \<and> set payload_required \<subseteq> set (map fst body)
     \<and> set (map fst body) \<subseteq> insert ''total_rows'' (set payload_required))"
  by (auto simp: payload_kwargs_def filter_Nil_or_hd subset_iff)

lemma manifest_load_keys:
  assumes "manifest_load target fs = Inr m"
  shows "\<exists>body. fs (object_at target) = Some (PDict body) \<and> set payload_required \<subseteq> set (map fst body)
     \<and> set (map fst body) \<subseteq> insert ''total_rows'' (set payload_required)"
proof -
  obtain v body where v: "fs (object_at target) = Some v" "as_dict v = Inr body" "payload_kwargs body = Inr body"
    using assms by (auto simp: manifest_load_def rbind_def payload_kwargs_iff split: option.splits sum.splits)
  then show ?thesis
    by (auto simp: as_dict_def payload_kwargs_iff split: pyval.splits)
qed

lemma metadata_path_inj: "metadata_path dir r = metadata_path dir r' \<longleftrightarrow> r = r'"
  by (simp add: metadata_path_def)

lemma object_path_inj: "object_path path r = object_path path r' \<longleftrightarrow> r = r'"
  by (auto simp: object_path_def split: prod.splits)

section \<open>Properties\<close>

text \<open>C38: what a run records is what is read back, until the run records again; other runs keep their
  records; and a manifest is read back with the total of its row counts.\<close>

theorem run_metadata_roundtrip:
  "let (meta, fs') = record_run dir dag rid c st parts ids started completed fs in
     get_run_metadata dir rid' fs' = (if rid' = rid then Inr meta else get_run_metadata dir rid' fs)
     \<and> rm_status meta = st \<and> rm_manifest_ids meta = ids
     \<and> (let m = manifest_create rid rpid src key paths counts in
        manifest_load target (manifest_persist m target fs) = Inr m \<and> mf_total_rows m = sum_list (map snd counts))"
proof -
  obtain meta fs' where r: "record_run dir dag rid c st parts ids started completed fs = (meta, fs')"
    by (cases "record_run dir dag rid c st parts ids started completed fs")
  then have "get_run_metadata dir rid' fs' = (if rid' = rid then Inr meta else get_run_metadata dir rid' fs)"
    by (auto simp: record_run_def Let_def metadata_value_json metadata_path_inj
        intro!: metadata_back) (simp add: get_run_metadata_def metadata_path_inj)
  moreover have "rm_status meta = st \<and> rm_manifest_ids meta = ids" using r by (auto simp: record_run_def Let_def)
  moreover have "manifest_load target (manifest_persist m target fs) = Inr m" for m
    by (rule manifest_back) (simp add: manifest_persist_def manifest_value_json)
  ultimately show ?thesis by (simp add: r manifest_create_def Let_def)
qed



end
