(* ===== verification/Seed_Fixtures.thy ===== *)
theory Seed_Fixtures
  imports Rpc_Client Staking Payment_Abstraction
begin

text \<open>
  \<open>scripts/seed_to_local.py\<close>, first part: the loaders of the cached transactions, the three ABIs and
  the registry the script decodes them with. A fixture is the JSON its files encode; the trace file
  is a nested call tree, which the script flattens to rows and hands to the tree builder.
\<close>

record Fixture =
  fx_tx :: pydict
  fx_block :: pydict
  fx_receipt :: pydict
  fx_logs :: "pydict list"
  fx_trace :: pydict

definition LINK :: string where
  "LINK = ''0x514910771af9ca656af840dff83e8264ecf986ca''"

definition COMMUNITY_POOL :: string where
  "COMMUNITY_POOL = ''0xbc10f2e862ed4502144c7d632a3459f49dfcdb5e''"

definition STAKED_TOPIC0 :: string where
  "STAKED_TOPIC0 = ''0xb4caaf29adda3eefee3ad552a8e85058589bf834c7466cae4ee58787f70589ed''"

definition ASSET_TRANSFERRED_FOR_SWAP_TOPIC0 :: string where
  "ASSET_TRANSFERRED_FOR_SWAP_TOPIC0 = ''0xc153544804f2cfae0e8eb92d3f202c159d0caf2f5590d790a987091dc85366a0''"

section \<open>Loaders\<close>

text \<open>\<open>int(d[k], 16)\<close> and \<open>d[k]\<close> where a text is stored.\<close>

definition index_int16 :: "pydict \<Rightarrow> string \<Rightarrow> int res" where
  "index_int16 d k = rbind (dict_index d k) py_int16"

definition index_str :: "pydict \<Rightarrow> string \<Rightarrow> string res" where
  "index_str d k = rbind (dict_index d k) want_str"

definition load_receipt :: "Fixture \<Rightarrow> Receipt res" where
  "load_receipt fixture = (let r = fx_receipt fixture in
     rbind (index_int16 r ''blockNumber'') (\<lambda>block_number.
     rbind (index_str r ''blockHash'') (\<lambda>block_hash.
     rbind (index_str r ''transactionHash'') (\<lambda>tx_hash.
     rbind (index_int16 r ''transactionIndex'') (\<lambda>tx_index.
     rbind (index_int16 r ''status'') (\<lambda>status.
     rbind (index_int16 r ''gasUsed'') (\<lambda>gas_used.
     rbind (if truthy (dict_get r ''effectiveGasPrice'')
            then rbind (index_int16 r ''effectiveGasPrice'') (\<lambda>p. Inr (Some p)) else Inr None) (\<lambda>price.
     rbind (index_int16 r ''cumulativeGasUsed'') (\<lambda>cumulative.
     rbind (if dict_get r ''contractAddress'' = PNone then Inr None
            else rbind (want_str (dict_get r ''contractAddress'')) (\<lambda>a. Inr (Some a))) (\<lambda>contract_address.
     rbind (as_list (dict_get_or r ''logs'' (PList []))) (\<lambda>logs.
     Inr \<lparr>rc_chain_id = 1, rc_block_number = block_number, rc_block_hash = block_hash, rc_tx_hash = tx_hash,
       rc_tx_index = tx_index, rc_status = status, rc_gas_used = gas_used, rc_effective_gas_price = price,
       rc_cumulative_gas_used = cumulative, rc_contract_address = contract_address,
       rc_logs_count = int (length logs)\<rparr>)))))))))))"

definition fixture_log :: "pydict \<Rightarrow> RawLog res" where
  "fixture_log log =
     rbind (index_int16 log ''blockNumber'') (\<lambda>block_number.
     rbind (index_str log ''blockHash'') (\<lambda>block_hash.
     rbind (index_str log ''transactionHash'') (\<lambda>tx_hash.
     rbind (index_int16 log ''transactionIndex'') (\<lambda>tx_index.
     rbind (index_int16 log ''logIndex'') (\<lambda>log_index.
     rbind (rbind (dict_index log ''address'') py_lower) (\<lambda>address.
     rbind (rbind (rbind (dict_index log ''topics'') as_list) (mapR want_str)) (\<lambda>topics.
     rbind (index_str log ''data'') (\<lambda>data.
     Inr \<lparr>lg_chain_id = 1, lg_block_number = block_number, lg_block_hash = block_hash, lg_tx_hash = tx_hash,
       lg_tx_index = tx_index, lg_log_index = log_index, lg_address = address, lg_topics = topics,
       lg_data = data\<rparr>))))))))"

definition load_logs :: "Fixture \<Rightarrow> RawLog list res" where
  "load_logs fixture = mapR fixture_log (fx_logs fixture)"

section \<open>The trace as rows\<close>

definition node_calls :: "pydict \<Rightarrow> pydict list res" where
  "node_calls node = dict_items (dict_get_or node ''calls'' (PList []))"

lemma node_calls_size:
  assumes "node_calls node = Inr ds" "d \<in> set ds"
  shows "size (PDict d) < size (PDict node)"
proof -
  from assms have v: "size (PDict d) < size (dict_get_or node ''calls'' (PList []))"
    unfolding node_calls_def by (rule dict_items_size)
  then show ?thesis
    using map_of_size [of node "''calls''"] by (cases "map_of node ''calls''") (auto simp: dict_get_or_def)
qed

text \<open>The row of one node; \<open>parent_failed\<close> is whether an ancestor failed.\<close>

definition node_row :: "pydict \<Rightarrow> string \<Rightarrow> int \<Rightarrow> int \<Rightarrow> int list \<Rightarrow> bool \<Rightarrow> pydict res" where
  "node_row node tx_hash block_number chain_id addr parent_failed =
     (let err = dict_get node ''error'' in
      rbind (py_lower (py_or (dict_get node ''type'') (PStr ''CALL''))) (\<lambda>call_type.
      rbind (py_lower (py_or (dict_get node ''from'') (PStr ''''))) (\<lambda>from_address.
      rbind (if truthy (dict_get node ''to'')
             then rbind (py_lower (dict_get node ''to'')) (\<lambda>a. Inr (PStr a)) else Inr PNone) (\<lambda>to_address.
      rbind (hex_field node ''value'') (\<lambda>value.
      rbind (hex_field node ''gas'') (\<lambda>gas.
      rbind (hex_field node ''gasUsed'') (\<lambda>gas_used.
      rbind (node_calls node) (\<lambda>children.
      Inr [(''transaction_hash'', PStr tx_hash), (''block_number'', PInt block_number),
        (''chain_id'', PInt chain_id), (''trace_address'', PStr (serialize_trace_address addr)),
        (''call_type'', PStr call_type), (''from_address'', PStr from_address), (''to_address'', to_address),
        (''value'', PInt value), (''gas'', PInt gas), (''gas_used'', PInt gas_used),
        (''input'', dict_get_or node ''input'' (PStr ''0x'')),
        (''output'', dict_get_or node ''output'' (PStr ''0x'')), (''error'', err),
        (''status'', PInt (if truthy err \<or> parent_failed then 0 else 1)),
        (''subtraces'', PInt (int (length children)))]))))))))"

function trace_node_to_flat_rows :: "pydict \<Rightarrow> string \<Rightarrow> int \<Rightarrow> int \<Rightarrow> int list \<Rightarrow> bool \<Rightarrow> pydict list res" where
  "trace_node_to_flat_rows node tx_hash block_number chain_id addr parent_failed =
     rbind (node_row node tx_hash block_number chain_id addr parent_failed) (\<lambda>row.
     rbind (node_calls node) (\<lambda>children.
     rbind (mapR (\<lambda>(i, child). trace_node_to_flat_rows child tx_hash block_number chain_id (addr @ [int i])
         (parent_failed \<or> dict_get node ''error'' \<noteq> PNone)) (enumerate 0 children)) (\<lambda>rows.
     Inr (row # concat rows))))"
  by pat_completeness auto
termination
  by (relation "measure (\<lambda>(node, h, b, c, a, f). size (PDict node))")
    (auto simp: in_set_enumerate_eq dest: node_calls_size [OF _ nth_mem])

declare trace_node_to_flat_rows.simps [simp del]

definition load_trace :: "Fixture \<Rightarrow> RawTrace res" where
  "load_trace fixture =
     rbind (rbind (dict_index (fx_tx fixture) ''hash'') py_lower) (\<lambda>tx_hash.
     rbind (index_int16 (fx_tx fixture) ''blockNumber'') (\<lambda>block_number.
     rbind (trace_node_to_flat_rows (fx_trace fixture) tx_hash block_number 1 [] False) (\<lambda>rows.
     build_call_tree rows (Some 1))))"

section \<open>The ABIs and the registry of the script\<close>

definition event_entry :: "string \<Rightarrow> pyval list \<Rightarrow> pydict" where
  \<comment> \<open>the ABI entry of an event that is not anonymous\<close>
  "event_entry name inputs = [(''type'', PStr ''event''), (''name'', PStr name), (''anonymous'', PBool False),
     (''inputs'', PList inputs)]"

definition erc20_transfer_abi :: Abi where
  "erc20_transfer_abi = \<lparr>abi_version = ''erc20_v1'', json_abi = [event_entry ''Transfer''
     [abi_arg ''from'' ''address'' True, abi_arg ''to'' ''address'' True, abi_arg ''value'' ''uint256'' False]]\<rparr>"

definition staking_pool_abi :: Abi where
  "staking_pool_abi = \<lparr>abi_version = ''staking_pool_v02'', json_abi = [event_entry ''Staked''
     [abi_arg ''staker'' ''address'' True, abi_arg ''amount'' ''uint256'' False,
      abi_arg ''newPrincipal'' ''uint256'' False, abi_arg ''totalPoolPrincipal'' ''uint256'' False]]\<rparr>"

definition fee_aggregator_abi :: Abi where
  "fee_aggregator_abi = \<lparr>abi_version = ''pa_fee_aggregator_v1'', json_abi = [event_entry ''AssetTransferredForSwap''
     [abi_arg ''assetReceiver'' ''address'' True, abi_arg ''asset'' ''address'' True,
      abi_arg ''amount'' ''uint256'' False]]\<rparr>"

definition stub_roles :: "(string \<times> string) list" where
  "stub_roles = [(COMMUNITY_POOL, ''community_staking_pool''), (PA_RESERVES_ADDRESS, ''pa_reserves''),
     (PA_FEE_AGGREGATOR_ADDRESS, ''pa_fee_aggregator''), (PA_SWAP_AUTOMATOR_ADDRESS, ''pa_swap_automator'')]"

definition stub_role :: "string \<Rightarrow> string option" where
  "stub_role address = map_of stub_roles (lower address)"

interpretation stub_role: role_table stub_role
  by unfold_locales (simp add: stub_role_def)

text \<open>An event decoded against an ABI of one entry carries the name of that entry.\<close>

lemma find_event_single:
  "find_event_abi keccak \<lparr>abi_version = v, json_abi = [e]\<rparr> topic0 = Inr (Some x) \<Longrightarrow> x = e"
  by (auto simp: find_event_abi_def Let_def split: if_splits sum.splits)

lemma select_event_single:
  "select_event keccak log \<lparr>abi_version = v, json_abi = [e]\<rparr> = Inr (Inr (x, n)) \<Longrightarrow> x = e"
  by (auto simp: select_event_def Let_def rbind_Inr split: list.splits option.splits if_splits
      dest: find_event_single)

lemma select_event_failure: "select_event keccak log abi = Inr (Inl r) \<Longrightarrow> dr_decoded r = None"
  by (auto simp: select_event_def decode_failure_def Let_def rbind_Inr split: list.splits option.splits)

lemma decode_data_failure: "decode_data dec i ins bs = Inr (Inl r) \<Longrightarrow> dr_decoded r = None"
  by (auto simp: decode_data_def decode_failure_def rbind_Inr split: if_splits sum.splits)

lemma decoded_event_name:
  assumes "decode_log keccak dec log \<lparr>abi_version = v, json_abi = [event_entry name inputs]\<rparr> = Inr r"
    "dr_decoded r = Some (DEvent ev)"
  shows "de_event_name ev = name"
proof -
  from assms(1) obtain sel where sel: "select_event keccak log \<lparr>abi_version = v, json_abi = [event_entry name inputs]\<rparr> = Inr sel"
    by (auto simp: decode_log_def Let_def elim: rbind_InrE)
  show ?thesis
  proof (cases sel)
    case (Inl f)
    with assms sel have "r = f" by (simp add: decode_log_def Let_def)
    with select_event_failure [OF sel [unfolded Inl]] assms(2) show ?thesis by simp
  next
    case (Inr en)
    obtain x n where x: "en = (x, n)" by (cases en)
    then have en: "en = (event_entry name inputs, n)" using select_event_single sel Inr by blast
    from assms sel Inr en show ?thesis unfolding decode_log_def Let_def
      by (auto elim!: rbind_InrE split: sum.splits if_splits simp: decode_failure_def decoded_event_of_def
          event_entry_def dict_get_or_def) (drule decode_data_failure, simp)
  qed
qed

section \<open>The loaded tree mirrors the trace file\<close>

text \<open>The node at a path of the trace file, and whether the nodes on the way to it, itself included,
  carry no error.\<close>

fun json_at :: "pydict \<Rightarrow> nat list \<Rightarrow> pydict option" where
  "json_at node [] = Some node"
| "json_at node (i # p) = (case node_calls node of
     Inr ds \<Rightarrow> if i < length ds then json_at (ds ! i) p else None | Inl e \<Rightarrow> None)"

fun no_error_to :: "pydict \<Rightarrow> nat list \<Rightarrow> bool" where
  "no_error_to node [] = (dict_get node ''error'' = PNone)"
| "no_error_to node (i # p) = (dict_get node ''error'' = PNone \<and> (case node_calls node of
     Inr ds \<Rightarrow> i < length ds \<and> no_error_to (ds ! i) p | Inl e \<Rightarrow> False))"

lemma node_row_frame:
  assumes "node_row node h b c addr pf = Inr row"
  shows "\<exists>f. row_to_raw_trace (Some c) row = Inr f \<and> tf_trace_address f = addr \<and> tf_tx_hash f = lower h
    \<and> frame_ok f = (\<not> pf \<and> dict_get node ''error'' = PNone)"
proof -
  have d: "dict_get row k = (case map_of row k of None \<Rightarrow> PNone | Some v \<Rightarrow> v)" for k by (rule dict_get_def)
  have tr: "py_or (PStr h) (PStr []) = PStr h" by (cases h) (simp_all add: py_or_def)
  have err: "opt_str v = None \<longleftrightarrow> v = PNone" "truthy v \<Longrightarrow> v \<noteq> PNone" for v by (auto simp: opt_str_def)
  from assms obtain ct fr to v g gu ch where
    row: "row = [(''transaction_hash'', PStr h), (''block_number'', PInt b),
        (''chain_id'', PInt c), (''trace_address'', PStr (serialize_trace_address addr)),
        (''call_type'', PStr ct), (''from_address'', PStr fr), (''to_address'', to),
        (''value'', PInt v), (''gas'', PInt g), (''gas_used'', PInt gu),
        (''input'', dict_get_or node ''input'' (PStr ''0x'')),
        (''output'', dict_get_or node ''output'' (PStr ''0x'')), (''error'', dict_get node ''error''),
        (''status'', PInt (if truthy (dict_get node ''error'') \<or> pf then 0 else 1)),
        (''subtraces'', PInt (int (length (ch :: pydict list))))]"
    by (auto simp: node_row_def Let_def rbind_Inr)
  have e: "row_error row = Inr (if dict_get node ''error'' = PNone
      then if pf then (Some ''reverted'', Some ''status=0'') else (None, None)
      else (opt_str (dict_get node ''error''), opt_str (dict_get node ''error'')))"
    unfolding row by (auto simp: row_error_def dict_get_def [of "_ # _"] Let_def)
  have "row_value row = Inr v" unfolding row by (simp add: row_value_def dict_get_def [of "_ # _"])
  with e show ?thesis
    by (auto simp: row_to_raw_trace_def row dict_get_def [of "_ # _"] dict_get_or_def [of "_ # _"]
        parse_serialize opt_dict_get_def tr frame_ok_def err opt_str_def Let_def)
qed

text \<open>What the rows of a node are made into: the tree whose node at every path stands for the node of
  the trace file at that path, numbered by the path, and succeeded when nothing on the way failed.\<close>

definition mirrors :: "bool \<Rightarrow> int list \<Rightarrow> pydict \<Rightarrow> RawTrace \<Rightarrow> bool" where
  "mirrors pf a node t = (\<forall>p. case node_at t p of
     None \<Rightarrow> json_at node p = None
   | Some s \<Rightarrow> json_at node p \<noteq> None \<and> tf_trace_address (frame s) = a @ map int p
       \<and> frame_ok (frame s) = (\<not> pf \<and> no_error_to node p))"

definition rows_read :: "string \<Rightarrow> int \<Rightarrow> pydict list \<Rightarrow> RawTrace \<Rightarrow> bool" where
  "rows_read h c rows t = (mapR (row_to_raw_trace (Some c)) rows = Inr (frames t)
     \<and> (\<forall>f \<in> set (frames t). tf_tx_hash f = h))"

lemma rows_read_node:
  assumes "row_to_raw_trace (Some c) row = Inr f" "tf_tx_hash f = h" "list_all2 (rows_read h c) rowss cs"
  shows "rows_read h c (row # concat rowss) (RawTrace f cs)"
proof -
  let ?P = "\<lambda>r f. row_to_raw_trace (Some c) r = Inr f"
  have "list_all2 (list_all2 ?P) rowss (map frames cs)"
    using assms(3) unfolding list_all2_map2 by (rule list_all2_mono) (simp add: rows_read_def mapR_Inr)
  then have "mapR (row_to_raw_trace (Some c)) (concat rowss) = Inr (concat (map frames cs))"
    unfolding mapR_Inr by (rule list_all2_concat)
  moreover have "\<forall>t \<in> set cs. \<forall>f \<in> set (frames t). tf_tx_hash f = h"
    using assms(3) by (fastforce simp: rows_read_def dest: list_all2_set2)
  ultimately show ?thesis using assms(1,2) by (auto simp: rows_read_def)
qed

lemma mirrors_node:
  assumes "tf_trace_address f = a" "frame_ok f = (\<not> pf \<and> dict_get node ''error'' = PNone)"
    and "node_calls node = Inr ds" "length cs = length ds"
    and "\<And>i. i < length ds \<Longrightarrow> mirrors (pf \<or> dict_get node ''error'' \<noteq> PNone) (a @ [int i]) (ds ! i) (cs ! i)"
  shows "mirrors pf a node (RawTrace f cs)"
  unfolding mirrors_def
proof
  fix p
  show "case node_at (RawTrace f cs) p of
     None \<Rightarrow> json_at node p = None
   | Some s \<Rightarrow> json_at node p \<noteq> None \<and> tf_trace_address (frame s) = a @ map int p
       \<and> frame_ok (frame s) = (\<not> pf \<and> no_error_to node p)"
  proof (cases p)
    case (Cons i q)
    show ?thesis
    proof (cases "i < length ds")
      case True
      from assms(5) [OF True] have "case node_at (cs ! i) q of None \<Rightarrow> json_at (ds ! i) q = None
        | Some s \<Rightarrow> json_at (ds ! i) q \<noteq> None \<and> tf_trace_address (frame s) = (a @ [int i]) @ map int q
            \<and> frame_ok (frame s) = (\<not> (pf \<or> dict_get node ''error'' \<noteq> PNone) \<and> no_error_to (ds ! i) q)"
        unfolding mirrors_def by blast
      with Cons True assms(3,4) show ?thesis by (auto split: option.splits)
    qed (use Cons assms(3,4) in simp)
  qed (use assms(1,2) in simp)
qed

lemma trace_rows_tree:
  "trace_node_to_flat_rows node h b c a pf = Inr rows \<Longrightarrow>
     \<exists>t. rows_read (lower h) c rows t \<and> assign_trace_addresses t a = t \<and> mirrors pf a node t"
proof (induction "size (PDict node)" arbitrary: node a pf rows rule: less_induct)
  case less
  let ?pf = "pf \<or> dict_get node ''error'' \<noteq> PNone"
  let ?step = "\<lambda>(i, child). trace_node_to_flat_rows child h b c (a @ [int i]) ?pf"
  from less.prems obtain row ds rowss where row: "node_row node h b c a pf = Inr row"
    and ds: "node_calls node = Inr ds" and rowss: "mapR ?step (enumerate 0 ds) = Inr rowss"
    and rows: "rows = row # concat rowss"
    by (auto simp: trace_node_to_flat_rows.simps [of node] rbind_Inr)
  from node_row_frame [OF row] obtain f where f: "row_to_raw_trace (Some c) row = Inr f"
    "tf_trace_address f = a" "tf_tx_hash f = lower h"
    "frame_ok f = (\<not> pf \<and> dict_get node ''error'' = PNone)" by blast
  have len: "length rowss = length ds" using mapR_length [OF rowss] by simp
  have child: "trace_node_to_flat_rows (ds ! i) h b c (a @ [int i]) ?pf = Inr (rowss ! i)" if "i < length ds" for i
    using list_all2_nthD [OF rowss [unfolded mapR_Inr], of i] that by (simp add: nth_enumerate_eq)
  let ?Q = "\<lambda>i t. rows_read (lower h) c (rowss ! i) t \<and> assign_trace_addresses t (a @ [int i]) = t
    \<and> mirrors ?pf (a @ [int i]) (ds ! i) t"
  have "\<exists>t. ?Q i t" if "i < length ds" for i
    by (rule less.hyps [OF node_calls_size [OF ds nth_mem [OF that]] child [OF that]])
  then obtain T where T: "?Q i (T i)" if "i < length ds" for i by metis
  let ?cs = "map T [0..<length ds]"
  have "list_all2 (rows_read (lower h) c) rowss ?cs"
    by (rule list_all2_all_nthI) (use len T in simp_all)
  then have "rows_read (lower h) c rows (RawTrace f ?cs)"
    unfolding rows by (rule rows_read_node [OF f(1,3)])
  moreover have "assign_children ?cs a 0 = ?cs"
    by (intro nth_equalityI) (simp_all add: assign_children_nth T)
  moreover have "mirrors pf a node (RawTrace f ?cs)"
    by (rule mirrors_node [OF f(2,4) ds]) (simp_all add: T)
  ultimately show ?case using f(2) by (intro exI [of _ "RawTrace f ?cs"]) simp
qed

section \<open>Properties\<close>

text \<open>C12: a trace file whose values can be read always loads, and the tree mirrors it: it has a call
  at exactly the paths at which the file has a node, each call is numbered by its path, and in
  whatever is decoded from it a call counts as successful exactly when neither its node nor any
  node above it carries an error.\<close>

theorem load_trace_mirrors:
  assumes "rbind (dict_index (fx_tx fx) ''hash'') py_lower = Inr h"
    and "index_int16 (fx_tx fx) ''blockNumber'' = Inr b"
    and "trace_node_to_flat_rows (fx_trace fx) h b 1 [] False = Inr rows"
  shows "\<exists>t. load_trace fx = Inr t \<and> assign_trace_addresses t [] = t
    \<and> (\<forall>p. (node_at t p = None) = (json_at (fx_trace fx) p = None))
    \<and> (\<forall>ds. decode_trace_calls keccak dec t reg = Inr ds \<longrightarrow>
        list_all2 (\<lambda>p d. dc_trace_address d = map int p \<and> dc_success d = no_error_to (fx_trace fx) p) (paths t) ds)"
proof -
  from trace_rows_tree [OF assms(3)] obtain t where t: "rows_read (lower h) 1 rows t"
    "assign_trace_addresses t [] = t" "mirrors False [] (fx_trace fx) t" by blast
  have root: "addressed t" "addr_of (frame t) = []"
    using assign_addressed [of t "[]"] assign_frame [of t "[]"] t(2) by simp_all
  from t(1) have "build_call_tree rows (Some 1) = Inr t"
    by (intro build_call_tree_roundtrip [OF root, where h = "lower h" and fs = "frames t"])
      (simp_all add: rows_read_def)
  then have "load_trace fx = Inr t" using assms by (simp add: load_trace_def)
  moreover have "(node_at t p = None) = (json_at (fx_trace fx) p = None)" for p
    using t(3) [unfolded mirrors_def, rule_format, of p] by (auto split: option.splits)
  moreover have "list_all2 (\<lambda>p d. dc_trace_address d = map int p \<and> dc_success d = no_error_to (fx_trace fx) p)
      (paths t) ds" if "decode_trace_calls keccak dec t reg = Inr ds" for ds
    using walk_calls_paths [OF that [unfolded decode_trace_calls_def]]
    by (rule list_all2_mono)
      (use t(3) [unfolded mirrors_def, rule_format] in
        \<open>fastforce simp: decoded_at_def dest!: decode_frame_fields split: option.splits\<close>)
  ultimately show ?thesis using t(2) by blast
qed

text \<open>A trace of three calls, the second child failed.\<close>

definition sample_fixture :: Fixture where
  "sample_fixture = \<lparr>fx_tx = [(''hash'', PStr ''0xAA''), (''blockNumber'', PStr ''0x10'')],
     fx_block = [], fx_receipt = [], fx_logs = [],
     fx_trace = [(''type'', PStr ''CALL''), (''from'', PStr ''0xF''), (''calls'', PList
        [PDict [(''to'', PStr ''0xC1'')], PDict [(''to'', PStr ''0xC2''), (''error'', PStr ''reverted'')]])]\<rparr>"

theorem load_trace_mirrors_witness:
  "\<exists>t. load_trace sample_fixture = Inr t \<and> assign_trace_addresses t [] = t
    \<and> (node_at t [1] \<noteq> None) \<and> (node_at t [2] = None)"
proof -
  have h: "rbind (dict_index (fx_tx sample_fixture) ''hash'') py_lower = Inr ''0xaa''" by code_simp
  have b: "index_int16 (fx_tx sample_fixture) ''blockNumber'' = Inr 16" by code_simp
  note unfold = trace_node_to_flat_rows.simps [of "fx_trace sample_fixture"]
    trace_node_to_flat_rows.simps [of "[(''to'', PStr ''0xC1'')]"]
    trace_node_to_flat_rows.simps [of "[(''to'', PStr ''0xC2''), (''error'', PStr ''reverted'')]"]
  have c: "node_calls (fx_trace sample_fixture) = Inr [[(''to'', PStr ''0xC1'')], [(''to'', PStr ''0xC2''), (''error'', PStr ''reverted'')]]"
    "node_calls [(''to'', PStr ''0xC1'')] = Inr []"
    "node_calls [(''to'', PStr ''0xC2''), (''error'', PStr ''reverted'')] = Inr []" by code_simp+
  have row: "\<exists>r. node_row node h b c a f = Inr r" if "node_calls node = Inr ds"
    "py_lower (py_or (dict_get node ''type'') (PStr ''CALL'')) = Inr x" "py_lower (py_or (dict_get node ''from'') (PStr '''')) = Inr y"
    "dict_get node ''to'' = PNone \<or> py_lower (dict_get node ''to'') = Inr z"
    "hex_field node ''value'' = Inr 0" "hex_field node ''gas'' = Inr 0" "hex_field node ''gasUsed'' = Inr 0"
    for node h b c a f ds x y z
    using that by (cases "truthy (dict_get node ''to'')") (auto simp only: node_row_def Let_def rbind_simps if_True if_False truthy.simps)
  have "\<exists>r. node_row (fx_trace sample_fixture) h b c a f = Inr r" for h b c a f
    by (rule row [OF c(1)]) (code_simp)+
  moreover have "\<exists>r. node_row [(''to'', PStr ''0xC1'')] h b c a f = Inr r" for h b c a f
    by (rule row [OF c(2)]) (code_simp)+
  moreover have "\<exists>r. node_row [(''to'', PStr ''0xC2''), (''error'', PStr ''reverted'')] h b c a f = Inr r" for h b c a f
    by (rule row [OF c(3)]) (code_simp)+
  ultimately have "\<exists>rows. trace_node_to_flat_rows (fx_trace sample_fixture) ''0xaa'' 16 1 [] False = Inr rows"
    by (fastforce simp: unfold c rbind_Inr)
  then obtain rows where r: "trace_node_to_flat_rows (fx_trace sample_fixture) ''0xaa'' 16 1 [] False = Inr rows" by blast
  have j: "json_at (fx_trace sample_fixture) [1] \<noteq> None" "json_at (fx_trace sample_fixture) [2] = None"
    by (simp_all add: c(1))
  from load_trace_mirrors [OF h b r, where keccak = "\<lambda>_. []" and dec = transfer_decode and reg = "[]"]
  obtain t where "load_trace sample_fixture = Inr t" "assign_trace_addresses t [] = t"
    "\<forall>p. (node_at t p = None) = (json_at (fx_trace sample_fixture) p = None)" by (elim exE conjE)
  with j show ?thesis by (intro exI [of _ t]) (simp del: node_at.simps json_at.simps)
qed

end
