(* ===== verification/Seed_Rows.thy ===== *)
theory Seed_Rows
  imports Seed_Fixtures Reconciler
begin

text \<open>
  \<open>scripts/seed_to_local.py\<close>, second part: the rows of the seed tables, their text in a CSV file, and
  the edges and actions of Payment Abstraction the script makes itself. A row is a mapping of
  column names; a CSV file is the list of its lines, each the list of its fields before quoting.
\<close>

section \<open>CSV values\<close>

text \<open>\<open>json.dumps(v, default=str, separators=(",", ":"))\<close>, which escapes all but printable ASCII.\<close>

definition json_char :: "char \<Rightarrow> string" where
  "json_char c = (let n = of_char c :: nat in
     if c = CHR 0x22 \<or> c = CHR 0x5C then [CHR 0x5C, c]
     else if n = 10 then [CHR 0x5C, CHR ''n''] else if n = 13 then [CHR 0x5C, CHR ''r'']
     else if n = 9 then [CHR 0x5C, CHR ''t''] else if n = 8 then [CHR 0x5C, CHR ''b'']
     else if n = 12 then [CHR 0x5C, CHR ''f'']
     else if n < 32 \<or> 126 < n then [CHR 0x5C] @ ''u00'' @ byte_hex (of_nat n) else [c])"

definition json_str :: "string \<Rightarrow> string" where
  "json_str s = [CHR 0x22] @ concat (map json_char s) @ [CHR 0x22]"

fun json_dumps :: "pyval \<Rightarrow> string" where
  "json_dumps PNone = ''null''"
| "json_dumps (PBool b) = (if b then ''true'' else ''false'')"
| "json_dumps (PInt i) = show_int i"
| "json_dumps (PStr s) = json_str s"
| "json_dumps (PBytes bs) = json_str (py_repr (PBytes bs))"
| "json_dumps (PList xs) = ''['' @ join '','' (map json_dumps xs) @ '']''"
| "json_dumps (PTuple xs) = ''['' @ join '','' (map json_dumps xs) @ '']''"
| "json_dumps (PDict d) = ''{'' @ join '','' (map (\<lambda>(k, v). json_str k @ '':'' @ json_dumps v) d) @ ''}''"

definition to_csv_value :: "pyval \<Rightarrow> string" where
  "to_csv_value v = (case v of
     PNone \<Rightarrow> ''''
   | PBool b \<Rightarrow> if b then ''true'' else ''false''
   | PDict d \<Rightarrow> json_dumps v
   | PList xs \<Rightarrow> json_dumps v
   | PTuple xs \<Rightarrow> json_dumps v
   | PBytes bs \<Rightarrow> ''0x'' @ to_hex bs
   | _ \<Rightarrow> py_str v)"

definition write_csv :: "pydict list \<Rightarrow> string list \<Rightarrow> string list list" where
  "write_csv rows columns = columns # map (\<lambda>r. map (\<lambda>c. to_csv_value (dict_get r c)) columns) rows"

section \<open>Columns\<close>

definition DECODED_EVENTS_COLS :: "string list" where
  "DECODED_EVENTS_COLS = [''raw_log_id'', ''decoded_event_id'', ''chain_id'', ''block_number'', ''block_hash'',
     ''tx_hash'', ''log_index'', ''contract_address'', ''event_name'', ''event_signature'',
     ''indexed_params'', ''data_params'', ''run_partition_id'']"

definition DECODED_TRACE_CALLS_COLS :: "string list" where
  "DECODED_TRACE_CALLS_COLS = [''raw_trace_call_id'', ''chain_id'', ''block_number'', ''tx_hash'',
     ''trace_address'', ''contract_address'', ''method_name'', ''method_selector'', ''params'', ''success'',
     ''parent_success'', ''run_partition_id'']"

definition LINK_TRANSFERS_COLS :: "string list" where
  "LINK_TRANSFERS_COLS = [''chain_id'', ''block_number'', ''block_hash'', ''tx_hash'', ''tx_index'',
     ''log_index'', ''address'', ''topics'', ''data'', ''ingested_at'', ''run_partition_id'']"

definition CANONICAL_BLOCKS_COLS :: "string list" where
  "CANONICAL_BLOCKS_COLS = [''chain_id'', ''block_number'', ''block_hash'', ''parent_hash'', ''timestamp'',
     ''ingested_at'', ''run_partition_id'']"

definition ECONOMIC_ACTIONS_COLS :: "string list" where
  "ECONOMIC_ACTIONS_COLS = [''action_id'', ''kind'', ''chain_id'', ''block_number'', ''tx_hash'', ''log_index'',
     ''contract_address'', ''pool_role'', ''wallet'', ''amount_link'', ''source_event_signature'',
     ''raw_log_id'', ''decoded_event_id'', ''run_partition_id'']"

definition TOKEN_MOVEMENTS_COLS :: "string list" where
  "TOKEN_MOVEMENTS_COLS = [''movement_id'', ''chain_id'', ''block_number'', ''tx_hash'', ''token_address'',
     ''from_addr'', ''to_addr'', ''amount'', ''evidence_ids'', ''source_priority'', ''is_canonical'',
     ''run_partition_id'']"

definition ACTION_MOVEMENT_EDGES_COLS :: "string list" where
  "ACTION_MOVEMENT_EDGES_COLS = [''edge_id'', ''action_id'', ''movement_id'', ''allocated_amount'', ''status'',
     ''method'', ''reason'', ''chain_id'', ''block_number'', ''tx_hash'', ''run_partition_id'']"

definition LEDGER_ENTRIES_COLS :: "string list" where
  "LEDGER_ENTRIES_COLS = [''entry_id'', ''action_id'', ''entry_index'', ''account'', ''direction'',
     ''amount_link'', ''chain_id'', ''block_number'', ''tx_hash'', ''run_partition_id'']"

section \<open>Rows\<close>

definition decoded_event_row :: "DecodedEvent \<Rightarrow> string \<Rightarrow> pydict" where
  "decoded_event_row de run_partition_id =
     [(''raw_log_id'', PStr (de_raw_log_id de)), (''decoded_event_id'', PStr (de_decoded_event_id de)),
      (''chain_id'', PInt (de_chain_id de)), (''block_number'', PInt (de_block_number de)),
      (''block_hash'', PStr ''''), (''tx_hash'', PStr (lower (de_tx_hash de))),
      (''log_index'', PInt (de_log_index de)), (''contract_address'', PStr (lower (de_contract_address de))),
      (''event_name'', PStr (de_event_name de)), (''event_signature'', PStr (de_event_signature de)),
      (''indexed_params'', PDict (de_indexed_params de)), (''data_params'', PDict (de_data_params de)),
      (''run_partition_id'', PStr run_partition_id)]"

definition decoded_call_row :: "DecodedCall \<Rightarrow> string \<Rightarrow> pydict" where
  "decoded_call_row dc run_partition_id =
     [(''raw_trace_call_id'', PStr (dc_raw_trace_call_id dc)), (''chain_id'', PInt (dc_chain_id dc)),
      (''block_number'', PInt (dc_block_number dc)), (''tx_hash'', PStr (lower (dc_tx_hash dc))),
      (''trace_address'', PList (map PInt (dc_trace_address dc))),
      (''contract_address'', PStr (lower (text_or (dc_contract_address dc) ''''))),
      (''method_name'', PStr (dc_method_name dc)), (''method_selector'', PStr (dc_method_selector dc)),
      (''params'', PDict (dc_params dc)), (''success'', PBool (dc_success dc)),
      (''parent_success'', PBool (dc_parent_success dc)), (''run_partition_id'', PStr run_partition_id)]"

definition movement_row :: "TokenMovement \<Rightarrow> string \<Rightarrow> pydict" where
  "movement_row m run_partition_id =
     [(''movement_id'', PStr (tm_movement_id m)), (''chain_id'', PInt (tm_chain_id m)),
      (''block_number'', PInt (tm_block_number m)), (''tx_hash'', PStr (lower (tm_tx_hash m))),
      (''token_address'', PStr (lower (tm_token_address m))), (''from_addr'', PStr (lower (tm_from_addr m))),
      (''to_addr'', PStr (lower (tm_to_addr m))), (''amount'', PInt (tm_amount m)),
      (''evidence_ids'', PList (map PStr (tm_evidence_ids m))),
      (''source_priority'', PStr (tm_source_priority m)), (''is_canonical'', PBool (tm_is_canonical m)),
      (''run_partition_id'', PStr run_partition_id)]"

definition staking_action_row :: "EconomicAction \<Rightarrow> string \<Rightarrow> pydict" where
  "staking_action_row a run_partition_id =
     [(''action_id'', PStr (ea_action_id a)), (''kind'', PStr (kind_value (ea_kind a))),
      (''chain_id'', PInt (ea_chain_id a)), (''block_number'', PInt (ea_block_number a)),
      (''tx_hash'', PStr (lower (ea_tx_hash a))), (''log_index'', PInt (ea_log_index a)),
      (''contract_address'', PStr (lower (ea_contract_address a))), (''pool_role'', PStr (ea_pool_role a)),
      (''wallet'', PStr (lower (text_or (ea_wallet a) ''''))), (''amount_link'', PInt (ea_amount_link a)),
      (''source_event_signature'', PStr (ea_source_event_signature a)),
      (''raw_log_id'', PStr (ea_raw_log_id a)), (''decoded_event_id'', PStr (ea_decoded_event_id a)),
      (''run_partition_id'', PStr run_partition_id)]"

definition seed_edge_row :: "ActionMovementMatch \<Rightarrow> EconomicAction \<Rightarrow> string \<Rightarrow> pydict" where
  "seed_edge_row e action run_partition_id =
     [(''edge_id'', PStr (am_edge_id e)), (''action_id'', PStr (text_or (am_action_id e) '''')),
      (''movement_id'', PStr (text_or (am_movement_id e) '''')),
      (''allocated_amount'', PInt (am_allocated_amount e)), (''status'', PStr (status_value (am_status e))),
      (''method'', PStr (case am_method e of None \<Rightarrow> '''' | Some m \<Rightarrow> method_value m)),
      (''reason'', PStr (am_reason e)), (''chain_id'', PInt (ea_chain_id action)),
      (''block_number'', PInt (ea_block_number action)), (''tx_hash'', PStr (lower (ea_tx_hash action))),
      (''run_partition_id'', PStr run_partition_id)]"

definition seed_ledger_row :: "LedgerEntry \<Rightarrow> string \<Rightarrow> pydict" where
  "seed_ledger_row le run_partition_id =
     [(''entry_id'', PStr (le_entry_id le)), (''action_id'', PStr (le_action_id le)),
      (''entry_index'', PInt (le_entry_index le)), (''account'', PStr (le_account le)),
      (''direction'', PStr (case le_direction le of DEBIT \<Rightarrow> ''debit'' | CREDIT \<Rightarrow> ''credit'')),
      (''amount_link'', PInt (le_amount_link le)), (''chain_id'', PInt (le_chain_id le)),
      (''block_number'', PInt (le_block_number le)), (''tx_hash'', PStr (lower (le_tx_hash le))),
      (''run_partition_id'', PStr run_partition_id)]"

definition pa_ledger_row :: "PALedgerEntry \<Rightarrow> string \<Rightarrow> pydict" where
  "pa_ledger_row le run_partition_id =
     [(''entry_id'', PStr (pe_entry_id le)), (''action_id'', PStr (pe_action_id le)),
      (''entry_index'', PInt (pe_entry_index le)), (''account'', PStr (pe_account le)),
      (''direction'', PStr (case pe_direction le of PA_DEBIT \<Rightarrow> ''debit'' | PA_CREDIT \<Rightarrow> ''credit'')),
      (''amount_link'', PInt (pe_amount_link le)), (''chain_id'', PInt (pe_chain_id le)),
      (''block_number'', PInt (pe_block_number le)), (''tx_hash'', PStr (lower (pe_tx_hash le))),
      (''run_partition_id'', PStr run_partition_id)]"

definition canonical_block_row :: "pydict \<Rightarrow> pydict \<Rightarrow> string \<Rightarrow> pydict res" where
  "canonical_block_row tx block run_partition_id =
     rbind (index_int16 tx ''blockNumber'') (\<lambda>block_number.
     rbind (dict_index tx ''blockHash'') (\<lambda>tx_block_hash.
     rbind (py_lower (dict_get_or block ''hash'' tx_block_hash)) (\<lambda>block_hash.
     rbind (rbind (dict_index block ''parentHash'') py_lower) (\<lambda>parent_hash.
     rbind (index_int16 block ''timestamp'') (\<lambda>timestamp.
     Inr [(''chain_id'', PInt 1), (''block_number'', PInt block_number), (''block_hash'', PStr block_hash),
       (''parent_hash'', PStr parent_hash), (''timestamp'', PInt timestamp), (''ingested_at'', PInt timestamp),
       (''run_partition_id'', PStr run_partition_id)])))))"

definition raw_log_row :: "RawLog \<Rightarrow> string \<Rightarrow> pydict" where
  "raw_log_row raw_log run_partition_id =
     [(''chain_id'', PInt (lg_chain_id raw_log)), (''block_number'', PInt (lg_block_number raw_log)),
      (''block_hash'', PStr (lower (lg_block_hash raw_log))), (''tx_hash'', PStr (lower (lg_tx_hash raw_log))),
      (''tx_index'', PInt (lg_tx_index raw_log)), (''log_index'', PInt (lg_log_index raw_log)),
      (''address'', PStr (lower (lg_address raw_log))), (''topics'', PList (map PStr (lg_topics raw_log))),
      (''data'', PStr (lg_data raw_log)), (''ingested_at'', PInt 0), (''run_partition_id'', PStr run_partition_id)]"

section \<open>Payment Abstraction in the script\<close>

definition seed_hash :: "string \<Rightarrow> string" where
  "seed_hash s = sha256_hex s"

text \<open>The four edges of \<open>_pa_edge_rows\<close> share all but five columns.\<close>

definition pa_edge_row :: "PAEconomicAction \<Rightarrow> string \<Rightarrow> string \<Rightarrow> string \<Rightarrow> int \<Rightarrow> Status \<Rightarrow> string \<Rightarrow> string \<Rightarrow> pydict" where
  "pa_edge_row action run_partition_id edge_id movement_id allocated status method reason =
     [(''edge_id'', PStr edge_id), (''action_id'', PStr (pa_action_id action)), (''movement_id'', PStr movement_id),
      (''allocated_amount'', PInt allocated), (''status'', PStr (status_value status)),
      (''method'', PStr method), (''reason'', PStr reason), (''chain_id'', PInt (pa_chain_id action)),
      (''block_number'', PInt (pa_block_number action)), (''tx_hash'', PStr (lower (pa_tx_hash action))),
      (''run_partition_id'', PStr run_partition_id)]"

definition pa_edge_rows :: "PAEconomicAction \<Rightarrow> TokenMovement list \<Rightarrow> string \<Rightarrow> pydict list" where
  "pa_edge_rows action movements run_partition_id =
     (let target = (if pa_output_amount action \<noteq> 0 then pa_output_amount action else pa_source_amount action);
          aid = pa_action_id action in
      if pa_kind action = CONFIG_CHANGED \<or> target = 0
      then [pa_edge_row action run_partition_id (seed_hash (''pa_edge|'' @ aid @ ''|not_expected'')) '''' 0
             NOT_EXPECTED '''' (pa_kind_value (pa_kind action) @ '' has no expected movement'')]
      else case filter (\<lambda>m. lower (tm_tx_hash m) = lower (pa_tx_hash action) \<and> tm_amount m = target) movements of
        [] \<Rightarrow> [pa_edge_row action run_partition_id (seed_hash (''pa_edge|'' @ aid @ ''|unmatched'')) '''' 0
             UNMATCHED '''' ''no PA movement with matching amount'']
      | m # _ \<Rightarrow> [pa_edge_row action run_partition_id
             (seed_hash (''pa_edge|'' @ aid @ ''|'' @ tm_movement_id m @ ''|exact'')) (tm_movement_id m) (tm_amount m)
             EXACT (if tm_source_priority m = ''log'' then ''event_log'' else ''trace'')
             ''PA action amount matches token movement''])"

text \<open>One transfer: the action it stands for when its receiver is a contract of Payment Abstraction.\<close>

definition pa_receiver :: "string \<Rightarrow> (PAActionKind \<times> string) option" where
  "pa_receiver to_addr =
     (if to_addr = PA_RESERVES_ADDRESS then Some (RESERVES_DEPOSIT, ''pa_reserves'')
      else if to_addr = PA_FEE_AGGREGATOR_ADDRESS then Some (FEE_RECEIVED, ''pa_fee_aggregator'')
      else if to_addr = PA_SWAP_AUTOMATOR_ADDRESS then Some (SERVICE_FEE_FORWARDED, ''pa_swap_automator'')
      else None)"

definition synthesize_pa_action :: "DecodedEvent \<Rightarrow> PAEconomicAction option res" where
  "synthesize_pa_action ev =
     (let to_addr = lower (py_str (dict_get_or (de_indexed_params ev) ''to'' (PStr '''')));
          from_addr = lower (py_str (dict_get_or (de_indexed_params ev) ''from'' (PStr ''''))) in
      rbind (py_int (dict_get_or (de_data_params ev) ''value'' (PInt 0))) (\<lambda>amount.
        if amount \<le> 0 then Inr None
        else case pa_receiver to_addr of
          None \<Rightarrow> Inr None
        | Some (kind, contract_role) \<Rightarrow> Inr (Some
            \<lparr>pa_action_id = seed_hash (''pa_action|'' @ de_decoded_event_id ev @ ''|'' @ pa_kind_value kind),
             pa_kind = kind, pa_chain_id = de_chain_id ev, pa_block_number = de_block_number ev,
             pa_tx_hash = lower (de_tx_hash ev), pa_log_index = de_log_index ev, pa_contract_address = to_addr,
             pa_contract_role = contract_role, pa_source_token = Some LINK, pa_output_token = Some LINK,
             pa_source_amount = amount, pa_output_amount = amount, pa_counterparty = Some from_addr,
             pa_source_event_signature = de_event_signature ev, pa_raw_log_id = de_raw_log_id ev,
             pa_decoded_event_id = de_decoded_event_id ev\<rparr>)))"

definition synthesize_pa_actions :: "DecodedEvent list \<Rightarrow> PAEconomicAction list res" where
  "synthesize_pa_actions link_transfer_events =
     rbind (mapR synthesize_pa_action link_transfer_events) (\<lambda>acts. Inr (List.map_filter id acts))"

section \<open>What a synthesized action is\<close>

lemma synthesized_action:
  assumes "synthesize_pa_actions evs = Inr acts" "a \<in> set acts"
  shows "0 < pa_output_amount a \<and> pa_source_amount a = pa_output_amount a
    \<and> (pa_kind a, pa_contract_role a) \<in> {(RESERVES_DEPOSIT, ''pa_reserves''), (FEE_RECEIVED, ''pa_fee_aggregator''),
         (SERVICE_FEE_FORWARDED, ''pa_swap_automator'')}
    \<and> (\<exists>x. pa_action_id a = sha256_hex x) \<and> pa_tx_hash a = lower (pa_tx_hash a)"
proof -
  from assms obtain os where "list_all2 (\<lambda>ev o'. synthesize_pa_action ev = Inr o') evs os" "acts = List.map_filter id os"
    by (auto simp: synthesize_pa_actions_def rbind_Inr mapR_Inr)
  with assms(2) obtain ev where "synthesize_pa_action ev = Inr (Some a)"
    by (auto simp: List.map_filter_def dest!: list_all2_set2)
  then show ?thesis
    by (auto simp: synthesize_pa_action_def pa_receiver_def seed_hash_def Let_def rbind_Inr split: if_splits)
qed

end
