(* ===== verification/Seed_Pipeline.thy ===== *)
theory Seed_Pipeline
  imports Seed_Rows
begin

text \<open>
  \<open>scripts/seed_to_local.py\<close>, third part: the run over a cached staking transaction and a cached
  Payment Abstraction transaction, the merge of their rows, and the two checks of \<open>main\<close>. The run
  composes the decoders, the movement builder, the protocol layers and the reconciler. What it
  writes is the table of every seed file; printing is not modelled.
\<close>

record SeedTables =
  st_decoded_events :: "pydict list"
  st_decoded_trace_calls :: "pydict list"
  st_link_transfers :: "pydict list"
  st_canonical_blocks :: "pydict list"
  st_economic_actions :: "pydict list"
  st_token_movements :: "pydict list"
  st_action_movement_edges :: "pydict list"
  st_ledger_entries :: "pydict list"

section \<open>The steps the two runs share\<close>

definition recovered_event :: "DecodeResult \<Rightarrow> DecodedEvent option" where
  "recovered_event r = (if dr_success r then (case dr_decoded r of Some (DEvent ev) \<Rightarrow> Some ev | _ \<Rightarrow> None) else None)"

text \<open>One log of the loop: the event recovered from it, tagged whether the LINK token emitted it.\<close>

definition decode_seed_log :: "(string \<Rightarrow> byte list) \<Rightarrow> (string list \<Rightarrow> byte list \<Rightarrow> pyval list res)
    \<Rightarrow> string \<Rightarrow> string \<Rightarrow> Abi \<Rightarrow> RawLog \<Rightarrow> (bool \<times> DecodedEvent) option res" where
  "decode_seed_log keccak abi_decode contract topic0 abi raw_log =
     (if lower (lg_address raw_log) = LINK
      then rbind (decode_log keccak abi_decode raw_log erc20_transfer_abi) (\<lambda>r.
        Inr (map_option (Pair True) (recovered_event r)))
      else if lower (lg_address raw_log) = contract \<and> lg_topics raw_log \<noteq> []
          \<and> lower (hd (lg_topics raw_log)) = topic0
      then rbind (decode_log keccak abi_decode raw_log abi) (\<lambda>r.
        Inr (map_option (Pair False) (recovered_event r)))
      else Inr None)"

definition decode_seed_logs :: "(string \<Rightarrow> byte list) \<Rightarrow> (string list \<Rightarrow> byte list \<Rightarrow> pyval list res)
    \<Rightarrow> string \<Rightarrow> string \<Rightarrow> Abi \<Rightarrow> RawLog list \<Rightarrow> (bool \<times> DecodedEvent) list res" where
  "decode_seed_logs keccak abi_decode contract topic0 abi logs =
     rbind (mapR (decode_seed_log keccak abi_decode contract topic0 abi) logs) (\<lambda>evs.
       Inr (List.map_filter id evs))"

definition link_events :: "(bool \<times> DecodedEvent) list \<Rightarrow> DecodedEvent list" where
  "link_events evs = map snd (filter fst evs)"

definition contract_events :: "(bool \<times> DecodedEvent) list \<Rightarrow> DecodedEvent list" where
  "contract_events evs = map snd (filter (\<lambda>e. \<not> fst e) evs)"

text \<open>Trace decoding, the extraction of token calls, and the unified movements.\<close>

definition seed_movements :: "(string \<Rightarrow> byte list) \<Rightarrow> (string list \<Rightarrow> byte list \<Rightarrow> pyval list res)
    \<Rightarrow> RawTrace \<Rightarrow> Receipt \<Rightarrow> DecodedEvent list \<Rightarrow> (DecodedCall list \<times> TokenMovement list) res" where
  "seed_movements keccak abi_decode root_trace receipt link_transfer_events =
     rbind (decode_trace_calls keccak abi_decode root_trace []) (\<lambda>decoded_calls.
     rbind (extract_erc20_transfer_calls decoded_calls LINK [(lower (rc_tx_hash receipt), receipt)]) (\<lambda>trace_token_calls.
     rbind (build_movements_from_transfer_logs link_transfer_events) (\<lambda>log_movements.
     rbind (build_movements_from_trace_calls trace_token_calls) (\<lambda>trace_movements.
     Inr (decoded_calls, unify_movements log_movements trace_movements)))))"

definition seed_log_rows :: "RawLog list \<Rightarrow> DecodedEvent list \<Rightarrow> string \<Rightarrow> pydict list" where
  "seed_log_rows logs decoded run_partition_id =
     (let decoded_log_indices = set (map (\<lambda>de. (lower (de_tx_hash de), de_log_index de)) decoded) in
      map (\<lambda>raw_log. raw_log_row raw_log run_partition_id)
        (filter (\<lambda>raw_log. lower (lg_address raw_log) = LINK \<and> lg_topics raw_log \<noteq> []
             \<and> lower (hd (lg_topics raw_log)) = ERC20_TRANSFER_TOPIC0
           \<or> (lower (lg_tx_hash raw_log), lg_log_index raw_log) \<in> decoded_log_indices) logs))"

section \<open>The staking transaction\<close>

definition process_stake_fixture :: "(string \<Rightarrow> byte list) \<Rightarrow> (string list \<Rightarrow> byte list \<Rightarrow> pyval list res)
    \<Rightarrow> Fixture \<Rightarrow> string \<Rightarrow> SeedTables res" where
  "process_stake_fixture keccak abi_decode fixture run =
     rbind (load_receipt fixture) (\<lambda>receipt.
     rbind (load_logs fixture) (\<lambda>logs.
     rbind (load_trace fixture) (\<lambda>root_trace.
     rbind (decode_seed_logs keccak abi_decode COMMUNITY_POOL STAKED_TOPIC0 staking_pool_abi logs) (\<lambda>evs.
     if contract_events evs = []
     then Inl (Raise RuntimeError ''golden_stake_tx: no Staked event recovered from real logs'')
     else
     rbind (seed_movements keccak abi_decode root_trace receipt (link_events evs)) (\<lambda>(decoded_calls, movements).
     rbind (classify_event_as_action (last (contract_events evs)) stub_role) (\<lambda>staking_actions.
     rbind (canonical_block_row (fx_tx fixture) (fx_block fixture) run) (\<lambda>block_row.
     Inr \<lparr>st_decoded_events = map (\<lambda>(_, de). decoded_event_row de run) evs,
       st_decoded_trace_calls = map (\<lambda>dc. decoded_call_row dc run) decoded_calls,
       st_link_transfers = seed_log_rows logs (map snd evs) run,
       st_canonical_blocks = [block_row],
       st_economic_actions = map (\<lambda>a. staking_action_row a run) staking_actions,
       st_token_movements = map (\<lambda>m. movement_row m run) movements,
       st_action_movement_edges =
         concat (map (\<lambda>a. map (\<lambda>e. seed_edge_row e a run) (match_action_to_movements a movements)) staking_actions),
       st_ledger_entries =
         concat (map (\<lambda>a. map (\<lambda>le. seed_ledger_row le run) (build_ledger_entries a movements)) staking_actions)\<rparr>)))))))"

section \<open>The Payment Abstraction transaction\<close>

definition process_pa_fixture :: "(string \<Rightarrow> byte list) \<Rightarrow> (string list \<Rightarrow> byte list \<Rightarrow> pyval list res)
    \<Rightarrow> Fixture \<Rightarrow> string \<Rightarrow> SeedTables res" where
  "process_pa_fixture keccak abi_decode fixture run =
     rbind (load_receipt fixture) (\<lambda>receipt.
     rbind (load_logs fixture) (\<lambda>logs.
     rbind (load_trace fixture) (\<lambda>root_trace.
     rbind (decode_seed_logs keccak abi_decode PA_FEE_AGGREGATOR_ADDRESS ASSET_TRANSFERRED_FOR_SWAP_TOPIC0
         fee_aggregator_abi logs) (\<lambda>evs.
     rbind (seed_movements keccak abi_decode root_trace receipt (link_events evs)) (\<lambda>(decoded_calls, movements).
     rbind (mapR (\<lambda>ev. classify_pa_event_as_action ev stub_role) (contract_events evs)) (\<lambda>classified.
     rbind (synthesize_pa_actions (link_events evs)) (\<lambda>synthesized.
     rbind (canonical_block_row (fx_tx fixture) (fx_block fixture) run) (\<lambda>block_row.
     let pa_actions = concat classified @ synthesized in
     Inr \<lparr>st_decoded_events = map (\<lambda>(_, de). decoded_event_row de run) evs,
       st_decoded_trace_calls = map (\<lambda>dc. decoded_call_row dc run) decoded_calls,
       st_link_transfers = seed_log_rows logs (map snd evs) run,
       st_canonical_blocks = [block_row],
       st_economic_actions = [],
       st_token_movements = map (\<lambda>m. movement_row m run) movements,
       st_action_movement_edges = concat (map (\<lambda>a. pa_edge_rows a movements run) pa_actions),
       st_ledger_entries =
         concat (map (\<lambda>a. map (\<lambda>le. pa_ledger_row le run) (build_pa_ledger_entries a)) pa_actions)\<rparr>))))))))"

section \<open>The merged tables and their checks\<close>

text \<open>The rows of the two runs, the first of each key; a row without the key is dropped. The log rows
  are keyed by transaction and index, and there the last row wins.\<close>

definition merge_key :: "string \<Rightarrow> pydict \<Rightarrow> string" where
  "merge_key key row = py_str (dict_get_or row key (PStr ''''))"

definition merge_step :: "string \<Rightarrow> pydict \<Rightarrow> (string \<times> pydict) list \<Rightarrow> (string \<times> pydict) list" where
  "merge_step key row seen = (let k = merge_key key row in
     if k \<noteq> '''' \<and> map_of seen k = None then seen @ [(k, row)] else seen)"

definition merge_rows :: "string \<Rightarrow> pydict list \<Rightarrow> pydict list" where
  "merge_rows key rows = map snd (fold (merge_step key) rows [])"

definition merge_log_rows :: "pydict list \<Rightarrow> pydict list" where
  "merge_log_rows rows =
     map snd (fold (\<lambda>row. AList.update (dict_get row ''tx_hash'', dict_get row ''log_index'') row) rows [])"

text \<open>A row of the ledger belongs to Payment Abstraction when its account has one of four prefixes.\<close>

definition pa_account :: "string \<Rightarrow> bool" where
  "pa_account account = list_ex (starts_with account) [''pa_'', ''upstream:'', ''forwarded_to:'', ''service_contract:'']"

definition known_action_ids :: "pydict list \<Rightarrow> pydict list \<Rightarrow> string set" where
  "known_action_ids actions ledger =
     set (map (merge_key ''action_id'') actions)
     \<union> set (map (merge_key ''action_id'') (filter (\<lambda>r. pa_account (merge_key ''account'' r)) ledger))"

fun check_edge_actions :: "string set \<Rightarrow> pydict list \<Rightarrow> unit res" where
  "check_edge_actions known [] = Inr ()"
| "check_edge_actions known (e # es) = (let aid = merge_key ''action_id'' e in
     if aid \<noteq> '''' \<and> aid \<notin> known
     then Inl (Raise RuntimeError (''edge '' @ merge_key ''edge_id'' e @ '' references unknown action_id '' @ aid))
     else check_edge_actions known es)"

definition tx_totals_step :: "pydict \<Rightarrow> (string \<times> int \<times> int) list \<Rightarrow> (string \<times> int \<times> int) list res" where
  "tx_totals_step r by_tx =
     rbind (index_str r ''tx_hash'') (\<lambda>tx.
     rbind (index_str r ''direction'') (\<lambda>direction.
     rbind (rbind (dict_index r ''amount_link'') py_int) (\<lambda>amount.
       let (debit, credit) = dict_get_or by_tx tx (0, 0) in
       if direction = ''debit'' then Inr (AList.update tx (debit + amount, credit) by_tx)
       else if direction = ''credit'' then Inr (AList.update tx (debit, credit + amount) by_tx)
       else Inl (Raise KeyError direction))))"

fun check_tx_totals :: "(string \<times> int \<times> int) list \<Rightarrow> unit res" where
  "check_tx_totals [] = Inr ()"
| "check_tx_totals ((tx, debit, credit) # rest) =
     (if debit \<noteq> credit
      then Inl (Raise RuntimeError (''ledger imbalance for '' @ tx @ '': debit='' @ show_int debit
        @ '' credit='' @ show_int credit))
      else check_tx_totals rest)"

definition seed_tables :: "SeedTables \<Rightarrow> SeedTables \<Rightarrow> SeedTables" where
  "seed_tables stake pa =
     \<lparr>st_decoded_events = merge_rows ''decoded_event_id'' (st_decoded_events stake @ st_decoded_events pa),
      st_decoded_trace_calls = merge_rows ''raw_trace_call_id'' (st_decoded_trace_calls stake @ st_decoded_trace_calls pa),
      st_link_transfers = merge_log_rows (st_link_transfers stake @ st_link_transfers pa),
      st_canonical_blocks = merge_rows ''block_number'' (st_canonical_blocks stake @ st_canonical_blocks pa),
      st_economic_actions = merge_rows ''action_id'' (st_economic_actions stake @ st_economic_actions pa),
      st_token_movements = merge_rows ''movement_id'' (st_token_movements stake @ st_token_movements pa),
      st_action_movement_edges = merge_rows ''edge_id'' (st_action_movement_edges stake @ st_action_movement_edges pa),
      st_ledger_entries = merge_rows ''entry_id'' (st_ledger_entries stake @ st_ledger_entries pa)\<rparr>"

definition seed_files :: "SeedTables \<Rightarrow> (string \<times> string list list) list" where
  "seed_files t =
     [(''seed_decoded_events.csv'', write_csv (st_decoded_events t) DECODED_EVENTS_COLS),
      (''seed_decoded_trace_calls.csv'', write_csv (st_decoded_trace_calls t) DECODED_TRACE_CALLS_COLS),
      (''seed_link_transfers.csv'', write_csv (st_link_transfers t) LINK_TRANSFERS_COLS),
      (''seed_canonical_blocks.csv'', write_csv (st_canonical_blocks t) CANONICAL_BLOCKS_COLS),
      (''seed_economic_actions.csv'', write_csv (st_economic_actions t) ECONOMIC_ACTIONS_COLS),
      (''seed_token_movements.csv'', write_csv (st_token_movements t) TOKEN_MOVEMENTS_COLS),
      (''seed_action_movement_edges.csv'', write_csv (st_action_movement_edges t) ACTION_MOVEMENT_EDGES_COLS),
      (''seed_ledger_entries.csv'', write_csv (st_ledger_entries t) LEDGER_ENTRIES_COLS)]"

text \<open>\<open>main\<close>: the exception it ends with, if any, and the files written by then; the balance of the
  ledger is checked after the files are written.\<close>

definition seed_main :: "(string \<Rightarrow> byte list) \<Rightarrow> (string list \<Rightarrow> byte list \<Rightarrow> pyval list res)
    \<Rightarrow> Fixture \<Rightarrow> Fixture \<Rightarrow> unit res \<times> (string \<times> string list list) list" where
  "seed_main keccak abi_decode stake_fixture pa_fixture =
     (let run = ''local-demo-2026-05-11'' in
      case rbind (process_stake_fixture keccak abi_decode stake_fixture run) (\<lambda>stake.
           rbind (process_pa_fixture keccak abi_decode pa_fixture run) (\<lambda>pa.
           let t = seed_tables stake pa in
           rbind (check_edge_actions (known_action_ids (st_economic_actions t) (st_ledger_entries t))
               (st_action_movement_edges t)) (\<lambda>_. Inr t))) of
        Inl e \<Rightarrow> (Inl e, [])
      | Inr t \<Rightarrow> (rbind (foldR tx_totals_step (st_ledger_entries t) []) check_tx_totals, seed_files t))"

section \<open>Merging pairs of ledger rows\<close>

text \<open>A key of a pair is the tag of its ledger and the identifier of its action; the pair is a debit
  and a credit of one amount under one transaction, with the two identifiers the key gives.\<close>

type_synonym pair_key = "string \<times> string"

definition row_id :: "pair_key \<Rightarrow> int \<Rightarrow> string" where
  "row_id k i = sha256_hex (canonical_key (fst k) [snd k, show_int i])"

definition posting :: "pair_key \<times> pydict \<times> pydict \<Rightarrow> bool" where
  "posting p = (case p of (k, d, c) \<Rightarrow>
     merge_key ''entry_id'' d = row_id k 0 \<and> merge_key ''entry_id'' c = row_id k 1
     \<and> merge_key ''action_id'' d = snd k
     \<and> (\<exists>tx m. index_str d ''tx_hash'' = Inr tx \<and> index_str c ''tx_hash'' = Inr tx
         \<and> index_str d ''direction'' = Inr ''debit'' \<and> index_str c ''direction'' = Inr ''credit''
         \<and> rbind (dict_index d ''amount_link'') py_int = Inr m \<and> rbind (dict_index c ''amount_link'') py_int = Inr m)
     \<and> (fst k = ''pa_ledger_entry'' \<longrightarrow> pa_account (merge_key ''account'' d)))"

definition pair_rows :: "(pair_key \<times> pydict \<times> pydict) list \<Rightarrow> pydict list" where
  "pair_rows ps = concat (map (\<lambda>(k, d, c). [d, c]) ps)"

lemma pair_rows_simps [simp]:
  "pair_rows [] = []" "pair_rows ((k, d, c) # ps) = d # c # pair_rows ps"
  "pair_rows (ps @ qs) = pair_rows ps @ pair_rows qs"
  by (simp_all add: pair_rows_def)

definition separated :: "pair_key set \<Rightarrow> bool" where
  "separated ks = (\<forall>k \<in> ks. \<forall>k' \<in> ks. \<forall>i \<in> {0, 1}. \<forall>j \<in> {0, 1}. row_id k i = row_id k' j \<longrightarrow> k = k' \<and> i = j)"

lemma row_id_nonempty [simp]: "row_id k i \<noteq> ''''"
  using length_sha256_hex [of "canonical_key (fst k) [snd k, show_int i]"]
  by (metis list.size(3) row_id_def zero_neq_numeral)

text \<open>The merge keeps the first pair of each key, whole.\<close>

lemma merged_pairs:
  assumes "separated (fst ` set ps)" "\<forall>p \<in> set ps. posting p"
  shows "\<exists>qs. set qs \<subseteq> set ps \<and> fst ` set qs = fst ` set ps \<and>
    fold (merge_step ''entry_id'') (pair_rows ps) [] =
      concat (map (\<lambda>(k, d, c). [(row_id k 0, d), (row_id k 1, c)]) qs)"
  using assms
proof (induction ps rule: rev_induct)
  case (snoc p ps)
  obtain k d c where p: "p = (k, d, c)" by (cases p)
  let ?seen = "\<lambda>qs. concat (map (\<lambda>(k, d, c). [(row_id k 0, d), (row_id k 1, c)]) qs) :: (string \<times> pydict) list"
  have "separated (fst ` set ps)" using snoc.prems(1) unfolding separated_def by simp
  with snoc obtain qs where qs: "set qs \<subseteq> set ps" "fst ` set qs = fst ` set ps"
    "fold (merge_step ''entry_id'') (pair_rows ps) [] = ?seen qs" by auto
  have dom: "i \<in> {0, 1} \<Longrightarrow> map_of (?seen qs) (row_id k i) = None \<longleftrightarrow> k \<notin> fst ` set qs" for i
  proof -
    assume i: "i \<in> {0, 1}"
    have "row_id k i \<in> fst ` set (?seen qs) \<longleftrightarrow> (\<exists>k' \<in> fst ` set qs. row_id k i = row_id k' 0 \<or> row_id k i = row_id k' 1)"
      by force
    also have "\<dots> \<longleftrightarrow> k \<in> fst ` set qs"
      using snoc.prems(1) i unfolding separated_def qs(2) p by auto
    finally show ?thesis by (simp add: map_of_eq_None_iff)
  qed
  have ids: "merge_key ''entry_id'' d = row_id k 0" "merge_key ''entry_id'' c = row_id k 1"
    using snoc.prems(2) p by (auto simp: posting_def)
  have ne: "row_id k 0 \<noteq> row_id k 1" using snoc.prems(1) unfolding separated_def p by force
  have step: "fold (merge_step ''entry_id'') (pair_rows (ps @ [p])) [] =
      (if k \<in> fst ` set qs then ?seen qs else ?seen (qs @ [p]))"
    using dom [of 0] dom [of 1] ne by (simp add: p qs(3) merge_step_def ids Let_def)
  show ?case
  proof (cases "k \<in> fst ` set qs")
    case True
    then show ?thesis using qs step p by (intro exI [of _ qs]) auto
  next
    case False
    then show ?thesis using qs step p by (intro exI [of _ "qs @ [p]"]) auto
  qed
qed simp

lemma merged_ledger:
  assumes "separated (fst ` set ps)" "\<forall>p \<in> set ps. posting p"
  shows "\<exists>qs. set qs \<subseteq> set ps \<and> fst ` set qs = fst ` set ps \<and> merge_rows ''entry_id'' (pair_rows ps) = pair_rows qs"
proof -
  from merged_pairs [OF assms] obtain qs where "set qs \<subseteq> set ps" "fst ` set qs = fst ` set ps"
    "fold (merge_step ''entry_id'') (pair_rows ps) [] =
      concat (map (\<lambda>(k, d, c). [(row_id k 0, d), (row_id k 1, c)]) qs)" by blast
  moreover have "map snd (concat (map (\<lambda>(k, d, c). [(row_id k 0, d), (row_id k 1, c)]) qs)) = pair_rows qs" for qs
    by (induction qs) auto
  ultimately show ?thesis by (intro exI [of _ qs]) (simp add: merge_rows_def)
qed

section \<open>The totals of paired rows\<close>

definition even_totals :: "(string \<times> int \<times> int) list \<Rightarrow> bool" where
  "even_totals by_tx = (distinct (map fst by_tx) \<and> (\<forall>(tx, d, c) \<in> set by_tx. d = c))"

lemma even_totals_get: "even_totals by_tx \<Longrightarrow> \<exists>x. dict_get_or by_tx tx (0, 0) = (x, x)"
  by (cases "map_of by_tx tx") (auto simp: dict_get_or_def even_totals_def dest!: map_of_SomeD)

lemma even_totals_update:
  assumes "even_totals by_tx"
  shows "even_totals (AList.update tx (x, x) (AList.update tx y by_tx))"
proof -
  let ?d = "AList.update tx (x, x) (AList.update tx y by_tx)"
  have dist: "distinct (map fst ?d)" using assms by (simp add: even_totals_def distinct_update)
  moreover have "a = b" if m: "(t, a, b) \<in> set ?d" for t a b
  proof -
    from m dist have "map_of ?d t = Some (a, b)" by simp
    then show ?thesis using assms
      by (auto simp: update_conv' even_totals_def split: if_splits dest!: map_of_SomeD)
  qed
  ultimately show ?thesis by (auto simp: even_totals_def)
qed

lemma pair_totals:
  assumes "\<forall>p \<in> set qs. posting p" "even_totals by_tx"
  shows "\<exists>by_tx'. foldR tx_totals_step (pair_rows qs) by_tx = Inr by_tx' \<and> even_totals by_tx'"
  using assms
proof (induction qs arbitrary: by_tx)
  case (Cons p qs)
  obtain k d c where p: "p = (k, d, c)" by (cases p)
  with Cons.prems(1) obtain tx m where f: "index_str d ''tx_hash'' = Inr tx" "index_str c ''tx_hash'' = Inr tx"
    "index_str d ''direction'' = Inr ''debit''" "index_str c ''direction'' = Inr ''credit''"
    "rbind (dict_index d ''amount_link'') py_int = Inr m" "rbind (dict_index c ''amount_link'') py_int = Inr m"
    by (auto simp: posting_def)
  obtain x where x: "dict_get_or by_tx tx (0, 0) = (x, x)" using even_totals_get [OF Cons.prems(2)] by blast
  have "dict_get_or (AList.update tx (x + m, x) by_tx) tx (0, 0) = (x + m, x)"
    by (simp add: dict_get_or_def update_conv')
  then have "foldR tx_totals_step (pair_rows (p # qs)) by_tx =
      foldR tx_totals_step (pair_rows qs) (AList.update tx (x + m, x + m) (AList.update tx (x + m, x) by_tx))"
    by (simp add: p tx_totals_step_def f x)
  with Cons.IH [OF _ even_totals_update [OF Cons.prems(2)]] Cons.prems(1) show ?case by simp
qed simp

lemma check_tx_totals_even: "even_totals by_tx \<Longrightarrow> check_tx_totals by_tx = Inr ()"
  by (induction by_tx rule: check_tx_totals.induct) (auto simp: even_totals_def)

section \<open>Merged rows and their keys\<close>

lemma merge_fold_keys:
  assumes "\<forall>(k, r) \<in> set seen. merge_key key r = k"
  shows "(\<forall>(k, r) \<in> set (fold (merge_step key) rows seen). merge_key key r = k)
    \<and> fst ` set (fold (merge_step key) rows seen) = fst ` set seen \<union> (merge_key key ` set rows - {''''})
    \<and> snd ` set (fold (merge_step key) rows seen) \<subseteq> snd ` set seen \<union> set rows"
  using assms
proof (induction rows arbitrary: seen)
  case (Cons r rows)
  have "\<forall>(k, r) \<in> set (merge_step key r seen). merge_key key r = k"
    using Cons.prems by (auto simp: merge_step_def Let_def)
  note ih = Cons.IH [OF this]
  have keys: "fst ` set (merge_step key r seen) = fst ` set seen \<union> ({merge_key key r} - {''''})"
    by (auto simp: merge_step_def Let_def map_of_eq_None_iff)
  have rows: "snd ` set (merge_step key r seen) \<subseteq> snd ` set seen \<union> {r}"
    by (auto simp: merge_step_def Let_def)
  have unfold: "fold (merge_step key) (r # rows) seen = fold (merge_step key) rows (merge_step key r seen)" by simp
  show ?case
  proof (intro conjI)
    show "fst ` set (fold (merge_step key) (r # rows) seen)
        = fst ` set seen \<union> (merge_key key ` set (r # rows) - {''''})"
      using ih keys by auto
    show "snd ` set (fold (merge_step key) (r # rows) seen) \<subseteq> snd ` set seen \<union> set (r # rows)"
      unfolding unfold using order_trans [OF conjunct2 [OF conjunct2 [OF ih]] Un_mono [OF rows order_refl]] by simp
  qed (use ih in simp)
qed simp

lemma merge_rows_facts:
  "merge_key key ` set (merge_rows key rows) = merge_key key ` set rows - {''''}"
  "set (merge_rows key rows) \<subseteq> set rows"
proof -
  note f = merge_fold_keys [of "[]" key rows]
  have "merge_key key ` snd ` set (fold (merge_step key) rows []) = fst ` set (fold (merge_step key) rows [])"
    using f unfolding image_image by (intro image_cong) auto
  with f show "merge_key key ` set (merge_rows key rows) = merge_key key ` set rows - {''''}"
    "set (merge_rows key rows) \<subseteq> set rows" by (simp_all add: merge_rows_def)
qed

lemma check_edges_known:
  "(\<And>e. e \<in> set es \<Longrightarrow> merge_key ''action_id'' e \<in> known) \<Longrightarrow> check_edge_actions known es = Inr ()"
  by (induction es) (simp_all add: Let_def)

section \<open>The pairs of the two ledgers\<close>

text \<open>The keys that are hashed for the rows of a ledger.\<close>

definition hashed_keys :: "pair_key set \<Rightarrow> string set" where
  "hashed_keys ks = (\<Union>(tag, aid) \<in> ks. entry_keys tag [aid])"

definition collides :: "string set \<Rightarrow> bool" where
  "collides keys = (\<exists>x \<in> keys. \<exists>y \<in> keys. x \<noteq> y \<and> sha256_hex x = sha256_hex y)"

lemma separated_or_collides:
  assumes "\<And>tag aid. (tag, aid) \<in> ks \<Longrightarrow> CHR ''|'' \<notin> set tag \<and> CHR ''|'' \<notin> set aid"
  shows "separated ks \<or> collides (hashed_keys ks)"
proof (rule ccontr)
  assume a: "\<not> (separated ks \<or> collides (hashed_keys ks))"
  then obtain k k' i j where k: "k \<in> ks" "k' \<in> ks" "i \<in> {0, 1}" "j \<in> {0, 1}" "row_id k i = row_id k' j"
    "\<not> (k = k' \<and> i = j)" unfolding separated_def by blast
  obtain t a t' a' where ta: "k = (t, a)" "k' = (t', a')" by (cases k, cases k')
  let ?x = "canonical_key t [a, show_int i]" and ?y = "canonical_key t' [a', show_int j]"
  have "?x \<in> hashed_keys ks" "?y \<in> hashed_keys ks"
    using k(1-4) unfolding hashed_keys_def entry_keys_def ta by fastforce+
  then have eq: "?x = ?y" using a k(5) by (auto simp: collides_def row_id_def ta)
  have free: "CHR ''|'' \<notin> set t" "CHR ''|'' \<notin> set a" "CHR ''|'' \<notin> set t'" "CHR ''|'' \<notin> set a'"
    using assms k(1,2) ta by blast+
  have "t = t'" by (rule canonical_key_tag [OF free(1,3) _ _ eq]) simp_all
  moreover from this eq have "[a, show_int i] = [a', show_int j]"
    using canonical_key_inj [OF free(1), of "[a, show_int i]" "[a', show_int j]"] free by simp
  ultimately show False using k(6) ta by simp
qed


lemma staking_pairs:
  "\<exists>ps. concat (map (\<lambda>a. map (\<lambda>le. seed_ledger_row le run) (build_ledger_entries a ms)) acts) = pair_rows ps
    \<and> (\<forall>p \<in> set ps. posting p) \<and> fst ` set ps \<subseteq> (\<lambda>a. (''ledger_entry'', ea_action_id a)) ` set acts"
proof (induction acts)
  case (Cons a acts)
  then obtain ps where ps: "concat (map (\<lambda>a. map (\<lambda>le. seed_ledger_row le run) (build_ledger_entries a ms)) acts) = pair_rows ps"
    "\<forall>p \<in> set ps. posting p" "fst ` set ps \<subseteq> (\<lambda>a. (''ledger_entry'', ea_action_id a)) ` set acts" by blast
  have "build_ledger_entries a ms = [] \<or> (\<exists>x y m. build_ledger_entries a ms =
      [make_entry a 0 x DEBIT m, make_entry a 1 y CREDIT m])"
    by (cases "ea_kind a") (auto simp: build_ledger_entries_def Let_def)
  then show ?case
  proof (elim disjE exE)
    fix x y m
    assume e: "build_ledger_entries a ms = [make_entry a 0 x DEBIT m, make_entry a 1 y CREDIT m]"
    let ?p = "((''ledger_entry'', ea_action_id a), seed_ledger_row (make_entry a 0 x DEBIT m) run,
      seed_ledger_row (make_entry a 1 y CREDIT m) run)"
    have "posting ?p"
      by (simp add: posting_def merge_key_def seed_ledger_row_def make_entry_def dict_get_or_def dict_index_def
          index_str_def row_id_def compute_ledger_entry_id_def ledger_entry_fields_def)
    with ps e show ?thesis by (intro exI [of _ "?p # ps"]) auto
  qed (use ps in \<open>intro exI [of _ ps], auto\<close>)
qed (simp add: exI [of _ "[]"])

lemma pa_account_rows:
  "pa_account (''upstream:'' @ s)" "pa_account (''service_contract:'' @ s)" "pa_account (''pa_swap_automator'' @ s)"
  by (simp_all add: pa_account_def starts_with_def)

lemma pa_entry_pair:
  assumes "0 < pa_output_amount a \<and> pa_source_amount a = pa_output_amount a
    \<and> (pa_kind a, pa_contract_role a) \<in> {(RESERVES_DEPOSIT, ''pa_reserves''), (FEE_RECEIVED, ''pa_fee_aggregator''),
         (SERVICE_FEE_FORWARDED, ''pa_swap_automator'')}"
  shows "\<exists>x y m. build_pa_ledger_entries a = [pa_entry a 0 x PA_DEBIT m, pa_entry a 1 y PA_CREDIT m] \<and> pa_account x"
proof -
  let ?who = "text_or (pa_counterparty a) ''unknown''" and ?here = "pa_contract_role a @ '':'' @ pa_contract_address a"
  let ?m = "pa_output_amount a"
  consider "pa_kind a = RESERVES_DEPOSIT" | "pa_kind a = FEE_RECEIVED"
    | "pa_kind a = SERVICE_FEE_FORWARDED" "pa_contract_role a = ''pa_swap_automator''" using assms by auto
  then show ?thesis
  proof cases
    case 1
    then have "build_pa_ledger_entries a =
        [pa_entry a 0 (''upstream:'' @ ?who) PA_DEBIT ?m, pa_entry a 1 ?here PA_CREDIT ?m]"
      using assms by (simp add: build_pa_ledger_entries_def Let_def)
    then show ?thesis using pa_account_rows(1) by blast
  next
    case 2
    then have "build_pa_ledger_entries a =
        [pa_entry a 0 (''service_contract:'' @ ?who) PA_DEBIT ?m, pa_entry a 1 ?here PA_CREDIT ?m]"
      using assms by (simp add: build_pa_ledger_entries_def Let_def)
    then show ?thesis using pa_account_rows(2) by blast
  next
    case 3
    then have "build_pa_ledger_entries a = [pa_entry a 0 (''pa_swap_automator'' @ '':'' @ pa_contract_address a) PA_DEBIT ?m,
        pa_entry a 1 (''forwarded_to:'' @ ?who) PA_CREDIT ?m]"
      using assms by (simp add: build_pa_ledger_entries_def Let_def)
    then show ?thesis using pa_account_rows(3) by blast
  qed
qed

lemma pa_pairs:
  assumes "\<And>a. a \<in> set acts \<Longrightarrow> 0 < pa_output_amount a \<and> pa_source_amount a = pa_output_amount a
    \<and> (pa_kind a, pa_contract_role a) \<in> {(RESERVES_DEPOSIT, ''pa_reserves''), (FEE_RECEIVED, ''pa_fee_aggregator''),
         (SERVICE_FEE_FORWARDED, ''pa_swap_automator'')}"
  shows "\<exists>ps. concat (map (\<lambda>a. map (\<lambda>le. pa_ledger_row le run) (build_pa_ledger_entries a)) acts) = pair_rows ps
    \<and> (\<forall>p \<in> set ps. posting p) \<and> fst ` set ps = (\<lambda>a. (''pa_ledger_entry'', pa_action_id a)) ` set acts"
  using assms
proof (induction acts)
  case (Cons a acts)
  then obtain ps where ps: "concat (map (\<lambda>a. map (\<lambda>le. pa_ledger_row le run) (build_pa_ledger_entries a)) acts) = pair_rows ps"
    "\<forall>p \<in> set ps. posting p" "fst ` set ps = (\<lambda>a. (''pa_ledger_entry'', pa_action_id a)) ` set acts" by auto
  have "\<exists>x y m. build_pa_ledger_entries a = [pa_entry a 0 x PA_DEBIT m, pa_entry a 1 y PA_CREDIT m] \<and> pa_account x"
    by (rule pa_entry_pair, rule Cons.prems) simp
  then obtain x y m where e: "build_pa_ledger_entries a = [pa_entry a 0 x PA_DEBIT m, pa_entry a 1 y PA_CREDIT m]"
    and x: "pa_account x" by (elim exE conjE)
  let ?p = "((''pa_ledger_entry'', pa_action_id a), pa_ledger_row (pa_entry a 0 x PA_DEBIT m) run,
    pa_ledger_row (pa_entry a 1 y PA_CREDIT m) run)"
  have "posting ?p"
    by (simp add: posting_def merge_key_def pa_ledger_row_def pa_entry_def dict_get_or_def dict_index_def x
        index_str_def row_id_def compute_pa_ledger_entry_id_def pa_entry_fields_def)
  with ps e show ?case by (intro exI [of _ "?p # ps"]) auto
qed auto

section \<open>The two runs\<close>

lemma sha256_hex_free: "CHR ''|'' \<notin> set (sha256_hex s)"
proof
  assume "CHR ''|'' \<in> set (sha256_hex s)"
  then obtain d where d: "d < 16" "CHR ''|'' = nibble_char d"
    unfolding sha256_hex_def by (auto dest: to_hex_chars)
  have "hex_val (CHR ''|'') = None" by code_simp
  with hex_val_nibble [OF d(1)] d(2) show False by simp
qed

lemma swap_events_unclassified:
  assumes "decode_seed_logs keccak dec PA_FEE_AGGREGATOR_ADDRESS ASSET_TRANSFERRED_FOR_SWAP_TOPIC0 fee_aggregator_abi logs = Inr evs"
    and "ev \<in> set (contract_events evs)"
  shows "classify_pa_event_as_action ev role_of = Inr []"
proof -
  from assms obtain raw_log where "decode_seed_log keccak dec PA_FEE_AGGREGATOR_ADDRESS ASSET_TRANSFERRED_FOR_SWAP_TOPIC0
      fee_aggregator_abi raw_log = Inr (Some (False, ev))"
    by (auto simp: decode_seed_logs_def rbind_Inr mapR_Inr contract_events_def List.map_filter_def dest!: list_all2_set2)
  then obtain r where "decode_log keccak dec raw_log fee_aggregator_abi = Inr r" "recovered_event r = Some ev"
    by (auto simp: decode_seed_log_def rbind_Inr split: if_splits)
  then have "de_event_name ev = ''AssetTransferredForSwap''"
    by (intro decoded_event_name) (auto simp: fee_aggregator_abi_def recovered_event_def split: if_splits option.splits decoded.splits)
  then show ?thesis by (simp add: classify_pa_event_as_action_def PA_EVENT_NAME_TO_KIND_def Let_def)
qed

lemma classified_ids:
  assumes "classify_event_as_action ev role_of = Inr acts" "a \<in> set acts"
  shows "\<exists>x. ea_action_id a = sha256_hex x"
proof -
  from assms have "ea_action_id a \<in> {v01_action_id ev} \<union> range (compute_action_id ev)"
    by (auto simp: classify_event_as_action_def Let_def rbind_Inr split: if_splits option.splits)
  then show ?thesis unfolding v01_action_id_def compute_action_id_def by blast
qed

text \<open>What the checks of \<open>main\<close> need to know of the tables of a run.\<close>

definition run_tables :: "string \<Rightarrow> SeedTables \<Rightarrow> bool" where
  "run_tables tag t = (\<exists>ps. st_ledger_entries t = pair_rows ps \<and> (\<forall>p \<in> set ps. posting p)
     \<and> fst ` fst ` set ps \<subseteq> {tag} \<and> (\<forall>aid \<in> snd ` fst ` set ps. \<exists>x. aid = sha256_hex x)
     \<and> (\<forall>e \<in> set (st_action_movement_edges t). merge_key ''action_id'' e \<noteq> '''' \<and>
          (merge_key ''action_id'' e \<in> merge_key ''action_id'' ` set (st_economic_actions t)
           \<or> tag = ''pa_ledger_entry'' \<and> (tag, merge_key ''action_id'' e) \<in> fst ` set ps)))"

lemma sha256_hex_nonempty [simp]: "sha256_hex s \<noteq> ''''" "'''' \<noteq> sha256_hex s"
  using length_sha256_hex [of s] by (metis list.size(3) zero_neq_numeral)+

lemma stake_run_tables:
  assumes "process_stake_fixture keccak dec fx run = Inr t"
  shows "run_tables ''ledger_entry'' t"
proof -
  from assms obtain acts ms ev where c: "classify_event_as_action ev stub_role = Inr acts"
    and t: "st_economic_actions t = map (\<lambda>a. staking_action_row a run) acts"
      "st_action_movement_edges t = concat (map (\<lambda>a. map (\<lambda>e. seed_edge_row e a run) (match_action_to_movements a ms)) acts)"
      "st_ledger_entries t = concat (map (\<lambda>a. map (\<lambda>le. seed_ledger_row le run) (build_ledger_entries a ms)) acts)"
    by (auto simp: process_stake_fixture_def rbind_Inr split: if_splits prod.splits)
  from staking_pairs obtain ps where ps: "st_ledger_entries t = pair_rows ps" "\<forall>p \<in> set ps. posting p"
    "fst ` set ps \<subseteq> (\<lambda>a. (''ledger_entry'', ea_action_id a)) ` set acts" unfolding t(3) by blast
  have row: "merge_key ''action_id'' (seed_edge_row e a run) = ea_action_id a"
    "merge_key ''action_id'' (staking_action_row a run) = ea_action_id a"
    if "e \<in> set (match_action_to_movements a ms)" for e a
    using match_action_id [OF that]
    by (auto simp: merge_key_def seed_edge_row_def staking_action_row_def dict_get_or_def text_or_def)
  have "merge_key ''action_id'' e \<noteq> '''' \<and> merge_key ''action_id'' e \<in> merge_key ''action_id'' ` set (st_economic_actions t)"
    if "e \<in> set (st_action_movement_edges t)" for e
  proof -
    from that obtain a m where m: "a \<in> set acts" "m \<in> set (match_action_to_movements a ms)" "e = seed_edge_row m a run"
      unfolding t(2) by auto
    from row [OF m(2)] classified_ids [OF c m(1)] m(1,3) show ?thesis
      unfolding t(1) by (auto simp: image_iff intro!: bexI [of _ a])
  qed
  moreover have "\<forall>aid \<in> snd ` fst ` set ps. \<exists>x. aid = sha256_hex x"
    using ps(3) classified_ids [OF c] by fastforce
  moreover have "fst ` fst ` set ps \<subseteq> {''ledger_entry''}" using ps(3) by fastforce
  ultimately show ?thesis unfolding run_tables_def using ps(1,2) by blast
qed

lemma pa_edge_action:
  assumes "e \<in> set (pa_edge_rows a ms run)"
  shows "merge_key ''action_id'' e = pa_action_id a"
proof -
  have row: "merge_key ''action_id'' (pa_edge_row a run i m n s x y) = pa_action_id a" for i m n s x y
    by (simp add: merge_key_def pa_edge_row_def dict_get_or_def)
  from assms obtain i m n s x y where "e = pa_edge_row a run i m n s x y"
    unfolding pa_edge_rows_def Let_def by (simp only: split: if_splits list.splits) auto
  with row show ?thesis by simp
qed

lemma pa_run_tables:
  assumes "process_pa_fixture keccak dec fx run = Inr t"
  shows "run_tables ''pa_ledger_entry'' t"
proof -
  from assms obtain logs evs classified acts ms where
    evs: "decode_seed_logs keccak dec PA_FEE_AGGREGATOR_ADDRESS ASSET_TRANSFERRED_FOR_SWAP_TOPIC0 fee_aggregator_abi logs = Inr evs"
    and c: "mapR (\<lambda>ev. classify_pa_event_as_action ev stub_role) (contract_events evs) = Inr classified"
    and s: "synthesize_pa_actions (link_events evs) = Inr acts"
    and t: "st_action_movement_edges t = concat (map (\<lambda>a. pa_edge_rows a ms run) (concat classified @ acts))"
      "st_ledger_entries t = concat (map (\<lambda>a. map (\<lambda>le. pa_ledger_row le run) (build_pa_ledger_entries a)) (concat classified @ acts))"
    by (auto simp: process_pa_fixture_def rbind_Inr Let_def)
  have "mapR (\<lambda>ev. classify_pa_event_as_action ev stub_role) (contract_events evs) = Inr (map (\<lambda>_. []) (contract_events evs))"
    by (rule mapR_total) (rule swap_events_unclassified [OF evs])
  with c have "classified = map (\<lambda>_. []) (contract_events evs)" by simp
  then have none: "concat classified = []" by simp
  from pa_pairs [of acts run] synthesized_action [OF s] obtain ps where
    ps: "st_ledger_entries t = pair_rows ps" "\<forall>p \<in> set ps. posting p"
      "fst ` set ps = (\<lambda>a. (''pa_ledger_entry'', pa_action_id a)) ` set acts"
    unfolding t(2) none append_Nil by blast
  have ids: "\<exists>x. pa_action_id a = sha256_hex x" if "a \<in> set acts" for a
    using synthesized_action [OF s that] by blast
  have "merge_key ''action_id'' e \<noteq> '''' \<and> (''pa_ledger_entry'', merge_key ''action_id'' e) \<in> fst ` set ps"
    if "e \<in> set (st_action_movement_edges t)" for e
  proof -
    from that obtain a where a: "a \<in> set acts" "e \<in> set (pa_edge_rows a ms run)" unfolding t(1) none by auto
    have "merge_key ''action_id'' e \<noteq> ''''"
      unfolding pa_edge_action [OF a(2)] using ids [OF a(1)] by (elim exE) (simp only: sha256_hex_nonempty not_False_eq_True)
    moreover have "(''pa_ledger_entry'', merge_key ''action_id'' e) \<in> fst ` set ps"
      unfolding pa_edge_action [OF a(2)] ps(3) by (rule imageI [OF a(1)])
    ultimately show ?thesis ..
  qed
  moreover have "\<forall>aid \<in> snd ` fst ` set ps. \<exists>x. aid = sha256_hex x"
    unfolding ps(3) by (auto dest: ids)
  moreover have "fst ` fst ` set ps \<subseteq> {''pa_ledger_entry''}" unfolding ps(3) by auto
  ultimately show ?thesis unfolding run_tables_def using ps(1,2) by blast
qed

section \<open>Properties\<close>

definition ledger_keys :: "SeedTables \<Rightarrow> SeedTables \<Rightarrow> pair_key set" where
  "ledger_keys stake pa =
     Pair ''ledger_entry'' ` merge_key ''action_id'' ` set (st_ledger_entries stake)
     \<union> Pair ''pa_ledger_entry'' ` merge_key ''action_id'' ` set (st_ledger_entries pa)"

lemma pair_rows_mem: "(k, d, c) \<in> set ps \<Longrightarrow> d \<in> set (pair_rows ps)"
  by (induction ps) (auto simp: pair_rows_def)

lemma pair_keys_rows:
  assumes "\<forall>p \<in> set ps. posting p" "fst ` fst ` set ps \<subseteq> {tag}"
  shows "fst ` set ps \<subseteq> Pair tag ` merge_key ''action_id'' ` set (pair_rows ps)"
proof
  fix k assume "k \<in> fst ` set ps"
  then obtain d c where p: "(k, d, c) \<in> set ps" by force
  then have "posting (k, d, c)" using assms(1) by blast
  then have "merge_key ''action_id'' d = snd k" by (simp add: posting_def)
  moreover have "fst k = tag" using subsetD [OF assms(2) imageI [OF imageI [OF p]]] by simp
  moreover from p have "d \<in> set (pair_rows ps)" by (rule pair_rows_mem)
  ultimately show "k \<in> Pair tag ` merge_key ''action_id'' ` set (pair_rows ps)" by (cases k) force
qed

lemma pair_keys_free:
  assumes "fst ` fst ` set ps \<subseteq> {tag}" "CHR ''|'' \<notin> set tag" "\<forall>aid \<in> snd ` fst ` set ps. \<exists>x. aid = sha256_hex x"
    and "(t, a) \<in> fst ` set ps"
  shows "CHR ''|'' \<notin> set t \<and> CHR ''|'' \<notin> set a"
proof -
  have "t = tag" using subsetD [OF assms(1) imageI [OF assms(4), of fst]] by simp
  moreover obtain x where "a = sha256_hex x" using bspec [OF assms(3) imageI [OF assms(4), of snd]] by auto
  ultimately show ?thesis using assms(2) sha256_hex_free by simp
qed

lemma collides_mono: "collides (hashed_keys ks) \<Longrightarrow> ks \<subseteq> ks' \<Longrightarrow> collides (hashed_keys ks')"
  unfolding collides_def hashed_keys_def by blast

text \<open>The merged ledger is a list of whole pairs, and every edge refers to an action of the tables or
  to one with a pair.\<close>

lemma merged_tables:
  assumes "run_tables ''ledger_entry'' s" "run_tables ''pa_ledger_entry'' p"
    and "\<not> collides (hashed_keys (ledger_keys s p))"
  shows "\<exists>qs. st_ledger_entries (seed_tables s p) = pair_rows qs \<and> (\<forall>q \<in> set qs. posting q)
    \<and> (\<forall>e \<in> set (st_action_movement_edges s @ st_action_movement_edges p).
        merge_key ''action_id'' e \<noteq> '''' \<and> (merge_key ''action_id'' e \<in>
            merge_key ''action_id'' ` set (st_economic_actions s @ st_economic_actions p)
          \<or> (''pa_ledger_entry'', merge_key ''action_id'' e) \<in> fst ` set qs))"
proof -
  from assms(1) obtain ps where ps: "st_ledger_entries s = pair_rows ps" "\<forall>q \<in> set ps. posting q"
    "fst ` fst ` set ps \<subseteq> {''ledger_entry''}" "\<forall>aid \<in> snd ` fst ` set ps. \<exists>x. aid = sha256_hex x"
    and es: "\<forall>e \<in> set (st_action_movement_edges s). merge_key ''action_id'' e \<noteq> '''' \<and>
      merge_key ''action_id'' e \<in> merge_key ''action_id'' ` set (st_economic_actions s)"
    unfolding run_tables_def by auto
  from assms(2) obtain ps' where ps': "st_ledger_entries p = pair_rows ps'" "\<forall>q \<in> set ps'. posting q"
    "fst ` fst ` set ps' \<subseteq> {''pa_ledger_entry''}" "\<forall>aid \<in> snd ` fst ` set ps'. \<exists>x. aid = sha256_hex x"
    and es': "\<forall>e \<in> set (st_action_movement_edges p). merge_key ''action_id'' e \<noteq> '''' \<and>
      (merge_key ''action_id'' e \<in> merge_key ''action_id'' ` set (st_economic_actions p)
       \<or> (''pa_ledger_entry'', merge_key ''action_id'' e) \<in> fst ` set ps')"
    unfolding run_tables_def by auto
  let ?ks = "fst ` set (ps @ ps')"
  have sub: "?ks \<subseteq> ledger_keys s p"
    using pair_keys_rows [OF ps(2,3)] pair_keys_rows [OF ps'(2,3)] by (auto simp: ledger_keys_def ps(1) ps'(1))
  have free: "CHR ''|'' \<notin> set tag \<and> CHR ''|'' \<notin> set aid" if "(tag, aid) \<in> ?ks" for tag aid
  proof -
    have "(tag, aid) \<in> fst ` set ps \<or> (tag, aid) \<in> fst ` set ps'"
      using that unfolding set_append image_Un by (rule UnE) simp_all
    then show ?thesis using pair_keys_free [OF ps(3) _ ps(4)] pair_keys_free [OF ps'(3) _ ps'(4)] by (elim disjE) simp_all
  qed
  have sep: "separated ?ks"
    using separated_or_collides [OF free] collides_mono [OF _ sub] assms(3) by blast
  have post: "\<forall>q \<in> set (ps @ ps'). posting q" using ps(2) ps'(2) by auto
  from merged_ledger [OF sep post] obtain qs where qs: "set qs \<subseteq> set (ps @ ps')" "fst ` set qs = ?ks"
    "st_ledger_entries (seed_tables s p) = pair_rows qs" by (auto simp: seed_tables_def ps(1) ps'(1))
  have "\<forall>q \<in> set qs. posting q" using qs(1) post by blast
  moreover have "fst ` set qs = fst ` set ps \<union> fst ` set ps'" unfolding qs(2) set_append image_Un ..
  moreover from this have "\<forall>e \<in> set (st_action_movement_edges s @ st_action_movement_edges p).
        merge_key ''action_id'' e \<noteq> '''' \<and> (merge_key ''action_id'' e \<in>
            merge_key ''action_id'' ` set (st_economic_actions s @ st_economic_actions p)
          \<or> (''pa_ledger_entry'', merge_key ''action_id'' e) \<in> fst ` set qs)"
    using es es' unfolding set_append image_Un ball_Un by (simp only: Un_iff) blast
  ultimately show ?thesis using qs(3) by blast
qed

lemma checks_pass:
  assumes "run_tables ''ledger_entry'' s" "run_tables ''pa_ledger_entry'' p"
    and "t = seed_tables s p" "\<not> collides (hashed_keys (ledger_keys s p))"
  shows "check_edge_actions (known_action_ids (st_economic_actions t) (st_ledger_entries t)) (st_action_movement_edges t) = Inr ()
    \<and> rbind (foldR tx_totals_step (st_ledger_entries t) []) check_tx_totals = Inr ()"
proof -
  from merged_tables [OF assms(1,2,4)] obtain qs where qs: "st_ledger_entries t = pair_rows qs" "\<forall>q \<in> set qs. posting q"
    and known: "\<forall>e \<in> set (st_action_movement_edges s @ st_action_movement_edges p).
        merge_key ''action_id'' e \<noteq> '''' \<and> (merge_key ''action_id'' e \<in>
            merge_key ''action_id'' ` set (st_economic_actions s @ st_economic_actions p)
          \<or> (''pa_ledger_entry'', merge_key ''action_id'' e) \<in> fst ` set qs)"
    unfolding assms(3) by (elim exE conjE)
  have totals: "rbind (foldR tx_totals_step (st_ledger_entries t) []) check_tx_totals = Inr ()"
    using pair_totals [OF qs(2), of "[]"] check_tx_totals_even unfolding qs(1)
    by (auto simp: even_totals_def)
  have "merge_key ''action_id'' e \<in> known_action_ids (st_economic_actions t) (st_ledger_entries t)"
    if e: "e \<in> set (st_action_movement_edges t)" for e
  proof -
    let ?aid = "merge_key ''action_id'' e"
    have "e \<in> set (st_action_movement_edges s @ st_action_movement_edges p)"
      by (rule subsetD [OF merge_rows_facts(2) [of "''edge_id''"]]) (use e in \<open>simp add: assms(3) seed_tables_def\<close>)
    with known consider "?aid \<noteq> ''''" "?aid \<in> merge_key ''action_id'' ` set (st_economic_actions s @ st_economic_actions p)"
      | "(''pa_ledger_entry'', ?aid) \<in> fst ` set qs" by blast
    then show ?thesis
    proof cases
      case 1
      then have "?aid \<in> merge_key ''action_id'' ` set (st_economic_actions t)"
        by (simp add: assms(3) seed_tables_def merge_rows_facts(1))
      then show ?thesis by (simp add: known_action_ids_def)
    next
      case 2
      then obtain d c where q: "((''pa_ledger_entry'', ?aid), d, c) \<in> set qs" by force
      with qs(2) have "merge_key ''action_id'' d = ?aid" "pa_account (merge_key ''account'' d)"
        by (auto simp: posting_def dest!: bspec)
      moreover from q have "d \<in> set (st_ledger_entries t)" unfolding qs(1) by (rule pair_rows_mem)
      ultimately have "?aid \<in> merge_key ''action_id'' ` {r \<in> set (st_ledger_entries t). pa_account (merge_key ''account'' r)}"
        by (intro image_eqI [of _ _ d]) simp_all
      then show ?thesis by (simp add: known_action_ids_def)
    qed
  qed
  with totals show ?thesis by (simp add: check_edges_known)
qed

text \<open>C4: the local run end to end: once the two cached transactions are processed, whatever they
  hold, both checks of \<open>main\<close> pass and all seed files are written: every edge refers to an action of
  the tables and the merged ledger balances per transaction. The run fails only where processing a
  fixture fails, or on a SHA-256 collision between two keys of ledger rows.\<close>

theorem seed_run_passes_checks:
  "case process_stake_fixture keccak dec fx ''local-demo-2026-05-11'' of
     Inl e \<Rightarrow> seed_main keccak dec fx fx' = (Inl e, [])
   | Inr s \<Rightarrow> (case process_pa_fixture keccak dec fx' ''local-demo-2026-05-11'' of
       Inl e \<Rightarrow> seed_main keccak dec fx fx' = (Inl e, [])
     | Inr p \<Rightarrow> seed_main keccak dec fx fx' = (Inr (), seed_files (seed_tables s p))
         \<or> collides (hashed_keys (ledger_keys s p)))"
proof (cases "process_stake_fixture keccak dec fx ''local-demo-2026-05-11''")
  case (Inr s)
  show ?thesis
  proof (cases "process_pa_fixture keccak dec fx' ''local-demo-2026-05-11''")
    case inr: (Inr p)
    show ?thesis
    proof (cases "collides (hashed_keys (ledger_keys s p))")
      case False
      note ok = checks_pass [OF stake_run_tables [OF Inr] pa_run_tables [OF inr] refl False]
      show ?thesis by (simp only: Inr inr sum.case seed_main_def Let_def rbind_simps ok simp_thms)
    qed (simp add: Inr inr)
  qed (simp add: Inr seed_main_def Let_def)
qed (simp add: seed_main_def Let_def)

end
