(* ===== verification/Bq_Extract.thy ===== *)
theory Bq_Extract
  imports Rpc_Client
begin

text \<open>
  \<open>ingestion/bq\<close>: the guarded BigQuery client, the statements and parameters of the extractors, and
  the conversion of rows to the canonical records. \<open>google.cloud.bigquery\<close> is a parameter: a job
  has an estimate of the bytes it scans and the rows of its result, both functions of the statement
  and the job configuration. A generator is the list it yields. Values of a row are dynamic; the
  \<open>Decimal\<close> of a NUMERIC column is the integer it holds.
\<close>

section \<open>The client (\<open>bq_client.py\<close>)\<close>

datatype query_param = ScalarParam string string pyval | ArrayParam string string "pyval list"

record QueryJobConfig =
  qj_dry_run :: bool
  qj_use_query_cache :: bool
  qj_query_parameters :: "query_param list"
  qj_labels :: "(string \<times> string) list"
  qj_maximum_bytes_billed :: "int option"

record BigQuery =
  job_total_bytes :: "string \<Rightarrow> QueryJobConfig \<Rightarrow> pyval res"
  job_rows :: "string \<Rightarrow> QueryJobConfig \<Rightarrow> int \<Rightarrow> pydict list res"
  job_to_arrow :: "string \<Rightarrow> QueryJobConfig \<Rightarrow> pydict list res"

record BQClient =
  bq_gcp_project :: string
  bq_location :: string
  bq_max_bytes_billed :: "int option"
  bq_labels :: "(string \<times> string) list"
  bq_client :: "BigQuery option"

datatype bq_error = BQCostError (cost_sql: string) (cost_estimate: int) (cost_limit: int) | OtherError py_err

definition DEFAULT_LABELS :: "(string \<times> string) list" where
  "DEFAULT_LABELS = [(''pipeline'', ''chainlink-economic-ledger''), (''owner'', ''data-engineering'')]"

definition new_client :: "string \<Rightarrow> string \<Rightarrow> int option \<Rightarrow> (string \<times> string) list \<Rightarrow> BQClient" where
  "new_client gcp_project location max_bytes_billed labels =
     \<lparr>bq_gcp_project = gcp_project, bq_location = location, bq_max_bytes_billed = max_bytes_billed,
      bq_labels = fold (\<lambda>(k, v). AList.update k v) labels DEFAULT_LABELS, bq_client = None\<rparr>"

text \<open>\<open>f"{n:,}"\<close>, and the message of the cost error.\<close>

fun group_digits :: "string \<Rightarrow> string" where
  \<comment> \<open>on the reversed digits\<close>
  "group_digits (a # b # c # d # ds) = a # b # c # CHR '','' # group_digits (d # ds)"
| "group_digits ds = ds"

definition show_grouped :: "int \<Rightarrow> string" where
  "show_grouped n = (if n < 0 then ''-'' else '''') @ rev (group_digits (rev (show_nat (nat \<bar>n\<bar>))))"

fun bq_error_message :: "bq_error \<Rightarrow> string" where
  "bq_error_message (BQCostError sql estimate limit) = ''query would scan '' @ show_grouped estimate
     @ '' bytes (> limit '' @ show_grouped limit @ ''). Narrow the predicate.''"
| "bq_error_message (OtherError e) = exc_str e"

definition get_client :: "(string \<Rightarrow> string \<Rightarrow> BigQuery) \<Rightarrow> BQClient \<Rightarrow> BigQuery \<times> BQClient" where
  "get_client connect self = (case bq_client self of
     Some c \<Rightarrow> (c, self)
   | None \<Rightarrow> let c = connect (bq_gcp_project self) (bq_location self) in (c, self\<lparr>bq_client := Some c\<rparr>))"

definition is_py_int :: "pyval \<Rightarrow> bool" where
  \<comment> \<open>\<open>isinstance(v, int)\<close>: a \<open>bool\<close> is one\<close>
  "is_py_int v = (case v of PInt _ \<Rightarrow> True | PBool _ \<Rightarrow> True | _ \<Rightarrow> False)"

definition query_param_of :: "string \<times> pyval \<Rightarrow> query_param" where
  "query_param_of p = (case p of (name, value) \<Rightarrow> (case value of
     PList [] \<Rightarrow> ArrayParam name ''STRING'' []
   | PList (sample # rest) \<Rightarrow> if is_py_int sample then ArrayParam name ''INT64'' (sample # rest)
       else ArrayParam name ''STRING'' (map (\<lambda>x. PStr (py_str x)) (sample # rest))
   | PStr s \<Rightarrow> ScalarParam name ''STRING'' (PStr s)
   | v \<Rightarrow> if is_py_int v then ScalarParam name ''INT64'' v else ScalarParam name ''STRING'' (PStr (py_str v))))"

definition build_query_params :: "pydict \<Rightarrow> query_param list" where
  "build_query_params query_params = map query_param_of query_params"

definition estimate_bytes :: "(string \<Rightarrow> string \<Rightarrow> BigQuery) \<Rightarrow> string \<Rightarrow> pydict \<Rightarrow> BQClient
    \<Rightarrow> (bq_error + int) \<times> BQClient" where
  "estimate_bytes connect sql query_params self =
     (let (client, self') = get_client connect self;
          job_config = \<lparr>qj_dry_run = True, qj_use_query_cache = False,
            qj_query_parameters = build_query_params query_params, qj_labels = bq_labels self,
            qj_maximum_bytes_billed = None\<rparr> in
      (case rbind (job_total_bytes client sql job_config) (\<lambda>b. py_int (py_or b (PInt 0))) of
         Inl e \<Rightarrow> Inl (OtherError e)
       | Inr estimate \<Rightarrow> (case bq_max_bytes_billed self of
           None \<Rightarrow> Inr estimate
         | Some limit \<Rightarrow> if estimate > limit then Inl (BQCostError sql estimate limit) else Inr estimate), self'))"

definition query_config :: "BQClient \<Rightarrow> pydict \<Rightarrow> QueryJobConfig" where
  "query_config self query_params =
     \<lparr>qj_dry_run = False, qj_use_query_cache = True, qj_query_parameters = build_query_params query_params,
      qj_labels = bq_labels self, qj_maximum_bytes_billed = bq_max_bytes_billed self\<rparr>"

definition query_iter :: "(string \<Rightarrow> string \<Rightarrow> BigQuery) \<Rightarrow> BQClient \<Rightarrow> string \<Rightarrow> pydict \<Rightarrow> int \<Rightarrow> pydict list res" where
  "query_iter connect self sql query_params page_size =
     (let (client, self') = get_client connect self in job_rows client sql (query_config self query_params) page_size)"

definition query_dataframe :: "(string \<Rightarrow> string \<Rightarrow> BigQuery) \<Rightarrow> BQClient \<Rightarrow> string \<Rightarrow> pydict \<Rightarrow> pydict list res" where
  "query_dataframe connect self sql query_params =
     (let (client, self') = get_client connect self in job_to_arrow client sql (query_config self query_params))"

section \<open>Rows to records\<close>

definition BQ_PUBLIC_DATASET :: string where
  "BQ_PUBLIC_DATASET = ''bigquery-public-data.crypto_ethereum''"

definition as_int :: "pyval \<Rightarrow> int res" where
  \<comment> \<open>with its default, zero\<close>
  "as_int v = (if v = PNone then Inr 0 else py_int (PStr (py_str v)))"

definition bq_as_list :: "pyval \<Rightarrow> pyval list" where
  "bq_as_list v = (case v of PNone \<Rightarrow> [] | PList xs \<Rightarrow> xs | PTuple xs \<Rightarrow> xs | _ \<Rightarrow> [v])"

definition opt_as_int :: "pydict \<Rightarrow> string \<Rightarrow> int option res" where
  "opt_as_int row k = (if dict_get row k = PNone then Inr None
     else rbind (as_int (dict_get row k)) (\<lambda>i. Inr (Some i)))"

definition bq_row_to_raw_log :: "pydict \<Rightarrow> int \<Rightarrow> RawLog res" where
  "bq_row_to_raw_log row chain_id =
     (let topics_field = bq_as_list (dict_get row ''topics'') in
      rbind (rbind (dict_index row ''block_number'') as_int) (\<lambda>block_number.
      rbind (dict_index row ''transaction_hash'') (\<lambda>tx_hash.
      rbind (as_int (dict_get row ''transaction_index'')) (\<lambda>tx_index.
      rbind (as_int (dict_get row ''log_index'')) (\<lambda>log_index.
      rbind (dict_index row ''address'') (\<lambda>address.
      Inr \<lparr>lg_chain_id = chain_id, lg_block_number = block_number,
        lg_block_hash = py_str (dict_get_or row ''block_hash'' (PStr '''')),
        lg_tx_hash = lower (py_str tx_hash), lg_tx_index = tx_index, lg_log_index = log_index,
        lg_address = lower (py_str address), lg_topics = map py_str topics_field,
        lg_data = py_str (dict_get_or row ''data'' (PStr ''0x''))\<rparr>))))))"

definition bq_row_to_header :: "int \<Rightarrow> pydict \<Rightarrow> BlockHeader res" where
  "bq_row_to_header chain_id row =
     rbind (index_int row ''number'') (\<lambda>number.
     rbind (dict_index row ''hash'') (\<lambda>block_hash.
     rbind (py_int (py_or (dict_get_or row ''ts'' (PInt 0)) (PInt 0))) (\<lambda>ts.
     rbind (opt_int row ''base_fee_per_gas'') (\<lambda>base_fee.
     Inr \<lparr>bh_chain_id = chain_id, bh_block_number = number, bh_block_hash = py_str block_hash,
       bh_parent_hash = py_str (dict_get_or row ''parent_hash'' (PStr '''')), bh_timestamp = ts,
       bh_miner = (if truthy (dict_get row ''miner'') then Some (py_str (dict_get row ''miner'')) else None),
       bh_base_fee_per_gas = base_fee\<rparr>))))"

definition row_to_transaction :: "pydict \<Rightarrow> int \<Rightarrow> Transaction res" where
  "row_to_transaction row chain_id =
     rbind (rbind (dict_index row ''block_number'') as_int) (\<lambda>block_number.
     rbind (dict_index row ''hash'') (\<lambda>tx_hash.
     rbind (as_int (dict_get row ''transaction_index'')) (\<lambda>tx_index.
     rbind (as_int (dict_get row ''value'')) (\<lambda>value.
     rbind (as_int (dict_get row ''gas'')) (\<lambda>gas.
     rbind (opt_as_int row ''gas_price'') (\<lambda>gas_price.
     rbind (opt_as_int row ''max_fee_per_gas'') (\<lambda>max_fee.
     rbind (opt_as_int row ''max_priority_fee_per_gas'') (\<lambda>max_priority_fee.
     rbind (as_int (dict_get row ''nonce'')) (\<lambda>nonce.
     Inr \<lparr>tx_chain_id = chain_id, tx_block_number = block_number,
       tx_block_hash = py_str (dict_get_or row ''block_hash'' (PStr '''')),
       tx_tx_hash = lower (py_str tx_hash), tx_tx_index = tx_index,
       tx_from_addr = lower (py_str (dict_get_or row ''from_address'' (PStr ''''))),
       tx_to_addr = (if truthy (dict_get row ''to_address'')
         then Some (lower (py_str (dict_get row ''to_address''))) else None),
       tx_value = value, tx_input_data = py_str (dict_get_or row ''input'' (PStr ''0x'')), tx_gas = gas,
       tx_gas_price = gas_price, tx_max_fee_per_gas = max_fee, tx_max_priority_fee_per_gas = max_priority_fee,
       tx_nonce = nonce\<rparr>)))))))))"

section \<open>Logs (\<open>log_extractor.py\<close>)\<close>

text \<open>An extractor runs one statement with named parameters through \<open>q\<close>, the \<open>query_iter\<close> of a client.\<close>

type_synonym query = "string \<Rightarrow> pydict \<Rightarrow> pydict list res"

definition lower_list :: "string list \<Rightarrow> pyval" where
  "lower_list addresses = PList (map (\<lambda>a. PStr (lower a)) addresses)"

definition fetch_logs_by_address :: "query \<Rightarrow> int \<Rightarrow> string list \<Rightarrow> int \<Rightarrow> int \<Rightarrow> (string + string list) option \<Rightarrow> RawLog list res" where
  "fetch_logs_by_address q chain_id addresses from_block to_block topic0 =
     (let sql_lines = [''SELECT block_number, block_hash, transaction_hash, transaction_index,'',
            ''       log_index, address, topics, data'',
            ''FROM `'' @ BQ_PUBLIC_DATASET @ ''.logs`'',
            ''WHERE block_number BETWEEN @from_block AND @to_block'',
            ''  AND address IN UNNEST(@addresses)''];
          params = [(''from_block'', PInt from_block), (''to_block'', PInt to_block),
            (''addresses'', lower_list addresses)];
          (lines, named) = (case topic0 of
            None \<Rightarrow> (sql_lines, params)
          | Some t \<Rightarrow> (sql_lines @ [''  AND topics[SAFE_OFFSET(0)] IN UNNEST(@topic0s)''],
              params @ [(''topic0s'', PList (map PStr (case t of Inl s \<Rightarrow> [s] | Inr ss \<Rightarrow> ss)))])) in
      rbind (q (join [CHR 0x0A] lines) named) (mapR (\<lambda>row. bq_row_to_raw_log row chain_id)))"

definition link_transfer_sql :: string where
  "link_transfer_sql = join [CHR 0x0A] [
     '''',
     ''        SELECT block_number, block_hash, transaction_hash, transaction_index,'',
     ''               log_index, address, topics, data'',
     ''        FROM `'' @ BQ_PUBLIC_DATASET @ ''.logs`'',
     ''        WHERE block_number BETWEEN @from_block AND @to_block'',
     ''          AND address = @link'',
     ''          AND topics[SAFE_OFFSET(0)] = @transfer_sig'',
     ''          AND ('',
     ''            CONCAT('0x', SUBSTR(topics[SAFE_OFFSET(1)], 27)) IN UNNEST(@cps)'',
     ''            OR CONCAT('0x', SUBSTR(topics[SAFE_OFFSET(2)], 27)) IN UNNEST(@cps)'',
     ''          )'',
     ''    '']"

definition fetch_link_transfer_logs :: "query \<Rightarrow> int \<Rightarrow> string \<Rightarrow> string list \<Rightarrow> int \<Rightarrow> int \<Rightarrow> RawLog list res" where
  "fetch_link_transfer_logs q chain_id link_token_address counterparty_addresses from_block to_block =
     rbind (q link_transfer_sql
       [(''from_block'', PInt from_block), (''to_block'', PInt to_block),
        (''link'', PStr (lower link_token_address)),
        (''transfer_sig'', PStr ''0xddf252ad1be2c89b69c2b068fc378daa952ba7f163c4a11628f55a4df523b3ef''),
        (''cps'', lower_list counterparty_addresses)])
       (mapR (\<lambda>row. bq_row_to_raw_log row chain_id))"

definition logs_for_tx_sql :: string where
  "logs_for_tx_sql = join [CHR 0x0A] [
     '''',
     ''        SELECT block_number, block_hash, transaction_hash, transaction_index,'',
     ''               log_index, address, topics, data'',
     ''        FROM `'' @ BQ_PUBLIC_DATASET @ ''.logs`'',
     ''        WHERE transaction_hash = @tx_hash'',
     ''          AND block_timestamp >= TIMESTAMP_SUB(CURRENT_TIMESTAMP(), INTERVAL 5 YEAR)'',
     ''        ORDER BY log_index ASC'',
     ''    '']"

definition fetch_logs_for_tx :: "query \<Rightarrow> int \<Rightarrow> string \<Rightarrow> RawLog list res" where
  "fetch_logs_for_tx q chain_id tx_hash =
     rbind (q logs_for_tx_sql [(''tx_hash'', PStr (lower tx_hash))])
       (mapR (\<lambda>row. bq_row_to_raw_log row chain_id))"

section \<open>Blocks, transactions, traces\<close>

definition blocks_in_range_sql :: string where
  "blocks_in_range_sql = join [CHR 0x0A] [
     '''',
     ''        SELECT number, hash, parent_hash, miner, UNIX_SECONDS(timestamp) AS ts,'',
     ''               base_fee_per_gas'',
     ''        FROM `'' @ BQ_PUBLIC_DATASET @ ''.blocks`'',
     ''        WHERE number BETWEEN @from_block AND @to_block'',
     ''        ORDER BY number ASC'',
     ''    '']"

definition fetch_blocks_in_range :: "query \<Rightarrow> int \<Rightarrow> int \<Rightarrow> int \<Rightarrow> BlockHeader list res" where
  "fetch_blocks_in_range q chain_id from_block to_block =
     rbind (q blocks_in_range_sql [(''from_block'', PInt from_block), (''to_block'', PInt to_block)])
       (mapR (bq_row_to_header chain_id))"

definition block_by_hash_sql :: string where
  "block_by_hash_sql = join [CHR 0x0A] [
     '''',
     ''        SELECT number, hash, parent_hash, miner, UNIX_SECONDS(timestamp) AS ts,'',
     ''               base_fee_per_gas'',
     ''        FROM `'' @ BQ_PUBLIC_DATASET @ ''.blocks`'',
     ''        WHERE hash = @block_hash'',
     ''          AND timestamp >= TIMESTAMP_SUB(CURRENT_TIMESTAMP(), INTERVAL 5 YEAR)'',
     ''        LIMIT 1'',
     ''    '']"

definition fetch_block_by_hash :: "query \<Rightarrow> int \<Rightarrow> string \<Rightarrow> BlockHeader option res" where
  "fetch_block_by_hash q chain_id block_hash =
     rbind (q block_by_hash_sql [(''block_hash'', PStr block_hash)]) (\<lambda>rows. case rows of
       [] \<Rightarrow> Inr None
     | row # _ \<Rightarrow> rbind (bq_row_to_header chain_id row) (\<lambda>h. Inr (Some h)))"

definition transactions_in_range_sql :: string where
  "transactions_in_range_sql = join [CHR 0x0A] [
     '''',
     ''        SELECT hash, block_number, block_hash, transaction_index,'',
     ''               from_address, to_address, value, gas, gas_price, input, nonce,'',
     ''               max_fee_per_gas, max_priority_fee_per_gas'',
     ''        FROM `'' @ BQ_PUBLIC_DATASET @ ''.transactions`'',
     ''        WHERE block_number BETWEEN @from_block AND @to_block'',
     ''        ORDER BY block_number, transaction_index'',
     ''    '']"

definition fetch_transactions_in_range :: "query \<Rightarrow> int \<Rightarrow> int \<Rightarrow> int \<Rightarrow> Transaction list res" where
  "fetch_transactions_in_range q chain_id from_block to_block =
     rbind (q transactions_in_range_sql [(''from_block'', PInt from_block), (''to_block'', PInt to_block)])
       (mapR (\<lambda>row. row_to_transaction row chain_id))"

definition transaction_by_hash_sql :: string where
  "transaction_by_hash_sql = join [CHR 0x0A] [
     '''',
     ''        SELECT hash, block_number, block_hash, transaction_index,'',
     ''               from_address, to_address, value, gas, gas_price, input, nonce,'',
     ''               max_fee_per_gas, max_priority_fee_per_gas'',
     ''        FROM `'' @ BQ_PUBLIC_DATASET @ ''.transactions`'',
     ''        WHERE hash = @tx_hash'',
     ''          AND block_timestamp >= TIMESTAMP_SUB(CURRENT_TIMESTAMP(), INTERVAL 5 YEAR)'',
     ''        LIMIT 1'',
     ''    '']"

definition fetch_transaction_by_hash :: "query \<Rightarrow> int \<Rightarrow> string \<Rightarrow> Transaction option res" where
  "fetch_transaction_by_hash q chain_id tx_hash =
     rbind (q transaction_by_hash_sql [(''tx_hash'', PStr (lower tx_hash))]) (\<lambda>rows. case rows of
       [] \<Rightarrow> Inr None
     | row # _ \<Rightarrow> rbind (row_to_transaction row chain_id) (\<lambda>t. Inr (Some t)))"

definition fetch_traces_by_to_address :: "query \<Rightarrow> int \<Rightarrow> string list \<Rightarrow> int \<Rightarrow> int \<Rightarrow> bool \<Rightarrow> pydict list res" where
  "fetch_traces_by_to_address q chain_id addresses from_block to_block successful_only =
     (let sql_lines = [''SELECT block_number, block_hash, block_timestamp,'',
            ''       transaction_hash, transaction_index, trace_address,'',
            ''       trace_type, call_type, from_address, to_address, value,'',
            ''       gas, gas_used, input, output, error, status, subtraces'',
            ''FROM `'' @ BQ_PUBLIC_DATASET @ ''.traces`'',
            ''WHERE block_number BETWEEN @from_block AND @to_block'',
            ''  AND to_address IN UNNEST(@addresses)'']
          @ (if successful_only then [''  AND status = 1''] else [])
          @ [''ORDER BY block_number, transaction_hash, ''
             @ ''ARRAY_LENGTH(SPLIT(trace_address, ',')), trace_address''] in
      q (join [CHR 0x0A] sql_lines)
        [(''from_block'', PInt from_block), (''to_block'', PInt to_block), (''addresses'', lower_list addresses)])"

definition traces_for_tx_sql :: string where
  "traces_for_tx_sql = join [CHR 0x0A] [
     '''',
     ''        SELECT block_number, block_hash, block_timestamp,'',
     ''               transaction_hash, transaction_index, trace_address,'',
     ''               trace_type, call_type, from_address, to_address, value,'',
     ''               gas, gas_used, input, output, error, status, subtraces'',
     ''        FROM `'' @ BQ_PUBLIC_DATASET @ ''.traces`'',
     ''        WHERE transaction_hash = @tx_hash'',
     ''          AND block_timestamp >= TIMESTAMP_SUB(CURRENT_TIMESTAMP(), INTERVAL 5 YEAR)'',
     ''        ORDER BY ARRAY_LENGTH(SPLIT(trace_address, ',')), trace_address'',
     ''    '']"

definition fetch_traces_for_tx :: "query \<Rightarrow> int \<Rightarrow> string \<Rightarrow> pydict list res" where
  "fetch_traces_for_tx q chain_id tx_hash = q traces_for_tx_sql [(''tx_hash'', PStr (lower tx_hash))]"

definition internal_transfers_sql :: string where
  "internal_transfers_sql = join [CHR 0x0A] [
     '''',
     ''        SELECT block_number, block_hash, transaction_hash, transaction_index,'',
     ''               trace_address, call_type, from_address, to_address, value,'',
     ''               input, output, error, status, gas, gas_used, subtraces'',
     ''        FROM `'' @ BQ_PUBLIC_DATASET @ ''.traces`'',
     ''        WHERE block_number BETWEEN @from_block AND @to_block'',
     ''          AND to_address = @link'',
     ''          AND status = 1'',
     ''          AND ('',
     ''            STARTS_WITH(input, '0xa9059cbb')'',
     ''            OR STARTS_WITH(input, '0x23b872dd')'',
     ''          )'',
     ''          AND transaction_hash IN ('',
     ''            SELECT transaction_hash'',
     ''            FROM `'' @ BQ_PUBLIC_DATASET @ ''.traces`'',
     ''            WHERE block_number BETWEEN @from_block AND @to_block'',
     ''              AND to_address IN UNNEST(@parents)'',
     ''              AND trace_address = '' @ [CHR 0x27, CHR 0x27],
     ''          )'',
     ''        ORDER BY block_number, transaction_hash,'',
     ''                 ARRAY_LENGTH(SPLIT(trace_address, ',')), trace_address'',
     ''    '']"

definition fetch_internal_link_transfers :: "query \<Rightarrow> int \<Rightarrow> string \<Rightarrow> string list \<Rightarrow> int \<Rightarrow> int \<Rightarrow> pydict list res" where
  "fetch_internal_link_transfers q chain_id link_token_address parent_addresses from_block to_block =
     q internal_transfers_sql
       [(''from_block'', PInt from_block), (''to_block'', PInt to_block),
        (''link'', PStr (lower link_token_address)), (''parents'', lower_list parent_addresses)]"

section \<open>Properties\<close>

text \<open>A log of the chain, and how the two sources hand it out: a node with byte strings and an address
  in any letter case, the public dataset with prefixed lower-case hexadecimal texts.\<close>

record ChainLog =
  cl_block_number :: int
  cl_block_hash :: "byte list"
  cl_tx_hash :: "byte list"
  cl_tx_index :: int
  cl_log_index :: int
  cl_address :: "byte list"
  cl_topics :: "byte list list"
  cl_data :: "byte list"

definition hex0x :: "byte list \<Rightarrow> string" where "hex0x bs = ''0x'' @ to_hex bs"

definition rpc_answer :: "ChainLog \<Rightarrow> string \<Rightarrow> pydict" where
  "rpc_answer l address = [(''address'', PStr address), (''topics'', PList (map PBytes (cl_topics l))),
     (''data'', PBytes (cl_data l)), (''blockNumber'', PInt (cl_block_number l)),
     (''transactionHash'', PBytes (cl_tx_hash l)), (''transactionIndex'', PInt (cl_tx_index l)),
     (''blockHash'', PBytes (cl_block_hash l)), (''logIndex'', PInt (cl_log_index l)), (''removed'', PBool False)]"

definition bq_row :: "ChainLog \<Rightarrow> pydict" where
  "bq_row l = [(''block_number'', PInt (cl_block_number l)), (''block_hash'', PStr (hex0x (cl_block_hash l))),
     (''transaction_hash'', PStr (hex0x (cl_tx_hash l))), (''transaction_index'', PInt (cl_tx_index l)),
     (''log_index'', PInt (cl_log_index l)), (''address'', PStr (hex0x (cl_address l))),
     (''topics'', PList (map (\<lambda>t. PStr (hex0x t)) (cl_topics l))), (''data'', PStr (hex0x (cl_data l)))]"

text \<open>The record of a log whose byte texts start with \<open>p\<close>: empty for the \<open>hexbytes\<close> the lock file names
  (its \<open>hex\<close> carries no prefix), \<open>0x\<close> for the versions before 1.0 and for the dataset. An address is
  a text in both sources.\<close>

definition log_record :: "string \<Rightarrow> int \<Rightarrow> ChainLog \<Rightarrow> RawLog" where
  "log_record p chain_id l =
     \<lparr>lg_chain_id = chain_id, lg_block_number = cl_block_number l, lg_block_hash = p @ to_hex (cl_block_hash l),
      lg_tx_hash = p @ to_hex (cl_tx_hash l), lg_tx_index = cl_tx_index l, lg_log_index = cl_log_index l,
      lg_address = hex0x (cl_address l), lg_topics = map (\<lambda>t. p @ to_hex t) (cl_topics l),
      lg_data = p @ to_hex (cl_data l)\<rparr>"

text \<open>What a request asks for: a range of blocks, the addresses in lower case, and a filter on the first
  topic; and the filter as an argument of \<open>eth_getLogs\<close>.\<close>

fun topic_texts :: "string + string list \<Rightarrow> string list" where
  "topic_texts (Inl s) = [s]"
| "topic_texts (Inr ss) = ss"

definition topic0_among :: "string list \<Rightarrow> ChainLog \<Rightarrow> bool" where
  "topic0_among ts l = (case cl_topics l of [] \<Rightarrow> False | t # _ \<Rightarrow> hex0x t \<in> set ts)"

definition asked_for :: "string list \<Rightarrow> int \<Rightarrow> int \<Rightarrow> (string + string list) option \<Rightarrow> ChainLog \<Rightarrow> bool" where
  "asked_for addresses from_block to_block topic0 l =
     (from_block \<le> cl_block_number l \<and> cl_block_number l \<le> to_block \<and> hex0x (cl_address l) \<in> set addresses
      \<and> (case topic0 of None \<Rightarrow> True | Some t \<Rightarrow> topic0_among (topic_texts t) l))"

definition rpc_topics :: "(string + string list) option \<Rightarrow> pyval" where
  "rpc_topics topic0 = PList (case topic0 of None \<Rightarrow> [] | Some (Inl s) \<Rightarrow> [PStr s]
     | Some (Inr ss) \<Rightarrow> [PList (map PStr ss)])"

text \<open>A node that serves a chain: it answers with the logs asked for, in the order of the chain, whatever
  the letter case of the request; an empty list of topics would match every log. A dataset that holds the chain: the statements of the
  extractors, in this text and with parameters of these names, select the rows their conditions name;
  the statement over a range has no \<open>ORDER BY\<close>, so its rows come in any order.\<close>

definition node_serves :: "Web3 \<Rightarrow> (ChainLog \<Rightarrow> string) \<Rightarrow> ChainLog list \<Rightarrow> bool" where
  "node_serves w3 address_text chain = (\<forall>pools from_block to_block topic0. topic0 \<noteq> Some (Inr []) \<longrightarrow>
     w3_get_logs w3 pools (rpc_topics topic0) from_block to_block =
       Inr (map (\<lambda>l. rpc_answer l (address_text l)) (filter (asked_for (map lower pools) from_block to_block
         (map_option (\<lambda>t. Inr (map lower (topic_texts t))) topic0)) chain)))"

definition range_statement :: "bool \<Rightarrow> string" where
  "range_statement with_topic = join [CHR 0x0A] (
     [''SELECT block_number, block_hash, transaction_hash, transaction_index,'',
      ''       log_index, address, topics, data'',
      ''FROM `bigquery-public-data.crypto_ethereum.logs`'',
      ''WHERE block_number BETWEEN @from_block AND @to_block'',
      ''  AND address IN UNNEST(@addresses)'']
     @ (if with_topic then [''  AND topics[SAFE_OFFSET(0)] IN UNNEST(@topic0s)''] else []))"

definition tx_statement :: string where
  "tx_statement = join [CHR 0x0A] ['''',
     ''        SELECT block_number, block_hash, transaction_hash, transaction_index,'',
     ''               log_index, address, topics, data'',
     ''        FROM `bigquery-public-data.crypto_ethereum.logs`'',
     ''        WHERE transaction_hash = @tx_hash'',
     ''          AND block_timestamp >= TIMESTAMP_SUB(CURRENT_TIMESTAMP(), INTERVAL 5 YEAR)'',
     ''        ORDER BY log_index ASC'',
     ''    '']"

definition texts :: "string list \<Rightarrow> pyval" where "texts ss = PList (map PStr ss)"

definition dataset_holds :: "query \<Rightarrow> (ChainLog \<Rightarrow> bool) \<Rightarrow> ChainLog list \<Rightarrow> bool" where
  "dataset_holds q recent chain =
     ((\<forall>from_block to_block addresses. \<exists>ls. mset ls = mset (filter (asked_for addresses from_block to_block None) chain)
        \<and> q (range_statement False) [(''from_block'', PInt from_block), (''to_block'', PInt to_block),
            (''addresses'', texts addresses)] = Inr (map bq_row ls))
    \<and> (\<forall>from_block to_block addresses topics.
        \<exists>ls. mset ls = mset (filter (asked_for addresses from_block to_block (Some (Inr topics))) chain)
        \<and> q (range_statement True) [(''from_block'', PInt from_block), (''to_block'', PInt to_block),
            (''addresses'', texts addresses), (''topic0s'', texts topics)] = Inr (map bq_row ls))
    \<and> (\<forall>tx_hash. q tx_statement [(''tx_hash'', PStr tx_hash)] =
        Inr (map bq_row (sort_key cl_log_index (filter (\<lambda>l. hex0x (cl_tx_hash l) = tx_hash \<and> recent l) chain)))))"

lemma lower_hex0x [simp]: "lower (hex0x bs) = hex0x bs"
proof -
  have "lower ''0x'' = ''0x''" by code_simp
  then show ?thesis unfolding hex0x_def lower_append lower_to_hex by simp
qed

lemma as_int_simps [simp]: "as_int (PInt i) = Inr i" "as_int PNone = Inr 0"
  by (simp_all add: as_int_def)

lemma bq_log_conversion: "bq_row_to_raw_log (bq_row l) chain_id = Inr (log_record ''0x'' chain_id l)"
  by (simp add: bq_row_to_raw_log_def bq_row_def dict_get_def dict_index_def dict_get_or_def bq_as_list_def
      log_record_def hex0x_def [symmetric] comp_def Let_def del: append.simps)

lemma bq_rows_conversion:
  "mapR (\<lambda>row. bq_row_to_raw_log row chain_id) (map bq_row ls) = Inr (map (log_record ''0x'' chain_id) ls)"
  unfolding mapR_map by (rule mapR_total) (rule bq_log_conversion)

lemma rpc_log_conversion:
  assumes "hex_of w3 = (\<lambda>bs. p @ to_hex bs)" "lower address = hex0x (cl_address l)"
  shows "raw_log_of w3 chain_id (rpc_answer l address) = Inr (log_record p chain_id l)"
  using assms by (simp add: raw_log_of_def rpc_answer_def index_int_def index_hex_def dict_index_def hex_or_str_def
      as_list_def log_record_def comp_def)

lemma node_logs:
  assumes "hex_of w3 = (\<lambda>bs. p @ to_hex bs)" "w3_chain_id w3 = Inr (PInt chain_id)" "node_serves w3 address_text chain"
    and "\<forall>l \<in> set chain. lower (address_text l) = hex0x (cl_address l)" "topic0 \<noteq> Some (Inr [])"
  shows "client_get_logs w3 (Inr pools) (rpc_topics topic0) from_block to_block =
    Inr (map (log_record p chain_id) (filter (asked_for (map lower pools) from_block to_block
      (map_option (\<lambda>t. Inr (map lower (topic_texts t))) topic0)) chain))"
proof -
  let ?ls = "filter (asked_for (map lower pools) from_block to_block
    (map_option (\<lambda>t. Inr (map lower (topic_texts t))) topic0)) chain"
  have "mapR (raw_log_of w3 chain_id) (map (\<lambda>l. rpc_answer l (address_text l)) ls) = Inr (map (log_record p chain_id) ls)"
    if "set ls \<subseteq> set chain" for ls
    using that assms(4) by (induction ls) (simp_all add: rpc_log_conversion [OF assms(1)])
  from this [of ?ls] show ?thesis
    using assms(2,3,5) by (simp add: client_get_logs_def get_chain_id_def node_serves_def filter_is_subset)
qed

lemma fetched_logs:
  assumes "dataset_holds q recent chain"
  shows "\<exists>ls. mset ls = mset (filter (asked_for (map lower pools) from_block to_block topic0) chain)
    \<and> fetch_logs_by_address q chain_id pools from_block to_block topic0 = Inr (map (log_record ''0x'' chain_id) ls)"
proof -
  have low: "lower_list pools = texts (map lower pools)" by (simp add: lower_list_def texts_def)
  show ?thesis
  proof (cases topic0)
    case None
    from assms obtain ls where ls: "mset ls = mset (filter (asked_for (map lower pools) from_block to_block None) chain)"
      "q (range_statement False) [(''from_block'', PInt from_block), (''to_block'', PInt to_block),
        (''addresses'', texts (map lower pools))] = Inr (map bq_row ls)"
      unfolding dataset_holds_def by blast
    from ls(2) have "fetch_logs_by_address q chain_id pools from_block to_block None = Inr (map (log_record ''0x'' chain_id) ls)"
      by (simp add: fetch_logs_by_address_def range_statement_def BQ_PUBLIC_DATASET_def low bq_rows_conversion del: join.simps)
    with ls(1) None show ?thesis by blast
  next
    case (Some t)
    have t: "(case t of Inl s \<Rightarrow> [s] | Inr ss \<Rightarrow> ss) = topic_texts t" by (cases t) simp_all
    have a: "asked_for addresses from_block to_block (Some (Inr (topic_texts t))) = asked_for addresses from_block to_block (Some t)"
      for addresses by (rule ext) (simp add: asked_for_def)
    from assms obtain ls where ls: "mset ls = mset (filter (asked_for (map lower pools) from_block to_block (Some t)) chain)"
      "q (range_statement True) [(''from_block'', PInt from_block), (''to_block'', PInt to_block),
        (''addresses'', texts (map lower pools)), (''topic0s'', texts (topic_texts t))] = Inr (map bq_row ls)"
      unfolding dataset_holds_def a [symmetric] by blast
    from ls(2) have "fetch_logs_by_address q chain_id pools from_block to_block (Some t) = Inr (map (log_record ''0x'' chain_id) ls)"
      by (simp add: fetch_logs_by_address_def range_statement_def BQ_PUBLIC_DATASET_def low t texts_def bq_rows_conversion
        del: join.simps)
    with ls(1) Some show ?thesis by blast
  qed
qed

lemma fetched_tx_logs:
  assumes "dataset_holds q recent chain"
  shows "fetch_logs_for_tx q chain_id tx_hash = Inr (map (log_record ''0x'' chain_id)
    (sort_key cl_log_index (filter (\<lambda>l. hex0x (cl_tx_hash l) = lower tx_hash \<and> recent l) chain)))"
proof -
  have "logs_for_tx_sql = tx_statement"
    unfolding logs_for_tx_sql_def tx_statement_def BQ_PUBLIC_DATASET_def by (simp del: join.simps)
  with assms show ?thesis by (simp add: fetch_logs_for_tx_def dataset_holds_def bq_rows_conversion)
qed

text \<open>The prefix decides: the records of one log carry the same texts exactly when the node's have it, and
  without it the keys its identifiers are hashed from differ.\<close>

lemma record_prefix:
  "log_record p chain_id l = log_record ''0x'' chain_id l \<longleftrightarrow> p = ''0x''"
  "raw_log_fields (log_record '''' chain_id l) \<noteq> raw_log_fields (log_record ''0x'' chain_id l)"
proof -
  show "log_record p chain_id l = log_record ''0x'' chain_id l \<longleftrightarrow> p = ''0x''"
    by (auto simp: log_record_def simp del: append.simps)
  have "lower ''0x'' = ''0x''" by code_simp
  then have low: "lower (''0x'' @ to_hex bs) = ''0x'' @ to_hex bs" "lower ([] @ to_hex bs) = to_hex bs" for bs
    by (simp_all only: lower_append lower_to_hex append_Nil)
  show "raw_log_fields (log_record '''' chain_id l) \<noteq> raw_log_fields (log_record ''0x'' chain_id l)"
    unfolding raw_log_fields_def log_record_def RawLog.simps low by simp
qed


text \<open>Two logs of one transaction, one of them of a pool, on a node and in a dataset that evaluates the two
  statements.\<close>

definition sample_chain :: "ChainLog list" where
  "sample_chain = [\<lparr>cl_block_number = 7, cl_block_hash = [1], cl_tx_hash = [0xAB], cl_tx_index = 0, cl_log_index = 2,
     cl_address = [0xCD], cl_topics = [[3]], cl_data = []\<rparr>,
   \<lparr>cl_block_number = 7, cl_block_hash = [1], cl_tx_hash = [0xAB], cl_tx_index = 0, cl_log_index = 1,
     cl_address = [0xEE], cl_topics = [], cl_data = [9]\<rparr>]"

definition sample_texts :: "pyval \<Rightarrow> string list" where
  "sample_texts v = (case v of PList vs \<Rightarrow> map (\<lambda>v. case v of PStr s \<Rightarrow> s | _ \<Rightarrow> '''') vs | _ \<Rightarrow> [])"

lemma sample_texts_texts [simp]: "sample_texts (texts ss) = ss"
  by (simp add: sample_texts_def texts_def comp_def)

definition sample_rows :: "(ChainLog \<Rightarrow> bool) \<Rightarrow> pydict list res" where
  "sample_rows sel = Inr (map bq_row (filter sel sample_chain))"

definition sample_dataset :: query where
  "sample_dataset sql ps = (case ps of
     [(_, PInt b), (_, PInt e), (_, as)] \<Rightarrow> sample_rows (asked_for (sample_texts as) b e None)
   | [(_, PInt b), (_, PInt e), (_, as), (_, ts)] \<Rightarrow>
       sample_rows (asked_for (sample_texts as) b e (Some (Inr (sample_texts ts))))
   | [(_, PStr h)] \<Rightarrow> Inr (map bq_row (sort_key cl_log_index (filter (\<lambda>l. hex0x (cl_tx_hash l) = h) sample_chain)))
   | _ \<Rightarrow> Inl (Raise ExternalError ''bad request''))"

definition sample_topics :: "pyval \<Rightarrow> (string + string list) option" where
  "sample_topics v = (case v of PList [] \<Rightarrow> None | PList [PStr s] \<Rightarrow> Some (Inr [lower s])
     | PList [ts] \<Rightarrow> Some (Inr (map lower (sample_texts ts))) | _ \<Rightarrow> None)"

definition sample_source :: Web3 where
  "sample_source = sample_web3\<lparr>w3_get_logs := \<lambda>pools topics b e. Inr (map (\<lambda>l. rpc_answer l (hex0x (cl_address l)))
     (filter (asked_for (map lower pools) b e (sample_topics topics)) sample_chain))\<rparr>"

lemma sample_source_serves: "node_serves sample_source (\<lambda>l. hex0x (cl_address l)) sample_chain"
  unfolding node_serves_def
proof (intro allI impI)
  fix pools from_block to_block and topic0 :: "(string + string list) option"
  assume "topic0 \<noteq> Some (Inr [])"
  then have "sample_topics (rpc_topics topic0) = map_option (\<lambda>t. Inr (map lower (topic_texts t))) topic0"
    using sample_texts_texts by (auto simp: sample_topics_def rpc_topics_def texts_def split: option.split sum.split)
  then show "w3_get_logs sample_source pools (rpc_topics topic0) from_block to_block =
      Inr (map (\<lambda>l. rpc_answer l (hex0x (cl_address l))) (filter (asked_for (map lower pools) from_block to_block
        (map_option (\<lambda>t. Inr (map lower (topic_texts t))) topic0)) sample_chain))"
    by (simp add: sample_source_def)
qed

lemma sample_dataset_holds: "dataset_holds sample_dataset (\<lambda>l. True) sample_chain"
  by (fastforce simp: dataset_holds_def sample_dataset_def sample_rows_def simp flip: mset_filter)


text \<open>The rows of calls to given addresses alone do not make a tree: the frame of the transaction itself
  is among them only when it called one of the addresses.\<close>

lemma filtered_traces_have_no_root:
  assumes "rows \<noteq> []" "mapR (row_to_raw_trace chain_id) rows = Inr fs" "list_all (\<lambda>f. tf_trace_address f \<noteq> []) fs"
  shows "\<exists>m. build_call_tree rows chain_id = Inl (Raise ValueError m)"
proof -
  have "\<not> rows_ok fs" using assms(3) by (auto simp: rows_ok_def list_all_iff)
  with assms(1,2) tree_of_frames_bad [of fs] show ?thesis by (auto simp: build_call_tree_def)
qed

text \<open>A NULL column read through \<open>str(row.get(k, default))\<close> is the text \<open>None\<close>, not the default.\<close>

lemma null_block_hash_is_none_text:
  assumes "bq_row_to_raw_log row chain_id = Inr r" "map_of row ''block_hash'' = Some PNone"
  shows "lg_block_hash r = ''None''"
  using assms by (auto simp: bq_row_to_raw_log_def dict_get_or_def rbind_Inr Let_def)

text \<open>Within the limit or refused: what the estimate of a statement answers when a limit is set.\<close>

lemma estimate_within_limit:
  assumes "estimate_bytes connect sql ps self = (r, self')" "bq_max_bytes_billed self = Some limit"
  shows "(case r of Inr n \<Rightarrow> n \<le> limit | Inl (BQCostError s n m) \<Rightarrow> s = sql \<and> m = limit \<and> limit < n | Inl (OtherError e) \<Rightarrow> True)
    \<and> bq_client self' \<noteq> None"
  using assms by (auto simp: estimate_bytes_def get_client_def Let_def split: sum.splits option.splits if_splits)

end
