(* ===== verification/Parity_Check.thy ===== *)
theory Parity_Check
  imports Evm_Types
begin

text \<open>
  \<open>databricks/notebooks/parity_check.py\<close>: the comparison of the ledger mart in BigQuery with its copy
  in Delta. A table is the list of its \<open>amount_link\<close> values, \<open>None\<close> for a NULL, which the sum skips;
  the sum of no value is NULL, which counts as zero. Spark and its readers are the parameter that
  yields the two tables.
\<close>

record ParityResult =
  py_mart :: string
  py_rows_bq :: int
  py_rows_delta :: int
  py_total_amount_bq :: int
  py_total_amount_delta :: int
  py_rows_diff :: int
  py_amount_diff :: int
  py_passed :: bool

type_synonym mart_table = "int option list"

definition table_total :: "mart_table \<Rightarrow> int" where
  \<comment> \<open>\<open>int(row["t"] or 0)\<close> of \<open>SUM(amount_link)\<close>\<close>
  "table_total t = sum_list (List.map_filter id t)"

definition assertion_error :: "string \<Rightarrow> 'a res" where
  "assertion_error msg = Inl (Raise AssertionError msg)"

definition compute_parity_for_ledger_entries :: "(string \<Rightarrow> mart_table res) \<Rightarrow> (string \<Rightarrow> mart_table res)
    \<Rightarrow> string \<Rightarrow> string \<Rightarrow> int \<Rightarrow> int \<Rightarrow> ParityResult res" where
  "compute_parity_for_ledger_entries load_bq load_delta bq_table delta_table tolerance_rows tolerance_amount =
     rbind (load_bq bq_table) (\<lambda>bq_df.
     rbind (load_delta delta_table) (\<lambda>delta_df.
       let rows_bq = int (length bq_df); rows_delta = int (length delta_df);
           total_bq = table_total bq_df; total_delta = table_total delta_df;
           rows_diff = rows_bq - rows_delta; amount_diff = total_bq - total_delta;
           result = \<lparr>py_mart = ''ledger_entries'', py_rows_bq = rows_bq, py_rows_delta = rows_delta,
             py_total_amount_bq = total_bq, py_total_amount_delta = total_delta, py_rows_diff = rows_diff,
             py_amount_diff = amount_diff,
             py_passed = (\<bar>rows_diff\<bar> \<le> tolerance_rows \<and> \<bar>amount_diff\<bar> \<le> tolerance_amount)\<rparr> in
       if rows_diff \<noteq> 0 then assertion_error (''ledger_entries row count diff: '' @ show_int rows_diff)
       else if amount_diff \<noteq> 0 then assertion_error (''ledger_entries amount diff: '' @ show_int amount_diff)
       else Inr result))"

definition compute_parity_for_all_marts :: "(string \<Rightarrow> mart_table res) \<Rightarrow> (string \<Rightarrow> mart_table res)
    \<Rightarrow> string \<Rightarrow> string \<Rightarrow> ParityResult list res" where
  "compute_parity_for_all_marts load_bq load_delta bq_dataset delta_root =
     rbind (compute_parity_for_ledger_entries load_bq load_delta (bq_dataset @ ''.ledger_entries'')
       (delta_root @ ''/ledger_entries'') 0 0) (\<lambda>r. Inr [r])"

text \<open>The cell the notebook runs: the two roots come from the environment, each result is printed on a
  line, and any exception is printed in the place of the results. The value is what it prints.\<close>

definition show_bool :: "bool \<Rightarrow> string" where
  "show_bool b = (if b then ''True'' else ''False'')"

definition parity_line :: "ParityResult \<Rightarrow> string" where
  "parity_line r = ''PARITY '' @ py_mart r @ '': rows_bq='' @ show_int (py_rows_bq r) @ '' rows_delta='' @ show_int (py_rows_delta r)
     @ '' amount_diff='' @ show_int (py_amount_diff r) @ '' passed='' @ show_bool (py_passed r)"

definition parity_main :: "(string \<Rightarrow> mart_table res) \<Rightarrow> (string \<Rightarrow> mart_table res) \<Rightarrow> (string \<rightharpoonup> string) \<Rightarrow> string list" where
  "parity_main load_bq load_delta environ =
     (let bq_dataset = (case environ ''BQ_DATASET_MARTS'' of Some s \<Rightarrow> s | None \<Rightarrow> ''demo.staking_marts'');
          delta_root = (case environ ''DELTA_ROOT'' of Some s \<Rightarrow> s | None \<Rightarrow> ''/tmp/delta/staking'') in
      case compute_parity_for_all_marts load_bq load_delta bq_dataset delta_root of
        Inr results \<Rightarrow> map parity_line results
      | Inl e \<Rightarrow> [''parity check could not run (expected outside Databricks): '' @ exc_msg e])"

section \<open>What the check decides\<close>

text \<open>The job succeeds exactly when the two tables have as many rows and the same total; the
  tolerances have no say in it, and what succeeds has passed whenever they are not negative.\<close>

theorem parity_decides:
  assumes "load_bq b = Inr x" "load_delta d = Inr y"
  shows "(\<exists>r. compute_parity_for_ledger_entries load_bq load_delta b d tr ta = Inr r)
      = (length x = length y \<and> table_total x = table_total y)
    \<and> (case compute_parity_for_ledger_entries load_bq load_delta b d tr ta of
         Inl e \<Rightarrow> exc_class e = AssertionError
       | Inr r \<Rightarrow> py_passed r = (0 \<le> tr \<and> 0 \<le> ta) \<and> py_rows_bq r = int (length x) \<and> py_total_amount_delta r = table_total y)"
  by (simp add: compute_parity_for_ledger_entries_def assms assertion_error_def Let_def)

text \<open>A difference within the tolerance still fails the job, and tables that differ row by row pass
  when their count and total agree.\<close>

lemma tolerance_ignored:
  "\<exists>e. compute_parity_for_ledger_entries (\<lambda>_. Inr [Some 5]) (\<lambda>_. Inr [Some 4]) b d 0 10 = Inl e"
  "\<exists>r. compute_parity_for_ledger_entries (\<lambda>_. Inr [Some 5, Some 1]) (\<lambda>_. Inr [Some 4, Some 2]) b d 0 0 = Inr r \<and> py_passed r"
  by (simp_all add: compute_parity_for_ledger_entries_def assertion_error_def table_total_def map_filter_simps Let_def)

text \<open>The cell ends normally on every input, and prints one line, which reads \<open>passed=True\<close> exactly
  when the tables agree: a difference is reported as a check that could not run, and does not fail the
  job.\<close>

theorem parity_main_line:
  assumes "load_bq ''demo.staking_marts.ledger_entries'' = Inr x" "load_delta ''/tmp/delta/staking/ledger_entries'' = Inr y"
  shows "parity_main load_bq load_delta Map.empty =
    [if length x \<noteq> length y then ''parity check could not run (expected outside Databricks): ledger_entries row count diff: ''
         @ show_int (int (length x) - int (length y))
     else if table_total x \<noteq> table_total y then ''parity check could not run (expected outside Databricks): ledger_entries amount diff: ''
         @ show_int (table_total x - table_total y)
     else ''PARITY ledger_entries: rows_bq='' @ show_int (int (length x)) @ '' rows_delta='' @ show_int (int (length x))
         @ '' amount_diff='' @ show_int 0 @ '' passed=True'']"
  using assms
  by (auto simp: parity_main_def compute_parity_for_all_marts_def compute_parity_for_ledger_entries_def
      assertion_error_def parity_line_def show_bool_def Let_def)

lemma parity_difference_swallowed:
  "parity_main (\<lambda>_. Inr [Some 5]) (\<lambda>_. Inr [Some 4]) Map.empty
     = [''parity check could not run (expected outside Databricks): ledger_entries amount diff: 1'']"
  by code_simp

end
