(* ===== verification/Sql_Merge.thy ===== *)
theory Sql_Merge
  imports Prelude
begin

text \<open>
  The \<open>MERGE\<close> statement of \<open>storage/bigquery_loader.py\<close>: its parts and its text, and a reader of the
  documented syntax of such statements. BigQuery runs a text, so what the merge promises rests on what
  the text says: the reader takes a text apart and finds the parts it was written from.
\<close>

section \<open>The statement and its text\<close>

text \<open>The parts of a \<open>MERGE\<close> statement: the columns of its condition, those it updates, and those it
  inserts; and its text.\<close>

record MergeStmt =
  ms_source :: string
  ms_target :: string
  ms_on :: "string list"
  ms_update :: "string list"
  ms_insert :: "string list"

definition merge_stmt :: "string \<Rightarrow> string \<Rightarrow> string list \<Rightarrow> string list \<Rightarrow> MergeStmt" where
  "merge_stmt staging_table target_table merge_keys columns =
     \<lparr>ms_source = staging_table, ms_target = target_table, ms_on = merge_keys,
      ms_update = filter (\<lambda>c. c \<notin> set merge_keys) columns, ms_insert = columns\<rparr>"

definition merge_sql :: "MergeStmt \<Rightarrow> string" where
  "merge_sql stmt =
     (let eq = (\<lambda>c. ''T.'' @ c @ '' = S.'' @ c);
          q = [CHR 0x60];
          on_clause = join '' AND '' (map eq (ms_on stmt));
          update_clause = join '', '' (map eq (ms_update stmt));
          insert_columns = join '', '' (ms_insert stmt);
          insert_values = join '', '' (map (\<lambda>c. ''S.'' @ c) (ms_insert stmt)) in
      ''MERGE '' @ q @ ms_target stmt @ q @ '' T USING '' @ q @ ms_source stmt @ q @ '' S ON '' @ on_clause
      @ '' WHEN MATCHED THEN UPDATE SET '' @ update_clause
      @ '' WHEN NOT MATCHED THEN INSERT ('' @ insert_columns @ '') VALUES ('' @ insert_values @ '')'')"

section \<open>Tokens\<close>

datatype sql_token = Word string | Quoted string | Sym char

definition ident_char :: "char \<Rightarrow> bool" where
  "ident_char c = (let n = (of_char c :: nat) in 48 \<le> n \<and> n \<le> 57 \<or> 65 \<le> n \<and> n \<le> 90 \<or> n = 95 \<or> 97 \<le> n \<and> n \<le> 122)"

function sql_lex :: "string \<Rightarrow> sql_token list option" where
  "sql_lex [] = Some []"
| "sql_lex (c # s) =
     (if is_ws c then sql_lex s
      else if c = CHR 0x60 then (case dropWhile (\<lambda>x. x \<noteq> CHR 0x60) s of [] \<Rightarrow> None
        | _ # r \<Rightarrow> map_option ((#) (Quoted (takeWhile (\<lambda>x. x \<noteq> CHR 0x60) s))) (sql_lex r))
      else if ident_char c then map_option ((#) (Word (c # takeWhile ident_char s))) (sql_lex (dropWhile ident_char s))
      else if c \<in> set ''.,()='' then map_option ((#) (Sym c)) (sql_lex s)
      else None)"
  by pat_completeness auto
termination
proof (relation "measure length", goal_cases)
  case (3 c s x r)
  have "length (dropWhile (\<lambda>x. x \<noteq> CHR 0x60) s) \<le> length s" by (rule length_dropWhile_le)
  with 3 show ?case by simp
qed (auto simp: le_imp_less_Suc length_dropWhile_le)

declare sql_lex.simps(2) [simp del]

text \<open>A column name that needs no quotes: letters, digits and underscores, no digit first, none of the
  reserved words.\<close>

definition reserved_words :: "string list" where
  "reserved_words = [''ALL'', ''AND'', ''ANY'', ''ARRAY'', ''AS'', ''ASC'', ''ASSERT_ROWS_MODIFIED'', ''AT'', ''BETWEEN'',
     ''BY'', ''CASE'', ''CAST'', ''COLLATE'', ''CONTAINS'', ''CREATE'', ''CROSS'', ''CUBE'', ''CURRENT'', ''DEFAULT'',
     ''DEFINE'', ''DESC'', ''DISTINCT'', ''ELSE'', ''END'', ''ENUM'', ''ESCAPE'', ''EXCEPT'', ''EXCLUDE'', ''EXISTS'',
     ''EXTRACT'', ''FALSE'', ''FETCH'', ''FOLLOWING'', ''FOR'', ''FROM'', ''FULL'', ''GROUP'', ''GROUPING'', ''GROUPS'',
     ''HASH'', ''HAVING'', ''IF'', ''IGNORE'', ''IN'', ''INNER'', ''INTERSECT'', ''INTERVAL'', ''INTO'', ''IS'', ''JOIN'',
     ''LATERAL'', ''LEFT'', ''LIKE'', ''LIMIT'', ''LOOKUP'', ''MERGE'', ''NATURAL'', ''NEW'', ''NO'', ''NOT'', ''NULL'',
     ''NULLS'', ''OF'', ''ON'', ''OR'', ''ORDER'', ''OUTER'', ''OVER'', ''PARTITION'', ''PRECEDING'', ''PROTO'', ''QUALIFY'',
     ''RANGE'', ''RECURSIVE'', ''RESPECT'', ''RIGHT'', ''ROLLUP'', ''ROWS'', ''SELECT'', ''SET'', ''SOME'', ''STRUCT'',
     ''TABLESAMPLE'', ''THEN'', ''TO'', ''TREAT'', ''TRUE'', ''UNBOUNDED'', ''UNION'', ''UNNEST'', ''USING'', ''WHEN'',
     ''WHERE'', ''WINDOW'', ''WITH'', ''WITHIN'']"

definition column_name :: "string \<Rightarrow> bool" where
  "column_name c = (c \<noteq> '''' \<and> list_all ident_char c \<and> \<not> is_digit (hd c) \<and> map upper_char c \<notin> set reserved_words)"

section \<open>The reader\<close>

text \<open>\<open>T.c = S.c\<close>; one or more of something with a separator between them; and the statement. A text that is
  not of this form is not read.\<close>

definition eq_tokens :: "string \<Rightarrow> sql_token list" where
  "eq_tokens c = [Word ''T'', Sym CHR ''.'', Word c, Sym CHR ''='', Word ''S'', Sym CHR ''.'', Word c]"

definition source_tokens :: "string \<Rightarrow> sql_token list" where
  "source_tokens c = [Word ''S'', Sym CHR ''.'', Word c]"

definition read_form :: "(string \<Rightarrow> sql_token list) \<Rightarrow> nat \<Rightarrow> sql_token list \<Rightarrow> (string \<times> sql_token list) option" where
  \<comment> \<open>the tokens of a column, whose name stands at a given place among them\<close>
  "read_form form k ts = (case drop k ts of Word c # _ \<Rightarrow>
       if column_name c \<and> take (length (form c)) ts = form c then Some (c, drop (length (form c)) ts) else None
     | _ \<Rightarrow> None)"

function read_some :: "(sql_token list \<Rightarrow> ('a \<times> sql_token list) option) \<Rightarrow> sql_token \<Rightarrow> sql_token list
    \<Rightarrow> ('a list \<times> sql_token list) option" where
  "read_some p sep ts = (case p ts of None \<Rightarrow> None
     | Some (x, []) \<Rightarrow> Some ([x], [])
     | Some (x, t # rest) \<Rightarrow>
         if t = sep \<and> length rest < length ts then map_option (apfst ((#) x)) (read_some p sep rest)
         else Some ([x], t # rest))"
  by pat_completeness auto
termination by (relation "measure (\<lambda>(p, sep, ts). length ts)") auto

declare read_some.simps [simp del]

definition expect :: "sql_token list \<Rightarrow> sql_token list \<Rightarrow> sql_token list option" where
  "expect pre ts = (if take (length pre) ts = pre then Some (drop (length pre) ts) else None)"

definition read_quoted :: "sql_token list \<Rightarrow> (string \<times> sql_token list) option" where
  "read_quoted ts = (case ts of Quoted q # rest \<Rightarrow> Some (q, rest) | _ \<Rightarrow> None)"

definition read_merge_tokens :: "sql_token list \<Rightarrow> MergeStmt option" where
  "read_merge_tokens ts =
     Option.bind (expect [Word ''MERGE''] ts) (\<lambda>ts.
     Option.bind (read_quoted ts) (\<lambda>(target, ts).
     Option.bind (expect [Word ''T'', Word ''USING''] ts) (\<lambda>ts.
     Option.bind (read_quoted ts) (\<lambda>(source, ts).
     Option.bind (expect [Word ''S'', Word ''ON''] ts) (\<lambda>ts.
     Option.bind (read_some (read_form eq_tokens 2) (Word ''AND'') ts) (\<lambda>(keys, ts).
     Option.bind (expect [Word ''WHEN'', Word ''MATCHED'', Word ''THEN'', Word ''UPDATE'', Word ''SET''] ts) (\<lambda>ts.
     Option.bind (read_some (read_form eq_tokens 2) (Sym CHR '','') ts) (\<lambda>(updated, ts).
     Option.bind (expect [Word ''WHEN'', Word ''NOT'', Word ''MATCHED'', Word ''THEN'', Word ''INSERT'', Sym CHR ''('' ] ts) (\<lambda>ts.
     Option.bind (read_some (read_form (\<lambda>c. [Word c]) 0) (Sym CHR '','') ts) (\<lambda>(columns, ts).
     Option.bind (expect [Sym CHR '')'', Word ''VALUES'', Sym CHR ''(''] ts) (\<lambda>ts.
     Option.bind (read_some (read_form source_tokens 2) (Sym CHR '','') ts) (\<lambda>(values, ts).
     if ts = [Sym CHR '')''] \<and> values = columns
     then Some \<lparr>ms_source = source, ms_target = target, ms_on = keys, ms_update = updated, ms_insert = columns\<rparr>
     else None))))))))))))"

definition read_merge :: "string \<Rightarrow> MergeStmt option" where
  "read_merge sql = Option.bind (sql_lex sql) read_merge_tokens"

section \<open>The tokens of the text\<close>

definition emit :: "sql_token list \<Rightarrow> sql_token list option \<Rightarrow> sql_token list option" where
  "emit ts r = map_option ((@) ts) r"

lemma emit_simps [simp]: "emit xs (emit ys r) = emit (xs @ ys) r" "emit xs (Some ys) = Some (xs @ ys)" "emit [] r = r"
  by (cases r; simp add: emit_def)+

lemma emit_Cons: "map_option ((#) t) r = emit [t] r"
  by (cases r) (simp_all add: emit_def)

definition stops :: "string \<Rightarrow> bool" where "stops s = (s = [] \<or> \<not> ident_char (hd s))"

lemma ident_facts [simp]:
  "\<not> is_ws CHR ''('' " "\<not> is_ws CHR '')''" "\<not> is_ws CHR ''.''" "\<not> is_ws CHR ''=''" "\<not> is_ws CHR '',''" "is_ws CHR '' ''"
  "\<not> ident_char CHR ''(''" "\<not> ident_char CHR '')''" "\<not> ident_char CHR ''.''" "\<not> ident_char CHR ''=''"
  "\<not> ident_char CHR '',''" "\<not> ident_char CHR '' ''" "\<not> is_ws CHR 0x60" "\<not> ident_char CHR 0x60"
  by (simp_all add: is_ws_def ident_char_def)

lemma ident_not_ws: "ident_char c \<Longrightarrow> \<not> is_ws c \<and> c \<noteq> CHR 0x60"
  by (auto simp: ident_char_def is_ws_def Let_def)

lemma lex_space [simp]: "sql_lex (CHR '' '' # s) = sql_lex s"
  by (simp add: sql_lex.simps(2))

lemma lex_sym [simp]: "c \<in> set ''.,()='' \<Longrightarrow> sql_lex (c # s) = emit [Sym c] (sql_lex s)"
  by (auto simp: sql_lex.simps(2) emit_Cons)

lemma lex_quoted: "CHR 0x60 \<notin> set q \<Longrightarrow> sql_lex (CHR 0x60 # q @ CHR 0x60 # s) = emit [Quoted q] (sql_lex s)"
proof -
  assume "CHR 0x60 \<notin> set q"
  then have "\<forall>x \<in> set q. x \<noteq> CHR 0x60" by auto
  then have "dropWhile (\<lambda>x. x \<noteq> CHR 0x60) (q @ CHR 0x60 # s) = CHR 0x60 # s"
    "takeWhile (\<lambda>x. x \<noteq> CHR 0x60) (q @ CHR 0x60 # s) = q"
    by (simp_all add: dropWhile_append2 takeWhile_append2)
  then show ?thesis by (simp add: sql_lex.simps(2) emit_Cons)
qed

lemma lex_word:
  assumes "list_all ident_char w" "w \<noteq> ''''" "stops s"
  shows "sql_lex (w @ s) = emit [Word w] (sql_lex s)"
proof -
  obtain c w' where w: "w = c # w'" using assms(2) by (cases w) auto
  have all: "\<forall>x \<in> set w'. ident_char x" and c: "ident_char c" using assms(1) by (auto simp: w list_all_iff)
  have "takeWhile ident_char s = []" "dropWhile ident_char s = s"
    using assms(3) by (cases s; simp add: stops_def)+
  with all have "takeWhile ident_char (w' @ s) = w'" "dropWhile ident_char (w' @ s) = s"
    by (simp_all add: takeWhile_append2 dropWhile_append2)
  with c ident_not_ws [OF c] show ?thesis by (simp add: w sql_lex.simps(2) emit_Cons)
qed

text \<open>A text that a list of tokens comes from, whatever follows it.\<close>

definition lexes :: "string \<Rightarrow> sql_token list \<Rightarrow> bool" where
  "lexes w ts = (\<forall>s. stops s \<longrightarrow> sql_lex (w @ s) = emit ts (sql_lex s))"

fun join_tokens :: "sql_token \<Rightarrow> sql_token list list \<Rightarrow> sql_token list" where
  "join_tokens sep [] = []"
| "join_tokens sep [x] = x"
| "join_tokens sep (x # y # ys) = x @ sep # join_tokens sep (y # ys)"

lemma stops_simps [simp]: "stops []" "stops (c # s) \<longleftrightarrow> \<not> ident_char c"
  by (simp_all add: stops_def)

lemma lexes_join:
  assumes "\<forall>x \<in> set xs. lexes (f x) (g x)" "stops sep" "sep \<noteq> ''''"
    and "\<And>s. sql_lex (sep @ s) = emit [t] (sql_lex s)"
  shows "lexes (join sep (map f xs)) (join_tokens t (map g xs))"
  using assms(1)
proof (induction xs rule: induct_list012)
  case (3 x y ys)
  then have rest: "lexes (join sep (map f (y # ys))) (join_tokens t (map g (y # ys)))" and x: "lexes (f x) (g x)" by auto
  have "sql_lex (f x @ sep @ join sep (map f (y # ys)) @ s) = emit (g x @ t # join_tokens t (map g (y # ys))) (sql_lex s)"
    if s: "stops s" for s
  proof -
    have "stops (sep @ join sep (map f (y # ys)) @ s)" using assms(2,3) by (cases sep) simp_all
    with x rest s show ?thesis by (simp add: lexes_def assms(4))
  qed
  then show ?case by (simp add: lexes_def)
qed (simp_all add: lexes_def)

lemma lex_letter: "ident_char c \<Longrightarrow> stops s \<Longrightarrow> sql_lex (c # s) = emit [Word [c]] (sql_lex s)"
  using lex_word [of "[c]" s] by simp

lemma lexes_column: "column_name c \<Longrightarrow> lexes c [Word c]"
  by (auto simp: lexes_def column_name_def intro: lex_word)

lemma ident_T [simp]: "ident_char CHR ''T''" "ident_char CHR ''S''"
  by (simp_all add: ident_char_def)

lemma lexes_eq: "column_name c \<Longrightarrow> lexes (''T.'' @ c @ '' = S.'' @ c) (eq_tokens c)"
  using lexes_column [of c] by (simp add: lexes_def eq_tokens_def lex_letter)

lemma lexes_source: "column_name c \<Longrightarrow> lexes (''S.'' @ c) (source_tokens c)"
  using lexes_column [of c] by (simp add: lexes_def source_tokens_def lex_letter)

lemma lex_keyword: "list_all ident_char w \<Longrightarrow> w \<noteq> '''' \<Longrightarrow> sql_lex (w @ CHR '' '' # s) = emit [Word w] (sql_lex s)"
  by (subst lex_word) simp_all

lemma lex_keywords:
  "sql_lex (''MERGE '' @ s) = emit [Word ''MERGE''] (sql_lex s)" "sql_lex (''USING '' @ s) = emit [Word ''USING''] (sql_lex s)"
  "sql_lex (''ON '' @ s) = emit [Word ''ON''] (sql_lex s)" "sql_lex (''AND '' @ s) = emit [Word ''AND''] (sql_lex s)"
  "sql_lex (''WHEN '' @ s) = emit [Word ''WHEN''] (sql_lex s)" "sql_lex (''MATCHED '' @ s) = emit [Word ''MATCHED''] (sql_lex s)"
  "sql_lex (''THEN '' @ s) = emit [Word ''THEN''] (sql_lex s)" "sql_lex (''UPDATE '' @ s) = emit [Word ''UPDATE''] (sql_lex s)"
  "sql_lex (''SET '' @ s) = emit [Word ''SET''] (sql_lex s)" "sql_lex (''NOT '' @ s) = emit [Word ''NOT''] (sql_lex s)"
  "sql_lex (''INSERT '' @ s) = emit [Word ''INSERT''] (sql_lex s)" "sql_lex (''VALUES '' @ s) = emit [Word ''VALUES''] (sql_lex s)"
  using lex_keyword [of "''MERGE''" s] lex_keyword [of "''USING''" s] lex_keyword [of "''ON''" s] lex_keyword [of "''AND''" s]
    lex_keyword [of "''WHEN''" s] lex_keyword [of "''MATCHED''" s] lex_keyword [of "''THEN''" s] lex_keyword [of "''UPDATE''" s]
    lex_keyword [of "''SET''" s] lex_keyword [of "''NOT''" s] lex_keyword [of "''INSERT''" s] lex_keyword [of "''VALUES''" s]
  by (simp_all add: ident_char_def)

text \<open>A statement over plain names: no column needs quotes, no table name contains one.\<close>

definition plain_stmt :: "MergeStmt \<Rightarrow> bool" where
  "plain_stmt stmt = (list_all column_name (ms_on stmt @ ms_update stmt @ ms_insert stmt)
     \<and> CHR 0x60 \<notin> set (ms_target stmt) \<and> CHR 0x60 \<notin> set (ms_source stmt))"

definition merge_tokens :: "MergeStmt \<Rightarrow> sql_token list" where
  "merge_tokens stmt = [Word ''MERGE'', Quoted (ms_target stmt), Word ''T'', Word ''USING'', Quoted (ms_source stmt),
       Word ''S'', Word ''ON'']
     @ join_tokens (Word ''AND'') (map eq_tokens (ms_on stmt))
     @ [Word ''WHEN'', Word ''MATCHED'', Word ''THEN'', Word ''UPDATE'', Word ''SET'']
     @ join_tokens (Sym CHR '','') (map eq_tokens (ms_update stmt))
     @ [Word ''WHEN'', Word ''NOT'', Word ''MATCHED'', Word ''THEN'', Word ''INSERT'', Sym CHR ''('']
     @ join_tokens (Sym CHR '','') (map (\<lambda>c. [Word c]) (ms_insert stmt))
     @ [Sym CHR '')'', Word ''VALUES'', Sym CHR ''('']
     @ join_tokens (Sym CHR '','') (map source_tokens (ms_insert stmt)) @ [Sym CHR '')'']"

lemma lex_merge_sql:
  assumes "plain_stmt stmt"
  shows "sql_lex (merge_sql stmt) = Some (merge_tokens stmt)"
proof -
  let ?eq = "\<lambda>c. ''T.'' @ c @ '' = S.'' @ c"
  have names: "\<forall>c \<in> set (ms_on stmt). column_name c" "\<forall>c \<in> set (ms_update stmt). column_name c"
    "\<forall>c \<in> set (ms_insert stmt). column_name c"
    using assms by (auto simp: plain_stmt_def list_all_iff)
  have sep: "stops '' AND ''" "'' AND '' \<noteq> ''''" "sql_lex ('' AND '' @ s) = emit [Word ''AND''] (sql_lex s)"
    "stops '', ''" "'', '' \<noteq> ''''" "sql_lex ('', '' @ s) = emit [Sym CHR '',''] (sql_lex s)" for s
    using lex_keywords(4) [of s] by simp_all
  have on: "lexes (join '' AND '' (map ?eq (ms_on stmt))) (join_tokens (Word ''AND'') (map eq_tokens (ms_on stmt)))"
    using names(1) lexes_eq by (intro lexes_join sep) auto
  have upd: "lexes (join '', '' (map ?eq (ms_update stmt))) (join_tokens (Sym CHR '','') (map eq_tokens (ms_update stmt)))"
    using names(2) lexes_eq by (intro lexes_join sep) auto
  have cols: "lexes (join '', '' (map (\<lambda>c. c) (ms_insert stmt))) (join_tokens (Sym CHR '','') (map (\<lambda>c. [Word c]) (ms_insert stmt)))"
    using names(3) lexes_column by (intro lexes_join sep) auto
  have vals: "lexes (join '', '' (map (\<lambda>c. ''S.'' @ c) (ms_insert stmt))) (join_tokens (Sym CHR '','') (map source_tokens (ms_insert stmt)))"
    using names(3) lexes_source by (intro lexes_join sep) auto
  have tables: "CHR 0x60 \<notin> set (ms_target stmt)" "CHR 0x60 \<notin> set (ms_source stmt)"
    using assms by (simp_all add: plain_stmt_def)
  note each = on [unfolded lexes_def, rule_format] upd [unfolded lexes_def, rule_format]
    cols [unfolded lexes_def, rule_format, unfolded list.map_ident] vals [unfolded lexes_def, rule_format]
  have q: "sql_lex (CHR 0x60 # ms_target stmt @ CHR 0x60 # s) = emit [Quoted (ms_target stmt)] (sql_lex s)"
    "sql_lex (CHR 0x60 # ms_source stmt @ CHR 0x60 # s) = emit [Quoted (ms_source stmt)] (sql_lex s)" for s
    using tables lex_quoted by blast+
  show ?thesis unfolding merge_sql_def merge_tokens_def Let_def
    using each by (simp add: q lex_letter lex_keywords [simplified])
qed

section \<open>Reading it back\<close>

lemma read_form_back:
  assumes "column_name c" "length (form c) > k" "form c ! k = Word c"
  shows "read_form form k (form c @ rest) = Some (c, rest)"
proof -
  have "drop k (form c @ rest) = Word c # drop (Suc k) (form c) @ rest"
    using assms(2,3) by (simp add: Cons_nth_drop_Suc [symmetric])
  then show ?thesis using assms(1) by (simp add: read_form_def)
qed

lemma read_some_back:
  assumes "\<forall>x \<in> set xs. \<forall>rest. p (g x @ rest) = Some (x, rest)" "xs \<noteq> []" "rest \<noteq> []" "hd rest \<noteq> sep"
  shows "read_some p sep (join_tokens sep (map g xs) @ rest) = Some (xs, rest)"
  using assms(1,2)
proof (induction xs rule: induct_list012)
  case (2 x)
  then show ?case using assms(3,4) by (cases rest) (simp_all add: read_some.simps [of p sep])
next
  case (3 x y ys)
  have "p (g x @ sep # join_tokens sep (map g (y # ys)) @ rest) = Some (x, sep # join_tokens sep (map g (y # ys)) @ rest)"
    using 3(3) by simp
  moreover have "read_some p sep (join_tokens sep (map g (y # ys)) @ rest) = Some (y # ys, rest)"
    using 3 by simp
  ultimately show ?case
    by (simp add: read_some.simps [of p sep "g x @ _"])
qed simp

lemma expect_back [simp]: "expect pre (pre @ rest) = Some rest"
  by (simp add: expect_def)

lemma read_quoted_back [simp]: "read_quoted (Quoted q # rest) = Some (q, rest)"
  by (simp add: read_quoted_def)

text \<open>The text is read as the statement it was written from, except that without a key, or without a
  column that is not one, a clause is empty and the text is not a statement.\<close>

theorem read_merge_back:
  assumes "plain_stmt stmt" "ms_insert stmt \<noteq> []"
  shows "read_merge (merge_sql stmt) = (if ms_on stmt = [] \<or> ms_update stmt = [] then None else Some stmt)"
proof -
  have names: "\<forall>c \<in> set (ms_on stmt). column_name c" "\<forall>c \<in> set (ms_update stmt). column_name c"
    "\<forall>c \<in> set (ms_insert stmt). column_name c"
    using assms by (auto simp: plain_stmt_def list_all_iff)
  have eq: "read_form eq_tokens 2 (eq_tokens c @ r) = Some (c, r)" if "column_name c" for c r
    using that by (intro read_form_back) (simp_all add: eq_tokens_def)
  have col: "read_form (\<lambda>c. [Word c]) 0 ([Word c] @ r) = Some (c, r)" if "column_name c" for c r
    using that by (intro read_form_back) simp_all
  have val: "read_form source_tokens 2 (source_tokens c @ r) = Some (c, r)" if "column_name c" for c r
    using that by (intro read_form_back) (simp_all add: source_tokens_def)
  have none: "read_some (read_form eq_tokens 2) sep (Word ''WHEN'' # r) = None" for sep r
    by (simp add: read_some.simps read_form_def eq_tokens_def split: list.split sql_token.split)
  have on: "read_some (read_form eq_tokens 2) (Word ''AND'') (join_tokens (Word ''AND'') (map eq_tokens (ms_on stmt)) @ Word ''WHEN'' # r)
      = (if ms_on stmt = [] then None else Some (ms_on stmt, Word ''WHEN'' # r))" for r
    using names(1) by (auto simp: none eq intro!: read_some_back)
  have upd: "read_some (read_form eq_tokens 2) (Sym CHR '','') (join_tokens (Sym CHR '','') (map eq_tokens (ms_update stmt)) @ Word ''WHEN'' # r)
      = (if ms_update stmt = [] then None else Some (ms_update stmt, Word ''WHEN'' # r))" for r
    using names(2) by (auto simp: none eq intro!: read_some_back)
  have ins: "read_some (read_form (\<lambda>c. [Word c]) 0) (Sym CHR '','') (join_tokens (Sym CHR '','') (map (\<lambda>c. [Word c]) (ms_insert stmt)) @ Sym CHR '')'' # r)
      = Some (ms_insert stmt, Sym CHR '')'' # r)"
    "read_some (read_form source_tokens 2) (Sym CHR '','') (join_tokens (Sym CHR '','') (map source_tokens (ms_insert stmt)) @ Sym CHR '')'' # r)
      = Some (ms_insert stmt, Sym CHR '')'' # r)" for r
    using names(3) assms(2) by (intro read_some_back; simp add: col [simplified] val)+
  have "read_merge_tokens (merge_tokens stmt) = (if ms_on stmt = [] \<or> ms_update stmt = [] then None else Some stmt)"
    unfolding read_merge_tokens_def merge_tokens_def
    by (simp add: expect_def on upd ins none)
  with lex_merge_sql [OF assms(1)] show ?thesis by (simp add: read_merge_def)
qed

end
