(* ===== verification/Warehouse.thy ===== *)
theory Warehouse
  imports Lineage_Storage Sql_Merge
begin

text \<open>
  The rest of the storage layer. \<open>storage/dataset_writer.py\<close>: the rows of the nine record types
  (\<open>dataclasses.asdict\<close>) and their writers. \<open>storage/bigquery_loader.py\<close>: load jobs, \<open>MERGE\<close>
  statements and table creation. The \<open>google.cloud.bigquery\<close> client is the parameter \<open>BqAdmin\<close>,
  acting on a warehouse that holds for each table its columns and rows.
\<close>

section \<open>Rows of the records (\<open>_to_dict\<close>)\<close>

definition opt_val :: "('a \<Rightarrow> pyval) \<Rightarrow> 'a option \<Rightarrow> pyval" where
  "opt_val f v = (case v of None \<Rightarrow> PNone | Some x \<Rightarrow> f x)"

definition header_dict :: "BlockHeader \<Rightarrow> pydict" where
  "header_dict h = [(''chain_id'', PInt (bh_chain_id h)), (''block_number'', PInt (bh_block_number h)),
     (''block_hash'', PStr (bh_block_hash h)), (''parent_hash'', PStr (bh_parent_hash h)),
     (''timestamp'', PInt (bh_timestamp h)), (''miner'', opt_val PStr (bh_miner h)),
     (''base_fee_per_gas'', opt_val PInt (bh_base_fee_per_gas h))]"

definition transaction_dict :: "Transaction \<Rightarrow> pydict" where
  "transaction_dict t = [(''chain_id'', PInt (tx_chain_id t)), (''block_number'', PInt (tx_block_number t)),
     (''block_hash'', PStr (tx_block_hash t)), (''tx_hash'', PStr (tx_tx_hash t)), (''tx_index'', PInt (tx_tx_index t)),
     (''from_addr'', PStr (tx_from_addr t)), (''to_addr'', opt_val PStr (tx_to_addr t)), (''value'', PInt (tx_value t)),
     (''input_data'', PStr (tx_input_data t)), (''gas'', PInt (tx_gas t)), (''gas_price'', opt_val PInt (tx_gas_price t)),
     (''max_fee_per_gas'', opt_val PInt (tx_max_fee_per_gas t)),
     (''max_priority_fee_per_gas'', opt_val PInt (tx_max_priority_fee_per_gas t)), (''nonce'', PInt (tx_nonce t))]"

definition block_dict :: "Block \<Rightarrow> pydict" where
  "block_dict b = [(''header'', PDict (header_dict (bk_header b))),
     (''transaction_hashes'', PList (map PStr (bk_transaction_hashes b))),
     (''full_transactions'', opt_val (\<lambda>ts. PList (map (\<lambda>t. PDict (transaction_dict t)) ts)) (bk_full_transactions b))]"

definition receipt_dict :: "Receipt \<Rightarrow> pydict" where
  "receipt_dict r = [(''chain_id'', PInt (rc_chain_id r)), (''block_number'', PInt (rc_block_number r)),
     (''block_hash'', PStr (rc_block_hash r)), (''tx_hash'', PStr (rc_tx_hash r)), (''tx_index'', PInt (rc_tx_index r)),
     (''status'', PInt (rc_status r)), (''gas_used'', PInt (rc_gas_used r)),
     (''effective_gas_price'', opt_val PInt (rc_effective_gas_price r)),
     (''cumulative_gas_used'', PInt (rc_cumulative_gas_used r)),
     (''contract_address'', opt_val PStr (rc_contract_address r)), (''logs_count'', PInt (rc_logs_count r))]"

definition log_dict :: "RawLog \<Rightarrow> pydict" where
  "log_dict l = [(''chain_id'', PInt (lg_chain_id l)), (''block_number'', PInt (lg_block_number l)),
     (''block_hash'', PStr (lg_block_hash l)), (''tx_hash'', PStr (lg_tx_hash l)), (''tx_index'', PInt (lg_tx_index l)),
     (''log_index'', PInt (lg_log_index l)), (''address'', PStr (lg_address l)),
     (''topics'', PList (map PStr (lg_topics l))), (''data'', PStr (lg_data l))]"

text \<open>A trace is written whole: its calls are nested dictionaries.\<close>

fun trace_dict :: "RawTrace \<Rightarrow> pydict" where
  "trace_dict (RawTrace f cs) =
     [(''chain_id'', PInt (tf_chain_id f)), (''block_number'', PInt (tf_block_number f)),
      (''tx_hash'', PStr (tf_tx_hash f)), (''type'', PStr (tf_type f)), (''from_addr'', PStr (tf_from_addr f)),
      (''to_addr'', opt_val PStr (tf_to_addr f)), (''value'', PInt (tf_value f)), (''gas'', PInt (tf_gas f)),
      (''gas_used'', PInt (tf_gas_used f)), (''input_data'', PStr (tf_input_data f)), (''output'', PStr (tf_output f)),
      (''error'', opt_val PStr (tf_error f)), (''revert_reason'', opt_val PStr (tf_revert_reason f)),
      (''calls'', PList (map (\<lambda>c. PDict (trace_dict c)) cs)),
      (''trace_address'', PList (map PInt (tf_trace_address f)))]"

definition balance_dict :: "TokenBalance \<Rightarrow> pydict" where
  "balance_dict b = [(''chain_id'', PInt (tb_chain_id b)), (''block_number'', PInt (tb_block_number b)),
     (''token_address'', PStr (tb_token_address b)), (''holder_address'', PStr (tb_holder_address b)),
     (''balance'', PInt (tb_balance b))]"

definition event_dict :: "DecodedEvent \<Rightarrow> pydict" where
  "event_dict e = [(''raw_log_id'', PStr (de_raw_log_id e)), (''decoded_event_id'', PStr (de_decoded_event_id e)),
     (''chain_id'', PInt (de_chain_id e)), (''block_number'', PInt (de_block_number e)),
     (''tx_hash'', PStr (de_tx_hash e)), (''log_index'', PInt (de_log_index e)),
     (''contract_address'', PStr (de_contract_address e)), (''event_name'', PStr (de_event_name e)),
     (''event_signature'', PStr (de_event_signature e)), (''indexed_params'', PDict (de_indexed_params e)),
     (''data_params'', PDict (de_data_params e))]"

definition call_dict :: "DecodedCall \<Rightarrow> pydict" where
  "call_dict c = [(''raw_trace_call_id'', PStr (dc_raw_trace_call_id c)), (''chain_id'', PInt (dc_chain_id c)),
     (''block_number'', PInt (dc_block_number c)), (''tx_hash'', PStr (dc_tx_hash c)),
     (''trace_address'', PList (map PInt (dc_trace_address c))),
     (''contract_address'', opt_val PStr (dc_contract_address c)), (''method_name'', PStr (dc_method_name c)),
     (''method_selector'', PStr (dc_method_selector c)), (''params'', PDict (dc_params c)),
     (''success'', PBool (dc_success c)), (''parent_success'', PBool (dc_parent_success c))]"

primrec failure_reason_value :: "DecodeFailureReason \<Rightarrow> string" where
  "failure_reason_value Unknown_topic = ''unknown_topic''"
| "failure_reason_value Abi_mismatch = ''abi_mismatch''"
| "failure_reason_value Malformed_data = ''malformed_data''"
| "failure_reason_value Unregistered_contract = ''unregistered_contract''"
| "failure_reason_value Phase_not_found = ''phase_not_found''"

definition result_dict :: "DecodeResult \<Rightarrow> pydict" where
  "result_dict r = [(''raw_id'', PStr (dr_raw_id r)), (''success'', PBool (dr_success r)),
     (''decoded'', opt_val (\<lambda>d. PDict (case d of DEvent e \<Rightarrow> event_dict e | DCall c \<Rightarrow> call_dict c)) (dr_decoded r)),
     (''failure_reason'', opt_val (\<lambda>x. PStr (failure_reason_value x)) (dr_failure_reason r)),
     (''failure_detail'', opt_val PStr (dr_failure_detail r))]"

section \<open>The writers\<close>

type_synonym 'a dataset_writer = "(nat \<Rightarrow> int) \<Rightarrow> (pydict list \<Rightarrow> int) \<Rightarrow> 'a list \<Rightarrow> string \<Rightarrow> string
  \<Rightarrow> store \<Rightarrow> WriteResult \<times> store"

definition write_blocks_parquet :: "Block dataset_writer" where
  "write_blocks_parquet = write_dataset block_dict"

definition write_transactions_parquet :: "Transaction dataset_writer" where
  "write_transactions_parquet = write_dataset transaction_dict"

definition write_receipts_parquet :: "Receipt dataset_writer" where
  "write_receipts_parquet = write_dataset receipt_dict"

definition write_logs_parquet :: "RawLog dataset_writer" where
  "write_logs_parquet = write_dataset log_dict"

definition write_traces_parquet :: "RawTrace dataset_writer" where
  "write_traces_parquet = write_dataset trace_dict"

definition write_balance_snapshots_parquet :: "TokenBalance dataset_writer" where
  "write_balance_snapshots_parquet = write_dataset balance_dict"

definition write_decoded_events_parquet :: "DecodedEvent dataset_writer" where
  "write_decoded_events_parquet = write_dataset event_dict"

definition write_decoded_trace_calls_parquet :: "DecodedCall dataset_writer" where
  "write_decoded_trace_calls_parquet = write_dataset call_dict"

definition write_decode_failures_parquet :: "DecodeResult dataset_writer" where
  "write_decode_failures_parquet = write_dataset result_dict"

section \<open>A row determines its record\<close>

lemma opt_val_inj: "inj f \<Longrightarrow> (\<And>x. f x \<noteq> PNone) \<Longrightarrow> opt_val f a = opt_val f b \<longleftrightarrow> a = b"
  by (auto simp: opt_val_def inj_def split: option.splits) metis

lemma pyval_inj: "inj PStr" "inj PInt" "inj PDict" "inj PList"
  by (simp_all add: inj_def)

lemma opt_val_simps [simp]:
  "opt_val PStr a = opt_val PStr b \<longleftrightarrow> a = b" "opt_val PInt c = opt_val PInt d \<longleftrightarrow> c = d"
  by (simp_all add: opt_val_inj pyval_inj)

lemma map_inj [simp]: "map PStr a = map PStr b \<longleftrightarrow> a = b" "map PInt c = map PInt d \<longleftrightarrow> c = d"
  by (simp_all add: inj_map_eq_map pyval_inj)

lemma header_dict_inj: "header_dict a = header_dict b \<longleftrightarrow> a = b"
  by (cases a; cases b) (simp add: header_dict_def)

lemma transaction_dict_inj: "transaction_dict a = transaction_dict b \<longleftrightarrow> a = b"
  by (cases a; cases b) (simp add: transaction_dict_def)

lemma receipt_dict_inj: "receipt_dict a = receipt_dict b \<longleftrightarrow> a = b"
  by (cases a; cases b) (simp add: receipt_dict_def)

lemma log_dict_inj: "log_dict a = log_dict b \<longleftrightarrow> a = b"
  by (cases a; cases b) (simp add: log_dict_def)

lemma balance_dict_inj: "balance_dict a = balance_dict b \<longleftrightarrow> a = b"
  by (cases a; cases b) (simp add: balance_dict_def)

lemma event_dict_inj: "event_dict a = event_dict b \<longleftrightarrow> a = b"
  by (cases a; cases b) (simp add: event_dict_def)

lemma call_dict_inj: "call_dict a = call_dict b \<longleftrightarrow> a = b"
  by (cases a; cases b) (simp add: call_dict_def)

lemma map_dict_inj:
  assumes "\<And>x y. x \<in> set xs \<Longrightarrow> f x = f y \<longleftrightarrow> x = y"
  shows "map (\<lambda>x. PDict (f x)) xs = map (\<lambda>x. PDict (f x)) ys \<longleftrightarrow> xs = ys"
  using assms
proof (induction xs arbitrary: ys)
  case (Cons x xs)
  then show ?case by (cases ys) auto
qed auto

lemma block_dict_inj: "block_dict a = block_dict b \<longleftrightarrow> a = b"
proof -
  have "opt_val (\<lambda>ts. PList (map (\<lambda>t. PDict (transaction_dict t)) ts)) u =
      opt_val (\<lambda>ts. PList (map (\<lambda>t. PDict (transaction_dict t)) ts)) v \<longleftrightarrow> u = v" for u v
    by (rule opt_val_inj) (simp_all add: inj_def map_dict_inj transaction_dict_inj)
  then show ?thesis by (cases a; cases b) (simp add: block_dict_def header_dict_inj)
qed

lemma trace_dict_inj: "trace_dict a = trace_dict b \<longleftrightarrow> a = b"
proof (induction a arbitrary: b)
  case (RawTrace f cs)
  obtain g ds where b: "b = RawTrace g ds" by (cases b)
  have "map (\<lambda>c. PDict (trace_dict c)) cs = map (\<lambda>c. PDict (trace_dict c)) ds \<longleftrightarrow> cs = ds"
    by (rule map_dict_inj) (rule RawTrace.IH)
  then show ?case by (cases f; cases g) (auto simp: b)
qed

lemma result_dict_inj: "result_dict a = result_dict b \<longleftrightarrow> a = b"
proof -
  have d: "(case x of DEvent e \<Rightarrow> event_dict e | DCall c \<Rightarrow> call_dict c) =
      (case y of DEvent e \<Rightarrow> event_dict e | DCall c \<Rightarrow> call_dict c) \<longleftrightarrow> x = y" for x y
    by (cases x; cases y) (simp_all add: event_dict_inj call_dict_inj, simp_all add: event_dict_def call_dict_def)
  have "opt_val (\<lambda>x. PDict (case x of DEvent e \<Rightarrow> event_dict e | DCall c \<Rightarrow> call_dict c)) u =
      opt_val (\<lambda>x. PDict (case x of DEvent e \<Rightarrow> event_dict e | DCall c \<Rightarrow> call_dict c)) v \<longleftrightarrow> u = v" for u v
    by (rule opt_val_inj) (simp_all add: inj_def d)
  moreover have "failure_reason_value x = failure_reason_value y \<longleftrightarrow> x = y" for x y
    by (cases x; cases y) simp_all
  then have "opt_val (\<lambda>x. PStr (failure_reason_value x)) u = opt_val (\<lambda>x. PStr (failure_reason_value x)) v
      \<longleftrightarrow> u = v" for u v
    by (intro opt_val_inj) (simp_all add: inj_def)
  ultimately show ?thesis by (cases a; cases b) (simp add: result_dict_def)
qed

text \<open>What a writer needs of the rows of a record type: they determine the record, and neither tag
  is one of their columns. Then the uploaded file determines the records; where the rows are JSON
  already, so does the local file.\<close>

locale record_rows =
  fixes to_dict :: "'a \<Rightarrow> pydict"
  assumes row_inj: "to_dict a = to_dict b \<Longrightarrow> a = b"
    and untagged: "''run_partition_id'' \<notin> set (map fst (to_dict a))" "''ingested_at'' \<notin> set (map fst (to_dict a))"
begin

lemma tagged: "tag_row to_dict rp a now = to_dict a @ [(''run_partition_id'', PStr rp), (''ingested_at'', PInt now)]"
proof -
  have "tag_row to_dict rp a now =
      AList.update ''ingested_at'' (PInt now) (to_dict a @ [(''run_partition_id'', PStr rp)])"
    using untagged(1) [of a] by (simp add: tag_row_def update_new_key)
  also have "\<dots> = (to_dict a @ [(''run_partition_id'', PStr rp)]) @ [(''ingested_at'', PInt now)]"
    using untagged(2) [of a] by (intro update_new_key) simp
  finally show ?thesis by simp
qed

lemma tagged_inj: "tag_row to_dict rp a now = tag_row to_dict rp' a' now' \<Longrightarrow> a = a'"
  unfolding tagged by (rule row_inj) simp

lemma rows_inj:
  "map (\<lambda>(i, x). tag_row to_dict rp x (clock i)) (enumerate n xs) =
   map (\<lambda>(i, x). tag_row to_dict rp' x (clock' i)) (enumerate m ys) \<Longrightarrow> xs = ys"
proof (induction xs arbitrary: ys n m)
  case (Cons x xs)
  then show ?case by (cases ys) (auto dest: tagged_inj)
next
  case Nil
  then show ?case by (cases ys) simp_all
qed

lemma uploaded_file:
  assumes "starts_with path ''gs://''" "xs \<noteq> []"
  shows "snd (write_dataset to_dict clock size_of xs path rp fs) (object_path path rp) =
    Some (PList (map PDict (map (\<lambda>(i, x). tag_row to_dict rp x (clock i)) (enumerate 0 xs))))"
  using assms by (simp add: write_dataset_def write_parquet_to_gcs_def enumerate_eq_zip split: prod.splits)

lemma uploaded_file_determines:
  assumes "starts_with path ''gs://''" "xs \<noteq> []" "ys \<noteq> []"
    and "snd (write_dataset to_dict clock size_of xs path rp fs) (object_path path rp) =
      snd (write_dataset to_dict clock' size_of' ys path rp fs') (object_path path rp)"
  shows "xs = ys"
proof -
  let ?rows = "\<lambda>clk zs. map (\<lambda>(i, x). tag_row to_dict rp x (clk i)) (enumerate 0 zs)"
  have "map PDict (?rows clock xs) = map PDict (?rows clock' ys)"
    using assms(4) unfolding uploaded_file [OF assms(1,2)] uploaded_file [OF assms(1,3)] by simp
  then have "?rows clock xs = ?rows clock' ys" by (rule map_injective) (simp add: inj_def)
  then show ?thesis by (rule rows_inj)
qed

end

locale json_rows = record_rows +
  assumes json_row: "jsonify (PDict (to_dict a)) = PDict (to_dict a)"
begin

lemma json_tagged: "jsonify (PDict (tag_row to_dict rp a now)) = PDict (tag_row to_dict rp a now)"
  using json_row [of a] by (simp add: tagged)

lemma written_file:
  assumes "xs \<noteq> []"
  shows "snd (write_dataset to_dict clock size_of xs path rp fs) (object_path path rp) =
    Some (PList (map PDict (map (\<lambda>(i, x). tag_row to_dict rp x (clock i)) (enumerate 0 xs))))"
proof (cases "starts_with path ''gs://''")
  case True
  then show ?thesis using assms by (rule uploaded_file)
next
  case False
  have "map jsonify (map PDict (map (\<lambda>(i, x). tag_row to_dict rp x (clock i)) ixs)) =
      map PDict (map (\<lambda>(i, x). tag_row to_dict rp x (clock i)) ixs)" for ixs
    by (induction ixs) (auto simp: json_tagged simp del: jsonify.simps)
  then show ?thesis using False
    by (simp add: write_dataset_def write_parquet_to_gcs_def Let_def del: map_map)
qed

lemma written_file_determines:
  assumes "xs \<noteq> []" "ys \<noteq> []"
    and "snd (write_dataset to_dict clock size_of xs path rp fs) (object_path path rp) =
      snd (write_dataset to_dict clock' size_of' ys path rp fs') (object_path path rp)"
  shows "xs = ys"
proof -
  let ?rows = "\<lambda>clk zs. map (\<lambda>(i, x). tag_row to_dict rp x (clk i)) (enumerate 0 zs)"
  have "map PDict (?rows clock xs) = map PDict (?rows clock' ys)"
    using assms(3) unfolding written_file [OF assms(1)] written_file [OF assms(2)] by simp
  then have "?rows clock xs = ?rows clock' ys" by (rule map_injective) (simp add: inj_def)
  then show ?thesis by (rule rows_inj)
qed

end

lemma jsonify_opt [simp]: "jsonify (opt_val PStr v) = opt_val PStr v" "jsonify (opt_val PInt w) = opt_val PInt w"
  by (simp_all add: opt_val_def split: option.splits)

lemma jsonify_ints [simp]: "map (jsonify \<circ> PInt) xs = map PInt xs"
  by simp

lemma trace_dict_json: "jsonify (PDict (trace_dict t)) = PDict (trace_dict t)"
proof (induction t)
  case (RawTrace f cs)
  have "map (\<lambda>c. jsonify (PDict (trace_dict c))) cs = map (\<lambda>c. PDict (trace_dict c)) cs"
    by (rule map_cong) (simp_all only: RawTrace.IH)
  then have "map (jsonify \<circ> (\<lambda>c. PDict (trace_dict c))) cs = map (\<lambda>c. PDict (trace_dict c)) cs"
    by (simp only: comp_def)
  then show ?case by (simp add: comp_def)
qed

lemma transaction_json: "jsonify (PDict (transaction_dict t)) = PDict (transaction_dict t)"
  by (simp add: transaction_dict_def)

lemma block_json: "jsonify (PDict (block_dict b)) = PDict (block_dict b)"
proof -
  have "map (\<lambda>t. jsonify (PDict (transaction_dict t))) ts = map (\<lambda>t. PDict (transaction_dict t)) ts" for ts
    by (rule map_cong) (simp_all only: transaction_json)
  then have "jsonify (opt_val (\<lambda>ts. PList (map (\<lambda>t. PDict (transaction_dict t)) ts)) v) =
      opt_val (\<lambda>ts. PList (map (\<lambda>t. PDict (transaction_dict t)) ts)) v" for v
    by (cases v) (simp_all add: opt_val_def comp_def del: jsonify.simps(3))
  then show ?thesis by (simp add: block_dict_def header_dict_def)
qed

interpretation block_rows: json_rows block_dict
  by unfold_locales (simp_all only: block_dict_inj block_json, simp_all add: block_dict_def)

interpretation transaction_rows: json_rows transaction_dict
  by unfold_locales (simp_all only: transaction_dict_inj transaction_json, simp_all add: transaction_dict_def)

interpretation receipt_rows: json_rows receipt_dict
  by unfold_locales (simp_all add: receipt_dict_inj, simp_all add: receipt_dict_def)

interpretation log_rows: json_rows log_dict
  by unfold_locales (simp_all add: log_dict_inj, simp_all add: log_dict_def)

interpretation trace_rows: json_rows trace_dict
proof
  fix a b :: RawTrace
  show "''run_partition_id'' \<notin> set (map fst (trace_dict a))" "''ingested_at'' \<notin> set (map fst (trace_dict a))"
    by (cases a; simp)+
qed (simp_all only: trace_dict_inj trace_dict_json)

interpretation balance_rows: json_rows balance_dict
  by unfold_locales (simp_all add: balance_dict_inj, simp_all add: balance_dict_def)

interpretation event_rows: record_rows event_dict
  by unfold_locales (simp_all add: event_dict_inj, simp_all add: event_dict_def)

interpretation call_rows: record_rows call_dict
  by unfold_locales (simp_all add: call_dict_inj, simp_all add: call_dict_def)

interpretation result_rows: record_rows result_dict
  by unfold_locales (simp_all add: result_dict_inj, simp_all add: result_dict_def)

section \<open>The loader\<close>

text \<open>A table of the warehouse: its columns and its rows.\<close>

type_synonym bq_table = "string list \<times> pydict list"
type_synonym warehouse = "string \<rightharpoonup> bq_table"

record BqAdmin =
  ba_load_table_from_uri :: "string \<Rightarrow> string \<Rightarrow> pydict \<Rightarrow> warehouse \<Rightarrow> (pyval \<times> warehouse) res"
  ba_num_bytes :: "string \<Rightarrow> warehouse \<Rightarrow> pyval res"
  ba_schema :: "string \<Rightarrow> warehouse \<Rightarrow> string list res"
  ba_query :: "string \<Rightarrow> warehouse \<Rightarrow> (pydict \<times> warehouse) res"
  ba_create_table :: "string \<Rightarrow> (string \<times> string \<times> string) list \<Rightarrow> warehouse \<Rightarrow> warehouse res"

record LoadResult =
  lr_table :: string
  lr_rows_loaded :: int
  lr_bytes_loaded :: int

record MergeResult =
  mr_target_table :: string
  mr_rows_inserted :: int
  mr_rows_updated :: int
  mr_rows_deleted :: int

text \<open>The partition and cluster fields are arguments no statement of the function reads.\<close>

definition load_parquet_to_bq :: "BqAdmin \<Rightarrow> string \<Rightarrow> string \<Rightarrow> string option \<Rightarrow> string list option \<Rightarrow> string
    \<Rightarrow> warehouse \<Rightarrow> (LoadResult \<times> warehouse) res" where
  "load_parquet_to_bq client gcs_path table partition_field cluster_fields write_disposition w =
     rbind (ba_load_table_from_uri client gcs_path table
       [(''source_format'', PStr ''PARQUET''), (''write_disposition'', PStr write_disposition),
        (''autodetect'', PBool False)] w) (\<lambda>(output_rows, w').
     rbind (ba_num_bytes client table w') (\<lambda>num_bytes.
     rbind (py_int (py_or output_rows (PInt 0))) (\<lambda>rows.
     rbind (py_int (py_or num_bytes (PInt 0))) (\<lambda>bytes.
     Inr (\<lparr>lr_table = table, lr_rows_loaded = rows, lr_bytes_loaded = bytes\<rparr>, w')))))"

definition dml_count :: "pydict \<Rightarrow> string \<Rightarrow> int res" where
  "dml_count stats k = py_int (py_or (dict_get_or stats k (PInt 0)) (PInt 0))"

definition merge_to_table :: "BqAdmin \<Rightarrow> string \<Rightarrow> string \<Rightarrow> string list \<Rightarrow> warehouse
    \<Rightarrow> (MergeResult \<times> warehouse) res" where
  "merge_to_table client staging_table target_table merge_keys w =
     rbind (ba_schema client target_table w) (\<lambda>columns.
     rbind (ba_query client (merge_sql (merge_stmt staging_table target_table merge_keys columns)) w) (\<lambda>(stats, w').
     rbind (dml_count stats ''inserted_row_count'') (\<lambda>inserted.
     rbind (dml_count stats ''updated_row_count'') (\<lambda>updated.
     rbind (dml_count stats ''deleted_row_count'') (\<lambda>deleted.
     Inr (\<lparr>mr_target_table = target_table, mr_rows_inserted = inserted, mr_rows_updated = updated,
       mr_rows_deleted = deleted\<rparr>, w'))))))"

text \<open>The columns of a parsed schema file; an empty sequence or mapping has none.\<close>

definition schema_fields :: "pyval \<Rightarrow> (string \<times> string \<times> string) list res" where
  "schema_fields payload = (case payload of
     PDict d \<Rightarrow> (case dict_get_or d ''fields'' payload of
         PDict [] \<Rightarrow> Inr []
       | cols \<Rightarrow> rbind (dict_items cols) (mapR (\<lambda>col.
           rbind (dict_index col ''name'') (\<lambda>name. rbind (dict_index col ''type'') (\<lambda>ty.
             Inr (py_str name, py_str ty, py_str (dict_get_or col ''mode'' (PStr ''NULLABLE''))))))))
   | _ \<Rightarrow> Inl (Raise AttributeError ''object has no attribute get''))"

definition create_table_from_schema :: "BqAdmin \<Rightarrow> string \<Rightarrow> pyval \<Rightarrow> warehouse \<Rightarrow> warehouse res" where
  "create_table_from_schema client table payload w =
     rbind (schema_fields payload) (\<lambda>schema.
     case ba_create_table client table schema w of
       Inr w' \<Rightarrow> Inr w'
     | Inl e \<Rightarrow> if contains ''Already Exists'' (exc_str e) then Inr w else Inl e)"

definition loader_query_params :: "pydict option \<Rightarrow> (string \<times> string \<times> pyval) list" where
  "loader_query_params params = (case params of
     None \<Rightarrow> []
   | Some d \<Rightarrow> map (\<lambda>(name, v). case v of
        PInt i \<Rightarrow> (name, ''INT64'', v)
      | PBool b \<Rightarrow> (name, ''INT64'', v)
      | _ \<Rightarrow> (name, ''STRING'', PStr (py_str v))) d)"

section \<open>What a MERGE statement does\<close>

text \<open>The documented effect of such a statement: a row of the target that agrees with a row of the source
  on every column of the condition takes the updated columns from it, and a source row that agrees
  with no target row is inserted. The statement fails when two source rows meet one target row.\<close>

definition row_key :: "string list \<Rightarrow> pydict \<Rightarrow> pyval list" where
  "row_key keys r = map (dict_get r) keys"

definition merged_row :: "MergeStmt \<Rightarrow> pydict list \<Rightarrow> pydict \<Rightarrow> pydict" where
  "merged_row stmt source t = (case find (\<lambda>s. row_key (ms_on stmt) s = row_key (ms_on stmt) t) source of
     None \<Rightarrow> t
   | Some s \<Rightarrow> map (\<lambda>(c, v). (c, if c \<in> set (ms_update stmt) then dict_get s c else v)) t)"

definition inserted_rows :: "MergeStmt \<Rightarrow> pydict list \<Rightarrow> pydict list \<Rightarrow> pydict list" where
  "inserted_rows stmt source target = map (\<lambda>s. map (\<lambda>c. (c, dict_get s c)) (ms_insert stmt))
     (filter (\<lambda>s. row_key (ms_on stmt) s \<notin> set (map (row_key (ms_on stmt)) target)) source)"

definition merge_rows_of :: "MergeStmt \<Rightarrow> pydict list \<Rightarrow> pydict list \<Rightarrow> pydict list" where
  "merge_rows_of stmt source target = map (merged_row stmt source) target @ inserted_rows stmt source target"

definition keyed_rows :: "string list \<Rightarrow> pydict list \<Rightarrow> bool" where
  "keyed_rows keys rs = (distinct (map (row_key keys) rs) \<and> (\<forall>r \<in> set rs. PNone \<notin> set (row_key keys r)))"

text \<open>The counts such a statement reports.\<close>

definition merge_stats :: "MergeStmt \<Rightarrow> pydict list \<Rightarrow> pydict list \<Rightarrow> pydict" where
  "merge_stats stmt source target =
     [(''inserted_row_count'', PInt (int (length (inserted_rows stmt source target)))),
      (''updated_row_count'', PInt (int (length (filter
        (\<lambda>t. row_key (ms_on stmt) t \<in> set (map (row_key (ms_on stmt)) source)) target)))),
      (''deleted_row_count'', PInt 0)]"

text \<open>A client that answers for the columns of a table, and runs a text that reads as such a statement over
  two tables it has, when the statement inserts the columns of the target, the source has them, and
  the keys of the source are distinct and not null. About any other text it promises nothing.\<close>

definition runs_merges :: "BqAdmin \<Rightarrow> bool" where
  "runs_merges client =
     ((\<forall>w t columns rows. w t = Some (columns, rows) \<longrightarrow> ba_schema client t w = Inr columns) \<and>
      (\<forall>w sql stmt columns rows scolumns source.
         read_merge sql = Some stmt \<and> w (ms_target stmt) = Some (columns, rows)
         \<and> w (ms_source stmt) = Some (scolumns, source) \<and> ms_insert stmt = columns
         \<and> set (ms_on stmt) \<union> set (ms_update stmt) \<subseteq> set columns \<and> distinct columns \<and> distinct (ms_update stmt)
         \<and> set columns \<subseteq> set scolumns \<and> keyed_rows (ms_on stmt) source \<longrightarrow>
         ba_query client sql w = Inr (merge_stats stmt source rows,
           w(ms_target stmt \<mapsto> (columns, merge_rows_of stmt source rows)))))"

text \<open>What the proofs use of a statement: the key columns are inserted, and not updated, and every other
  inserted column is updated.\<close>

definition upsert :: "MergeStmt \<Rightarrow> bool" where
  "upsert stmt \<longleftrightarrow> set (ms_on stmt) \<subseteq> set (ms_insert stmt) \<and>
     set (ms_update stmt) = set (ms_insert stmt) - set (ms_on stmt)"

lemma merge_stmt_upsert: "set keys \<subseteq> set columns \<Longrightarrow> upsert (merge_stmt st tgt keys columns)"
  by (auto simp: upsert_def merge_stmt_def)

lemma dict_get_row: "dict_get (map (\<lambda>c. (c, f c)) columns) k = (if k \<in> set columns then f k else PNone)"
proof -
  have "map_of (map (\<lambda>c. (c, f c)) columns) k = (if k \<in> set columns then Some (f k) else None)"
    by (induction columns) auto
  then show ?thesis by (simp add: dict_get_def)
qed

lemma dict_get_updated: "dict_get (map (\<lambda>(c, v). (c, if c \<in> U then g c else v)) t) k =
    (if k \<in> U \<and> k \<in> set (map fst t) then g k else dict_get t k)"
  by (induction t) (auto simp: dict_get_def)

lemma updated_key: "set keys \<inter> U = {} \<Longrightarrow> row_key keys (map (\<lambda>(c, v). (c, if c \<in> U then g c else v)) t) = row_key keys t"
  by (auto simp: row_key_def dict_get_updated)

lemma merged_key:
  assumes "upsert stmt"
  shows "row_key (ms_on stmt) (merged_row stmt source t) = row_key (ms_on stmt) t"
proof -
  have "set (ms_on stmt) \<inter> set (ms_update stmt) = {}" using assms by (auto simp: upsert_def)
  from updated_key [OF this] show ?thesis by (simp add: merged_row_def split: option.split)
qed

lemma merged_columns: "map fst (merged_row stmt source t) = map fst t"
  by (simp add: merged_row_def comp_def case_prod_beta split: option.splits)

lemma inserted_key:
  "upsert stmt \<Longrightarrow> row_key (ms_on stmt) (map (\<lambda>c. (c, dict_get s c)) (ms_insert stmt)) = row_key (ms_on stmt) s"
  by (auto simp: row_key_def dict_get_row upsert_def)

lemma merge_keys:
  assumes "upsert stmt"
  shows "map (row_key (ms_on stmt)) (merge_rows_of stmt source target) = map (row_key (ms_on stmt)) target @
    filter (\<lambda>k. k \<notin> set (map (row_key (ms_on stmt)) target)) (map (row_key (ms_on stmt)) source)"
  by (simp add: merge_rows_of_def inserted_rows_def merged_key [OF assms] inserted_key [OF assms] comp_def filter_map)

lemma find_keyed:
  assumes "keyed_rows keys source" "s \<in> set source" "row_key keys s = k"
  shows "find (\<lambda>s. row_key keys s = k) source = Some s"
proof -
  from assms(2,3) obtain s' where f: "find (\<lambda>s. row_key keys s = k) source = Some s'"
    by (cases "find (\<lambda>s. row_key keys s = k) source") (auto simp: find_None_iff)
  from find_SomeD [OF f] have "s' \<in> set source" "row_key keys s' = k" by auto
  then have "s' = s" using assms by (auto simp: keyed_rows_def distinct_map inj_on_def)
  with f show ?thesis by simp
qed

lemma merged_row_source:
  assumes "keyed_rows (ms_on stmt) source" "s \<in> set source" "row_key (ms_on stmt) t = row_key (ms_on stmt) s"
  shows "merged_row stmt source t = map (\<lambda>(c, v). (c, if c \<in> set (ms_update stmt) then dict_get s c else v)) t"
proof -
  have "find (\<lambda>s. row_key (ms_on stmt) s = row_key (ms_on stmt) t) source = Some s"
    using assms by (intro find_keyed) simp_all
  then show ?thesis by (simp add: merged_row_def)
qed

lemma merged_row_other:
  assumes "row_key (ms_on stmt) t \<notin> set (map (row_key (ms_on stmt)) source)"
  shows "merged_row stmt source t = t"
proof -
  have "find (\<lambda>s. row_key (ms_on stmt) s = row_key (ms_on stmt) t) source = None"
    unfolding find_None_iff using assms by (metis image_eqI set_map)
  then show ?thesis by (simp add: merged_row_def)
qed

lemma merged_row_idem:
  assumes "keyed_rows (ms_on stmt) source" "upsert stmt"
  shows "merged_row stmt source (merged_row stmt source t) = merged_row stmt source t"
proof (cases "row_key (ms_on stmt) t \<in> set (map (row_key (ms_on stmt)) source)")
  case True
  then obtain s where s: "s \<in> set source" "row_key (ms_on stmt) t = row_key (ms_on stmt) s" by auto
  have "row_key (ms_on stmt) (merged_row stmt source t) = row_key (ms_on stmt) s"
    by (simp add: merged_key assms(2) s(2))
  from merged_row_source [OF assms(1) s(1) this] show ?thesis
    unfolding merged_row_source [OF assms(1) s] by (auto simp: case_prod_beta)
next
  case False
  then show ?thesis using merged_row_other by metis
qed

lemma nothing_inserted_again:
  assumes "upsert stmt"
  shows "inserted_rows stmt source (merge_rows_of stmt source target) = []"
proof -
  have "set (map (row_key (ms_on stmt)) source) \<subseteq> set (map (row_key (ms_on stmt)) (merge_rows_of stmt source target))"
    unfolding merge_keys [OF assms] by auto
  then show ?thesis unfolding inserted_rows_def by (auto simp: filter_empty_conv)
qed

lemma merge_rows_idem:
  assumes "keyed_rows (ms_on stmt) source" "upsert stmt"
  shows "merge_rows_of stmt source (merge_rows_of stmt source target) = merge_rows_of stmt source target"
proof -
  let ?new = "merge_rows_of stmt source target"
  have "merged_row stmt source r = r" if r: "r \<in> set ?new" for r
  proof -
    from r consider t where "r = merged_row stmt source t"
      | s where "s \<in> set source" "r = map (\<lambda>c. (c, dict_get s c)) (ms_insert stmt)"
      by (auto simp: merge_rows_of_def inserted_rows_def)
    then show ?thesis
    proof cases
      case 1
      then show ?thesis by (simp add: merged_row_idem assms)
    next
      case 2
      have "row_key (ms_on stmt) r = row_key (ms_on stmt) s" unfolding 2(2) using assms(2) by (rule inserted_key)
      from merged_row_source [OF assms(1) 2(1) this] show ?thesis by (simp add: 2(2))
    qed
  qed
  then have "map (merged_row stmt source) ?new = ?new" by (rule map_idI)
  with nothing_inserted_again [OF assms(2)] show ?thesis
    unfolding merge_rows_of_def [of stmt source ?new] by simp
qed

lemma merge_rows_source:
  assumes "keyed_rows (ms_on stmt) source" "upsert stmt" "s \<in> set source" "\<forall>t \<in> set target. map fst t = ms_insert stmt"
  shows "\<exists>t \<in> set (merge_rows_of stmt source target). \<forall>c \<in> set (ms_insert stmt). dict_get t c = dict_get s c"
proof (cases "row_key (ms_on stmt) s \<in> set (map (row_key (ms_on stmt)) target)")
  case True
  then obtain t where t: "t \<in> set target" "row_key (ms_on stmt) t = row_key (ms_on stmt) s" by auto
  have k: "dict_get t c = dict_get s c" if "c \<in> set (ms_on stmt)" for c
    using t(2) that by (simp add: row_key_def)
  have "merged_row stmt source t \<in> set (merge_rows_of stmt source target)"
    using t(1) by (simp add: merge_rows_of_def)
  moreover have "\<forall>c \<in> set (ms_insert stmt). dict_get (merged_row stmt source t) c = dict_get s c"
    unfolding merged_row_source [OF assms(1,3) t(2)] dict_get_updated
    using k assms(2,4) t(1) by (auto simp: upsert_def)
  ultimately show ?thesis by blast
next
  case False
  then have "map (\<lambda>c. (c, dict_get s c)) (ms_insert stmt) \<in> set (merge_rows_of stmt source target)"
    using assms(3) by (auto simp: merge_rows_of_def inserted_rows_def)
  then show ?thesis by (rule bexI [rotated]) (simp add: dict_get_row)
qed

section \<open>Properties\<close>

lemma runs_mergesD:
  assumes "runs_merges client" "read_merge sql = Some stmt" "w (ms_target stmt) = Some (ms_insert stmt, rows)"
    and "w (ms_source stmt) = Some (scolumns, source)" "set (ms_on stmt) \<union> set (ms_update stmt) \<subseteq> set (ms_insert stmt)"
    and "distinct (ms_insert stmt)" "distinct (ms_update stmt)" "set (ms_insert stmt) \<subseteq> set scolumns"
    and "keyed_rows (ms_on stmt) source"
  shows "ba_query client sql w = Inr (merge_stats stmt source rows,
    w(ms_target stmt \<mapsto> (ms_insert stmt, merge_rows_of stmt source rows)))"
  by (rule assms(1) [unfolded runs_merges_def, THEN conjunct2, rule_format]) (use assms in simp)

lemma merge_to_table_effect:
  assumes "runs_merges client" "w target = Some (columns, rows)" "w staging = Some (scolumns, source)"
    and "list_all column_name columns" "distinct columns" "set columns \<subseteq> set scolumns"
    and "CHR 0x60 \<notin> set target" "CHR 0x60 \<notin> set staging"
    and "keys \<noteq> []" "set keys \<subset> set columns" "keyed_rows keys source"
  shows "merge_to_table client staging target keys w =
    Inr (\<lparr>mr_target_table = target,
        mr_rows_inserted = int (length (inserted_rows (merge_stmt staging target keys columns) source rows)),
        mr_rows_updated = int (length (filter (\<lambda>t. row_key keys t \<in> set (map (row_key keys) source)) rows)),
        mr_rows_deleted = 0\<rparr>,
      w(target \<mapsto> (columns, merge_rows_of (merge_stmt staging target keys columns) source rows)))"
proof -
  let ?stmt = "merge_stmt staging target keys columns"
  have f: "ms_target ?stmt = target" "ms_source ?stmt = staging" "ms_on ?stmt = keys" "ms_insert ?stmt = columns"
    "ms_update ?stmt = filter (\<lambda>c. c \<notin> set keys) columns"
    by (simp_all add: merge_stmt_def)
  have "plain_stmt ?stmt" using assms(4,7,8,10) by (auto simp: plain_stmt_def f list_all_iff)
  moreover have "ms_insert ?stmt \<noteq> []" "ms_on ?stmt \<noteq> []" "ms_update ?stmt \<noteq> []"
    using assms(9,10) by (auto simp: f filter_empty_conv)
  ultimately have read: "read_merge (merge_sql ?stmt) = Some ?stmt" by (simp add: read_merge_back)
  have "ba_schema client target w = Inr columns" using assms(1,2) unfolding runs_merges_def by blast
  moreover have "ba_query client (merge_sql ?stmt) w =
      Inr (merge_stats ?stmt source rows, w(target \<mapsto> (columns, merge_rows_of ?stmt source rows)))"
    using runs_mergesD [OF assms(1) read, unfolded f] assms(2,3,5,6,10,11) by auto
  moreover have "dml_count (merge_stats ?stmt source rows) ''inserted_row_count'' = Inr (int (length (inserted_rows ?stmt source rows)))"
    "dml_count (merge_stats ?stmt source rows) ''updated_row_count'' =
      Inr (int (length (filter (\<lambda>t. row_key keys t \<in> set (map (row_key keys) source)) rows)))"
    "dml_count (merge_stats ?stmt source rows) ''deleted_row_count'' = Inr 0"
    by (simp_all add: dml_count_def merge_stats_def dict_get_or_def py_or_def f)
  ultimately show ?thesis by (simp add: merge_to_table_def)
qed

text \<open>C8: a merge is an upsert on the entity keys and safe to replay. Let the client run texts that read as
  a merge statement, the columns of the target need no quotes and be in the staging table, the keys be
  some but not all of them, one row per key in both tables and no null key in staging. Then the text
  the function sends is such a statement and the target keeps one row per key, has the keys it had and
  those of the staging table, shows every staging row in all columns (the run partition included) and
  leaves the rows of other keys alone; the result counts the inserted and the updated rows; and the
  same merge again inserts nothing and changes nothing.\<close>

theorem merge_replay_safe:
  assumes client: "runs_merges client" and tables: "staging \<noteq> target" "w target = Some (columns, rows)"
      "w staging = Some (scolumns, source)"
    and names: "list_all column_name columns" "distinct columns" "set columns \<subseteq> set scolumns"
      "CHR 0x60 \<notin> set target" "CHR 0x60 \<notin> set staging"
    and keys: "keys \<noteq> []" "set keys \<subset> set columns" "keyed_rows keys source" "distinct (map (row_key keys) rows)"
    and rows: "\<forall>t \<in> set rows. map fst t = columns"
  shows "\<exists>rows' result result2. merge_to_table client staging target keys w = Inr (result, w(target \<mapsto> (columns, rows')))
    \<and> distinct (map (row_key keys) rows')
    \<and> set (map (row_key keys) rows') = set (map (row_key keys) rows) \<union> set (map (row_key keys) source)
    \<and> (\<forall>s \<in> set source. \<exists>t \<in> set rows'. \<forall>c \<in> set columns. dict_get t c = dict_get s c)
    \<and> (\<forall>t \<in> set rows. row_key keys t \<notin> set (map (row_key keys) source) \<longrightarrow> t \<in> set rows')
    \<and> mr_rows_inserted result = int (length (filter (\<lambda>s. row_key keys s \<notin> set (map (row_key keys) rows)) source))
    \<and> mr_rows_updated result = int (length (filter (\<lambda>t. row_key keys t \<in> set (map (row_key keys) source)) rows))
    \<and> merge_to_table client staging target keys (w(target \<mapsto> (columns, rows'))) = Inr (result2, w(target \<mapsto> (columns, rows')))
    \<and> mr_rows_inserted result2 = 0"
proof -
  let ?stmt = "merge_stmt staging target keys columns"
  let ?new = "merge_rows_of ?stmt source rows"
  note effect = merge_to_table_effect [OF client _ _ names keys(1-3)]
  have f: "ms_on ?stmt = keys" "ms_insert ?stmt = columns" by (simp_all add: merge_stmt_def)
  have up: "upsert ?stmt" using keys(2) by (intro merge_stmt_upsert) auto
  have src: "keyed_rows (ms_on ?stmt) source" using keys(3) by (simp add: f)
  obtain r1 where r1: "merge_to_table client staging target keys w = Inr (r1, w(target \<mapsto> (columns, ?new)))"
    "mr_rows_inserted r1 = int (length (inserted_rows ?stmt source rows))"
    "mr_rows_updated r1 = int (length (filter (\<lambda>t. row_key keys t \<in> set (map (row_key keys) source)) rows))"
    using effect [OF tables(2,3)] by simp
  have "merge_to_table client staging target keys (w(target \<mapsto> (columns, ?new))) =
      Inr (\<lparr>mr_target_table = target, mr_rows_inserted = int (length (inserted_rows ?stmt source ?new)),
        mr_rows_updated = int (length (filter (\<lambda>t. row_key keys t \<in> set (map (row_key keys) source)) ?new)),
        mr_rows_deleted = 0\<rparr>, w(target \<mapsto> (columns, ?new), target \<mapsto> (columns, merge_rows_of ?stmt source ?new)))"
    using tables(1,3) by (intro effect) simp_all
  then obtain r2 where r2: "merge_to_table client staging target keys (w(target \<mapsto> (columns, ?new))) =
      Inr (r2, w(target \<mapsto> (columns, ?new)))" "mr_rows_inserted r2 = 0"
    by (simp add: merge_rows_idem [OF src up] nothing_inserted_again [OF up])
  show ?thesis
  proof (intro exI conjI ballI impI)
    show "merge_to_table client staging target keys w = Inr (r1, w(target \<mapsto> (columns, ?new)))" by (rule r1(1))
    show "merge_to_table client staging target keys (w(target \<mapsto> (columns, ?new))) = Inr (r2, w(target \<mapsto> (columns, ?new)))"
      by (rule r2(1))
    show "distinct (map (row_key keys) ?new)" "set (map (row_key keys) ?new) =
        set (map (row_key keys) rows) \<union> set (map (row_key keys) source)"
      unfolding merge_keys [OF up, unfolded f(1)] using keys(3,4) by (auto simp: keyed_rows_def)
    show "\<exists>t \<in> set ?new. \<forall>c \<in> set columns. dict_get t c = dict_get s c" if "s \<in> set source" for s
      using merge_rows_source [OF src up that, of rows] rows by (simp add: f)
    show "t \<in> set ?new" if "t \<in> set rows" "row_key keys t \<notin> set (map (row_key keys) source)" for t
      using that merged_row_other [of ?stmt t source] by (force simp: merge_rows_of_def f)
  qed (use r1(2,3) r2(2) in \<open>simp_all add: inserted_rows_def merge_stmt_def\<close>)
qed

text \<open>A client that reads the text it is given, and a table of two entities of which a run rewrites one and
  adds a third.\<close>

definition sample_columns :: "string list" where
  "sample_columns = [''id'', ''amount'', ''run_partition_id'']"

definition entity_row :: "string \<Rightarrow> int \<Rightarrow> string \<Rightarrow> pydict" where
  "entity_row i n rp = [(''id'', PStr i), (''amount'', PInt n), (''run_partition_id'', PStr rp)]"

definition sample_admin :: BqAdmin where
  "sample_admin = \<lparr>ba_load_table_from_uri = (\<lambda>_ _ _ w. Inr (PNone, w)), ba_num_bytes = (\<lambda>_ _. Inr PNone),
     ba_schema = (\<lambda>t w. case w t of None \<Rightarrow> Inl (Raise ExternalError ''Not found'') | Some (columns, _) \<Rightarrow> Inr columns),
     ba_query = (\<lambda>sql w. case read_merge sql of None \<Rightarrow> Inl (Raise ExternalError ''Syntax error'')
       | Some stmt \<Rightarrow> (case (w (ms_source stmt), w (ms_target stmt)) of
           (Some (_, source), Some (columns, rows)) \<Rightarrow>
             Inr (merge_stats stmt source rows, w(ms_target stmt \<mapsto> (columns, merge_rows_of stmt source rows)))
         | _ \<Rightarrow> Inl (Raise ExternalError ''Not found''))),
     ba_create_table = (\<lambda>_ _ w. Inr w)\<rparr>"

definition sample_warehouse :: warehouse where
  "sample_warehouse = [''t'' \<mapsto> (sample_columns, [entity_row ''a'' 1 ''r1'', entity_row ''b'' 2 ''r1'']),
     ''s'' \<mapsto> (sample_columns, [entity_row ''b'' 2 ''r2'', entity_row ''c'' 3 ''r2''])]"

lemma sample_admin_merges: "runs_merges sample_admin"
  by (simp add: runs_merges_def sample_admin_def)

theorem merge_replay_safe_witness:
  "\<exists>rows' result. merge_to_table sample_admin ''s'' ''t'' [''id''] sample_warehouse =
      Inr (result, sample_warehouse(''t'' \<mapsto> (sample_columns, rows')))
    \<and> set (map (row_key [''id'']) rows') = {[PStr ''a''], [PStr ''b''], [PStr ''c'']}
    \<and> mr_rows_inserted result = 1 \<and> mr_rows_updated result = 1"
proof -
  let ?source = "[entity_row ''b'' 2 ''r2'', entity_row ''c'' 3 ''r2'']"
  let ?rows = "[entity_row ''a'' 1 ''r1'', entity_row ''b'' 2 ''r1'']"
  have k: "map (row_key [''id'']) ?rows = [[PStr ''a''], [PStr ''b'']]" "map (row_key [''id'']) ?source = [[PStr ''b''], [PStr ''c'']]"
    by (simp_all add: row_key_def entity_row_def dict_get_def)
  have counts: "filter (\<lambda>s. row_key [''id''] s \<notin> set (map (row_key [''id'']) ?rows)) ?source = [entity_row ''c'' 3 ''r2'']"
    "filter (\<lambda>t. row_key [''id''] t \<in> set (map (row_key [''id'']) ?source)) ?rows = [entity_row ''b'' 2 ''r1'']"
    by (simp_all add: row_key_def entity_row_def dict_get_def)
  have tables: "sample_warehouse ''t'' = Some (sample_columns, ?rows)" "sample_warehouse ''s'' = Some (sample_columns, ?source)"
    by (simp_all add: sample_warehouse_def)
  have names: "list_all column_name sample_columns" by code_simp
  have keyed: "keyed_rows [''id''] ?source" "distinct (map (row_key [''id'']) ?rows)"
    by (simp_all add: keyed_rows_def row_key_def entity_row_def dict_get_def)
  have cols: "set [''id''] \<subset> set sample_columns" by (auto simp: sample_columns_def)
  have rest: "(''s''::string) \<noteq> ''t''" "distinct sample_columns" "set sample_columns \<subseteq> set sample_columns"
    "CHR 0x60 \<notin> set ''t''" "CHR 0x60 \<notin> set ''s''" "[''id''] \<noteq> []" "\<forall>t \<in> set ?rows. map fst t = sample_columns"
    by (simp_all add: sample_columns_def entity_row_def)
  from merge_replay_safe [where staging = "''s''" and target = "''t''" and keys = "[''id'']", OF sample_admin_merges
      rest(1) tables names rest(2-6) cols keyed rest(7)]
  show ?thesis unfolding counts unfolding k by (elim exE conjE) (intro exI conjI, assumption, auto)
qed

text \<open>The file of a partition holds the records it was written from: from the file alone the records
  of the six raw datasets are determined, nested call trees included, locally and in the bucket.\<close>

theorem written_files_determine_records:
  assumes "xs \<noteq> []" "ys \<noteq> []"
    and "snd (write_traces_parquet clock size_of xs path rp fs) (object_path path rp) =
      snd (write_traces_parquet clock' size_of' ys path rp fs') (object_path path rp)"
  shows "xs = ys"
  using assms unfolding write_traces_parquet_def by (rule trace_rows.written_file_determines)

text \<open>Creating a table again is accepted when the client says that it exists; a schema file whose top
  level is a list is not read.\<close>

lemma create_table_twice:
  assumes "schema_fields payload = Inr schema"
    and "ba_create_table client table schema w = Inl (Raise ExternalError msg)" "contains ''Already Exists'' msg"
  shows "create_table_from_schema client table payload w = Inr w"
  using assms by (simp add: create_table_from_schema_def exc_str_def)

lemma bare_list_schema_fails:
  "\<exists>msg. create_table_from_schema client table (PList cols) w = Inl (Raise AttributeError msg)"
  by (simp add: create_table_from_schema_def schema_fields_def)

end
