(* ===== verification/Pipeline_Dag.thy ===== *)
theory Pipeline_Dag
  imports Abi_Registry Checkpoint_Store
begin

text \<open>
  \<open>airflow/dags/staking_pipeline_dag.py\<close>: the tasks of the pipeline, the dependencies the module
  declares between them and what each task does. Without Airflow the module builds the graph from
  its own stand-ins, which are modelled here: objects that record their upstreams. The scheduler,
  Airflow's or any other, is a step relation: it may run a task that has not run once all of its
  upstreams have. A task receives the context \<open>kw\<close> as keyword arguments; the \<open>dbt\<close> command is a
  parameter, and so is the loading of the ABI registry.
\<close>

section \<open>Tasks and dependencies\<close>

datatype task_body = Decode_events_task | Reconcile_task | Advance_checkpoint_task | Bash string

record Stand =
  st_task_id :: string
  st_body :: task_body
  st_upstreams :: "string list"

definition stand :: "string \<Rightarrow> task_body \<Rightarrow> Stand" where
  "stand task_id body = \<lparr>st_task_id = task_id, st_body = body, st_upstreams = []\<rparr>"

text \<open>\<open>a >> other\<close>, where \<open>other\<close> is a task or a list of tasks: every one of them gets \<open>a\<close> as an
  upstream.\<close>

definition rshift :: "string \<Rightarrow> string list \<Rightarrow> Stand list \<Rightarrow> Stand list" where
  "rshift a other tasks = map (\<lambda>t. if st_task_id t \<in> set other
     then t\<lparr>st_upstreams := st_upstreams t @ [a]\<rparr> else t) tasks"

text \<open>\<open>a >> b >> c\<close>: each operator yields its right operand.\<close>

fun rshift_chain :: "string list \<Rightarrow> Stand list \<Rightarrow> Stand list" where
  "rshift_chain (a # b # rest) tasks = rshift_chain (b # rest) (rshift a [b] tasks)"
| "rshift_chain _ tasks = tasks"

definition pipeline_chain :: "string list" where
  "pipeline_chain = [''bq_extract_logs'', ''decode_events'', ''reconcile'', ''dbt_build'', ''advance_checkpoint'']"

definition build_pipeline_dag :: "Stand list" where
  "build_pipeline_dag = rshift_chain pipeline_chain
     [stand ''bq_extract_logs'' Decode_events_task, stand ''decode_events'' Decode_events_task,
      stand ''reconcile'' Reconcile_task, stand ''dbt_build'' (Bash ''cd dbt && dbt build --target prod''),
      stand ''advance_checkpoint'' Advance_checkpoint_task]"

text \<open>The settings of the graph: every four hours, one run at a time, no catching up, two retries.\<close>

record DagConfig =
  dg_dag_id :: string
  dg_description :: string
  dg_schedule :: string
  dg_start_date :: "int \<times> int \<times> int"
  dg_catchup :: bool
  dg_max_active_runs :: nat
  dg_owner :: string
  dg_retries :: nat
  dg_retry_delay_minutes :: nat
  dg_tags :: "string list"

definition pipeline_config :: DagConfig where
  "pipeline_config = \<lparr>dg_dag_id = ''staking_pipeline'',
     dg_description = ''Chainlink Staking v0.2 + Payment Abstraction pipeline. ''
       @ ''BQ-primary ingestion '' @ [CHR 0xE2, CHR 0x86, CHR 0x92] @ '' Python decode '' @ [CHR 0xE2, CHR 0x86, CHR 0x92]
       @ '' reconcile '' @ [CHR 0xE2, CHR 0x86, CHR 0x92] @ '' dbt.'',
     dg_schedule = ''0 */4 * * *'', dg_start_date = (2026, 1, 1), dg_catchup = False, dg_max_active_runs = 1,
     dg_owner = ''data-engineering'', dg_retries = 2, dg_retry_delay_minutes = 5,
     dg_tags = [''chainlink'', ''staking'', ''payment_abstraction'']\<rparr>"

section \<open>What the tasks do\<close>

definition decode_events_task :: "AbiRegistry res \<Rightarrow> unit res" where
  \<comment> \<open>loads the registry from the configured directories and uses neither it nor the decoder\<close>
  "decode_events_task registry = rbind registry (\<lambda>_. Inr ())"

definition advance_checkpoint_task :: "string \<Rightarrow> pydict \<Rightarrow> files \<Rightarrow> files res" where
  "advance_checkpoint_task root kw fs =
     rbind (py_int (dict_get_or kw ''block'' (PInt 0))) (\<lambda>block.
     let rpid = py_str (dict_get_or kw ''run_partition_id'' (PStr ''unknown'')) in
     Inr (set_last_processed_block root 1 ''staking_pipeline'' block rpid fs))"

record TaskEnv =
  te_registry :: "AbiRegistry res"
  te_shell :: "string \<Rightarrow> unit res"
  te_root :: string
  te_kw :: pydict

fun run_task :: "TaskEnv \<Rightarrow> task_body \<Rightarrow> files \<Rightarrow> files res" where
  "run_task env Decode_events_task fs = rbind (decode_events_task (te_registry env)) (\<lambda>_. Inr fs)"
| "run_task env Reconcile_task fs = Inr fs"
| "run_task env Advance_checkpoint_task fs = advance_checkpoint_task (te_root env) (te_kw env) fs"
| "run_task env (Bash command) fs = rbind (te_shell env command) (\<lambda>_. Inr fs)"

section \<open>A run\<close>

text \<open>The identifiers of the tasks that succeeded, and the checkpoint files.\<close>

type_synonym dag_state = "string set \<times> files"

inductive dag_step :: "TaskEnv \<Rightarrow> Stand list \<Rightarrow> dag_state \<Rightarrow> dag_state \<Rightarrow> bool" for env tasks where
  run: "t \<in> set tasks \<Longrightarrow> st_task_id t \<notin> finished \<Longrightarrow> set (st_upstreams t) \<subseteq> finished \<Longrightarrow>
    run_task env (st_body t) fs = Inr fs' \<Longrightarrow>
    dag_step env tasks (finished, fs) (insert (st_task_id t) finished, fs')"

inductive_cases dag_stepE: "dag_step env tasks s s'"

definition dag_reaches :: "TaskEnv \<Rightarrow> files \<Rightarrow> dag_state \<Rightarrow> bool" where
  "dag_reaches env fs s = (dag_step env build_pipeline_dag)\<^sup>*\<^sup>* ({}, fs) s"

lemma pipeline_tasks: "build_pipeline_dag =
  [\<lparr>st_task_id = ''bq_extract_logs'', st_body = Decode_events_task, st_upstreams = []\<rparr>,
   \<lparr>st_task_id = ''decode_events'', st_body = Decode_events_task, st_upstreams = [''bq_extract_logs'']\<rparr>,
   \<lparr>st_task_id = ''reconcile'', st_body = Reconcile_task, st_upstreams = [''decode_events'']\<rparr>,
   \<lparr>st_task_id = ''dbt_build'', st_body = Bash ''cd dbt && dbt build --target prod'', st_upstreams = [''reconcile'']\<rparr>,
   \<lparr>st_task_id = ''advance_checkpoint'', st_body = Advance_checkpoint_task, st_upstreams = [''dbt_build'']\<rparr>]"
  by (simp add: build_pipeline_dag_def pipeline_chain_def stand_def rshift_def)

lemma pipeline_at:
  assumes "i < 5"
  shows "build_pipeline_dag ! i \<in> set build_pipeline_dag \<and> st_task_id (build_pipeline_dag ! i) = pipeline_chain ! i
    \<and> st_upstreams (build_pipeline_dag ! i) = (case i of 0 \<Rightarrow> [] | Suc j \<Rightarrow> [pipeline_chain ! j])
    \<and> (st_body (build_pipeline_dag ! i) = Advance_checkpoint_task \<longleftrightarrow> i = 4)"
proof -
  have "\<forall>i \<in> {0, 1, 2, 3, 4}. st_task_id (build_pipeline_dag ! i) = pipeline_chain ! i
      \<and> st_upstreams (build_pipeline_dag ! i) = (case i of 0 \<Rightarrow> [] | Suc j \<Rightarrow> [pipeline_chain ! j])
      \<and> (st_body (build_pipeline_dag ! i) = Advance_checkpoint_task \<longleftrightarrow> i = 4)"
    by (simp add: pipeline_tasks pipeline_chain_def numeral_eq_Suc)
  moreover have "{..<5} = {0, 1, 2, 3, 4 :: nat}" by auto
  moreover have "build_pipeline_dag ! i \<in> set build_pipeline_dag"
    by (rule nth_mem) (use assms in \<open>simp add: pipeline_tasks\<close>)
  ultimately show ?thesis using assms by blast
qed

lemma pipeline_nth:
  assumes "t \<in> set build_pipeline_dag"
  obtains i where "i < 5" "t = build_pipeline_dag ! i"
proof -
  have "length build_pipeline_dag = 5" by (simp add: pipeline_tasks)
  with assms show ?thesis by (metis in_set_conv_nth that)
qed

lemma distinct_chain: "distinct pipeline_chain" "length pipeline_chain = 5"
  by (simp_all add: pipeline_chain_def)

section \<open>The order of a run\<close>

lemma chain_prefix: "j < 5 \<Longrightarrow> pipeline_chain ! j \<in> set (take n pipeline_chain) \<longleftrightarrow> j < n"
  by (auto simp: in_set_conv_nth distinct_chain nth_eq_iff_index_eq)

lemma run_task_other: "run_task env b fs = Inr fs' \<Longrightarrow> b \<noteq> Advance_checkpoint_task \<Longrightarrow> fs' = fs"
  by (cases b) (auto elim!: rbind_InrE)

definition run_inv :: "TaskEnv \<Rightarrow> files \<Rightarrow> dag_state \<Rightarrow> bool" where
  "run_inv env fs s = (\<exists>n \<le> 5. fst s = set (take n pipeline_chain) \<and>
     (if n = 5 then run_task env Advance_checkpoint_task fs = Inr (snd s) else snd s = fs))"

lemma run_inv_step:
  assumes "run_inv env fs s" "dag_step env build_pipeline_dag s s'"
  shows "run_inv env fs s'"
proof -
  from assms(2) obtain t finished fs1 fs2 where s: "s = (finished, fs1)" "s' = (insert (st_task_id t) finished, fs2)"
    and t: "t \<in> set build_pipeline_dag" "st_task_id t \<notin> finished" "set (st_upstreams t) \<subseteq> finished"
    and r: "run_task env (st_body t) fs1 = Inr fs2"
    by (elim dag_stepE) blast
  from t(1) obtain i where "i < 5" "t = build_pipeline_dag ! i" by (rule pipeline_nth)
  then have i: "i < 5" "st_task_id t = pipeline_chain ! i"
    "st_upstreams t = (case i of 0 \<Rightarrow> [] | Suc j \<Rightarrow> [pipeline_chain ! j])"
    "st_body t = Advance_checkpoint_task \<longleftrightarrow> i = 4"
    using pipeline_at [of i] by auto
  from assms(1) obtain n where n: "n \<le> 5" "finished = set (take n pipeline_chain)"
    "if n = 5 then run_task env Advance_checkpoint_task fs = Inr fs1 else fs1 = fs"
    unfolding run_inv_def s(1) fst_conv snd_conv by blast
  have "\<not> i < n" using t(2) by (simp add: n(2) i(2) chain_prefix [OF i(1)])
  moreover have "i \<le> n"
    using t(3) i(1,3) by (cases i) (auto simp: n(2) chain_prefix Suc_le_eq)
  ultimately have [simp]: "n = i" by simp
  have ids: "insert (st_task_id t) finished = set (take (Suc i) pipeline_chain)"
    using i(1) by (simp add: n(2) i(2) take_Suc_conv_app_nth distinct_chain)
  have "if Suc i = 5 then run_task env Advance_checkpoint_task fs = Inr fs2 else fs2 = fs"
    using r run_task_other [OF r] i(1,4) n(3) by (cases "i = 4") auto
  then show ?thesis unfolding run_inv_def s(2) fst_conv snd_conv ids
    using i(1) by (intro exI [of _ "Suc i"]) simp
qed

lemma dag_reaches_inv: "dag_reaches env fs s \<Longrightarrow> run_inv env fs s"
  unfolding dag_reaches_def
proof (induction rule: rtranclp_induct)
  case base
  show ?case by (simp add: run_inv_def exI [of _ 0])
next
  case (step s s')
  then show ?case by (metis run_inv_step)
qed

text \<open>C17: in every run, in whatever order a scheduler picks the tasks, the finished tasks are a prefix of
  the declared chain and the checkpoint changes only in the last task, after all others succeeded;
  and with the context Airflow passes, which names no block, that task records block 0, whatever was
  recorded before: the checkpoint then reads as that of a pipeline that never ran.\<close>

theorem pipeline_checkpoint:
  assumes "dag_reaches env fs (finished, fs')"
  shows "(\<exists>n. finished = set (take n pipeline_chain))
    \<and> (if ''advance_checkpoint'' \<in> finished
       then finished = set pipeline_chain \<and> advance_checkpoint_task (te_root env) (te_kw env) fs = Inr fs' \<and>
         (map_of (te_kw env) ''block'' = None \<longrightarrow>
            get_last_processed_block (te_root env) fs' 1 ''staking_pipeline'' = Inr None)
       else fs' = fs)"
proof -
  from dag_reaches_inv [OF assms] obtain n where n: "n \<le> 5" "finished = set (take n pipeline_chain)"
    "if n = 5 then advance_checkpoint_task (te_root env) (te_kw env) fs = Inr fs' else fs' = fs"
    unfolding run_inv_def fst_conv snd_conv run_task.simps by blast
  have last: "''advance_checkpoint'' = pipeline_chain ! 4" by (simp add: pipeline_chain_def)
  have adv: "''advance_checkpoint'' \<in> finished \<longleftrightarrow> n = 5"
    using n(1) unfolding n(2) last by (subst chain_prefix) auto
  have "get_last_processed_block (te_root env) fs' 1 ''staking_pipeline'' = Inr None"
    if "n = 5" "map_of (te_kw env) ''block'' = None"
    using n(3) that by (auto simp: advance_checkpoint_task_def dict_get_or_def job_block_read_back)
  moreover have "finished = set pipeline_chain" if "n = 5" using n(2) that distinct_chain(2) by simp
  moreover have "\<exists>n. finished = set (take n pipeline_chain)" using n(2) by blast
  ultimately show ?thesis using n(3) unfolding adv by simp
qed

definition sample_env :: TaskEnv where
  "sample_env = \<lparr>te_registry = Inr [], te_shell = (\<lambda>_. Inr ()), te_root = ''c'', te_kw = [(''ds'', PStr ''2026-01-01'')]\<rparr>"

lemma sample_run: "dag_reaches sample_env fs (set pipeline_chain, set_last_processed_block ''c'' 1 ''staking_pipeline'' 0 ''unknown'' fs)"
proof -
  have s: "dag_step sample_env build_pipeline_dag (set (take i pipeline_chain), g) (set (take (Suc i) pipeline_chain), g')"
    if "i < 5" "run_task sample_env (st_body (build_pipeline_dag ! i)) g = Inr g'" for i g g'
  proof -
    have "set (st_upstreams (build_pipeline_dag ! i)) \<subseteq> set (take i pipeline_chain)"
      using that(1) pipeline_at [of i] by (cases i) (auto simp: chain_prefix)
    then show ?thesis
      using dag_step.run [of "build_pipeline_dag ! i" build_pipeline_dag "set (take i pipeline_chain)" sample_env g g']
        that pipeline_at [of i]
      by (simp add: take_Suc_conv_app_nth distinct_chain chain_prefix)
  qed
  have r: "run_task sample_env (st_body (build_pipeline_dag ! 0)) fs = Inr fs"
    "run_task sample_env (st_body (build_pipeline_dag ! 1)) fs = Inr fs"
    "run_task sample_env (st_body (build_pipeline_dag ! 2)) fs = Inr fs"
    "run_task sample_env (st_body (build_pipeline_dag ! 3)) fs = Inr fs"
    "run_task sample_env (st_body (build_pipeline_dag ! 4)) fs =
       Inr (set_last_processed_block ''c'' 1 ''staking_pipeline'' 0 ''unknown'' fs)"
    by (simp_all add: pipeline_tasks sample_env_def decode_events_task_def advance_checkpoint_task_def dict_get_or_def)
  note step = s [OF _ r(1)] s [OF _ r(2)] s [OF _ r(3)] s [OF _ r(4)] s [OF _ r(5)]
  have "dag_reaches sample_env fs (set (take 5 pipeline_chain),
      set_last_processed_block ''c'' 1 ''staking_pipeline'' 0 ''unknown'' fs)"
    unfolding dag_reaches_def using step by (auto intro!: converse_rtranclp_into_rtranclp simp: numeral_eq_Suc)
  then show ?thesis by (simp add: distinct_chain)
qed

theorem pipeline_checkpoint_witness:
  "get_last_processed_block ''c'' (set_last_processed_block ''c'' 1 ''staking_pipeline'' 0 ''unknown''
     (set_last_processed_block ''c'' 1 ''staking_pipeline'' 19000000 ''r1'' Map.empty)) 1 ''staking_pipeline'' = Inr None"
  using pipeline_checkpoint [OF sample_run [of "set_last_processed_block ''c'' 1 ''staking_pipeline'' 19000000 ''r1'' Map.empty"]]
  by (simp add: sample_env_def pipeline_chain_def)

end
