(* ===== verification/Repo_Scripts.thy ===== *)
theory Repo_Scripts
  imports Abi_Registry
begin

text \<open>
  Two scripts that guard the repository. \<open>scripts/compute_topic0.py\<close> hashes a canonical event
  signature; \<open>scripts/check_analytics_refs.py\<close> rejects analytics models that read anything but marts.
  The regular expressions of the second are the matchers below; the files are a list of names and
  texts in the order of \<open>sorted\<close>.
\<close>

section \<open>\<open>compute_topic0.py\<close>\<close>

definition validate_canonical :: "string \<Rightarrow> unit res" where
  "validate_canonical signature =
     (if contains '' '' signature then value_error (''non-canonical signature '' @ repr_str signature @
         '': contains spaces (canonical form: '' @ [CHR 0x27] @ ''Transfer(address,address,uint256)'' @ [CHR 0x27] @ '')'')
      else if contains ''indexed'' signature then value_error (''non-canonical signature '' @ repr_str signature @
         '': drop the '' @ [CHR 0x27] @ ''indexed'' @ [CHR 0x27] @ '' keyword'')
      else if \<not> contains ''('' signature \<or> \<not> ends_with signature '')''
      then value_error (''non-canonical signature '' @ repr_str signature @ '': expected EventName(types)'')
      else Inr ())"

definition compute_topic0 :: "(string \<Rightarrow> byte list) \<Rightarrow> string \<Rightarrow> string res" where
  "compute_topic0 keccak canonical_signature =
     rbind (validate_canonical canonical_signature) (\<lambda>_. Inr (''0x'' @ to_hex (keccak canonical_signature)))"

text \<open>The exit code, and what is printed on standard output.\<close>

definition topic0_main :: "(string \<Rightarrow> byte list) \<Rightarrow> string list \<Rightarrow> int \<times> string list" where
  "topic0_main keccak argv = (case argv of
     [_, signature] \<Rightarrow> (case compute_topic0 keccak signature of Inr t \<Rightarrow> (0, [t]) | Inl _ \<Rightarrow> (1, []))
   | _ \<Rightarrow> (2, []))"

section \<open>\<open>check_analytics_refs.py\<close>: comments\<close>

text \<open>What follows the first occurrence of a two-character mark.\<close>

fun after_mark :: "char \<Rightarrow> char \<Rightarrow> string \<Rightarrow> string option" where
  "after_mark a b (c # d # s) = (if c = a \<and> d = b then Some s else after_mark a b (d # s))"
| "after_mark a b _ = None"

lemma after_mark_length: "after_mark a b s = Some t \<Longrightarrow> length t < length s"
  by (induction a b s rule: after_mark.induct) (auto split: if_splits)

function strip_block_comments :: "string \<Rightarrow> string" where
  "strip_block_comments (c # d # s) = (if c = CHR ''/'' \<and> d = CHR ''*''
     then (case after_mark (CHR ''*'') (CHR ''/'') s of
         Some rest \<Rightarrow> strip_block_comments rest | None \<Rightarrow> c # strip_block_comments (d # s))
     else c # strip_block_comments (d # s))"
| "strip_block_comments [c] = [c]"
| "strip_block_comments [] = []"
  by pat_completeness auto
termination
  by (relation "measure length") (auto dest: after_mark_length)

definition newline :: char where "newline = CHR 0x0A"

text \<open>\<open>in_comment\<close>: between two dashes and the end of their line.\<close>

fun strip_line_comments :: "bool \<Rightarrow> string \<Rightarrow> string" where
  "strip_line_comments True (c # s) =
     (if c = newline then c # strip_line_comments False s else strip_line_comments True s)"
| "strip_line_comments False (c # d # s) =
     (if c = CHR ''-'' \<and> d = CHR ''-'' then strip_line_comments True s else c # strip_line_comments False (d # s))"
| "strip_line_comments False [c] = [c]"
| "strip_line_comments _ [] = []"

definition strip_sql_comments :: "string \<Rightarrow> string" where
  "strip_sql_comments sql = strip_line_comments False (strip_block_comments sql)"

section \<open>References\<close>

text \<open>The class \<open>\s\<close> on one-byte characters.\<close>

definition re_space :: "char \<Rightarrow> bool" where
  "re_space c = (let n = (of_char c :: nat) in n \<in> {9, 10, 11, 12, 13, 28, 29, 30, 31, 32, 133, 160})"

definition skip_space :: "string \<Rightarrow> string" where "skip_space s = dropWhile re_space s"

definition expect :: "string \<Rightarrow> string \<Rightarrow> string option" where
  "expect p s = (if starts_with s p then Some (drop (length p) s) else None)"

definition is_quote :: "char \<Rightarrow> bool" where "is_quote c = (c = CHR 0x27 \<or> c = CHR 0x22)"

definition quote_then :: "string \<Rightarrow> string option" where
  "quote_then s = (case s of c # t \<Rightarrow> if is_quote c then Some t else None | [] \<Rightarrow> None)"

text \<open>\<open>REF_RE\<close> and \<open>SOURCE_RE\<close> at the start of a text: the name, and what follows the match. No part
  of the patterns can give characters back to the part before it.\<close>

definition match_open :: "string \<Rightarrow> string \<Rightarrow> string option" where
  "match_open keyword s = Option.bind (expect ''{{'' s) (\<lambda>s. expect (keyword @ ''('') (skip_space s))"

definition match_ref :: "string \<Rightarrow> (string \<times> string) option" where
  "match_ref s =
     Option.bind (match_open ''ref'' s) (\<lambda>s.
     Option.bind (quote_then (skip_space s)) (\<lambda>s.
     let name = takeWhile (\<lambda>c. \<not> is_quote c) s in
     if name = [] then None
     else Option.bind (quote_then (dropWhile (\<lambda>c. \<not> is_quote c) s)) (\<lambda>s.
     Option.bind (expect '')'' (skip_space s)) (\<lambda>s.
     Option.bind (expect ''}}'' (skip_space s)) (\<lambda>rest. Some (name, rest))))))"

fun has_source :: "string \<Rightarrow> bool" where
  "has_source [] = False"
| "has_source (c # s) = (match_open ''source'' (c # s) \<noteq> None \<or> has_source s)"

lemma expect_length: "expect p s = Some t \<Longrightarrow> length t \<le> length s"
  by (auto simp: expect_def split: if_splits)

lemma quote_then_length: "quote_then s = Some t \<Longrightarrow> length t < length s"
  by (auto simp: quote_then_def split: list.splits if_splits)

lemma skip_space_length: "length (skip_space s) \<le> length s"
  by (simp add: skip_space_def length_dropWhile_le)

lemma match_open_length: "match_open k s = Some t \<Longrightarrow> length t \<le> length s"
  unfolding match_open_def
  by (auto simp: Option.bind_eq_Some_conv dest!: expect_length intro: order_trans [OF _ skip_space_length] order_trans)

lemma match_ref_length:
  assumes "match_ref s = Some (name, rest)"
  shows "length rest < length s"
proof -
  from assms obtain s1 s2 s3 s4 where m: "match_open ''ref'' s = Some s1" "quote_then (skip_space s1) = Some s2"
    "quote_then (dropWhile (\<lambda>c. \<not> is_quote c) s2) = Some s3" "expect '')'' (skip_space s3) = Some s4"
    "expect ''}}'' (skip_space s4) = Some rest"
    by (auto simp: match_ref_def Let_def Option.bind_eq_Some_conv split: if_splits)
  have "length s1 \<le> length s" using m(1) by (rule match_open_length)
  moreover have "length s2 < length s1"
    using quote_then_length [OF m(2)] skip_space_length [of s1] by linarith
  moreover have "length s3 < length s2"
    using quote_then_length [OF m(3)] length_dropWhile_le [of "\<lambda>c. \<not> is_quote c" s2] by linarith
  moreover have "length s4 \<le> length s3"
    using expect_length [OF m(4)] skip_space_length [of s3] by linarith
  moreover have "length rest \<le> length s4"
    using expect_length [OF m(5)] skip_space_length [of s4] by linarith
  ultimately show ?thesis by linarith
qed

text \<open>\<open>REF_RE.finditer\<close>: the matches from left to right, none inside another.\<close>

function find_refs :: "string \<Rightarrow> string list" where
  "find_refs [] = []"
| "find_refs (c # s) = (case match_ref (c # s) of
     Some (name, rest) \<Rightarrow> name # find_refs rest | None \<Rightarrow> find_refs s)"
  by pat_completeness auto
termination
  by (relation "measure length") (auto dest: match_ref_length)

section \<open>The check\<close>

definition ALLOWED_STAGING_REFS :: "string list" where
  "ALLOWED_STAGING_REFS = [''stg_canonical_blocks'']"

definition FORBIDDEN_FRAGMENTS :: "string list" where
  "FORBIDDEN_FRAGMENTS = [''bigquery-public-data.crypto_ethereum'', ''crypto_ethereum.token_transfers'',
     ''token_transfers'', ''raw_'', ''decoded_'']"

definition quoted :: "string \<Rightarrow> string" where "quoted s = [CHR 0x27] @ s @ [CHR 0x27]"

definition file_violations :: "string list \<Rightarrow> string \<times> string \<Rightarrow> string list" where
  "file_violations marts f = (case f of (path, raw) \<Rightarrow> let stripped = strip_sql_comments raw in
     (if has_source stripped then [path @ '': forbidden source() call''] else []) @
     map (\<lambda>name. path @ '': ref('' @ quoted name @ '') is not a mart and not in the allowed staging refs (['' @
         quoted ''stg_canonical_blocks'' @ ''])'')
       (filter (\<lambda>name. name \<notin> set marts \<and> name \<notin> set ALLOWED_STAGING_REFS) (find_refs stripped)) @
     map (\<lambda>fragment. path @ '': contains forbidden fragment '' @ repr_str fragment @
         '' (analytics may not read raw/staging decoded or token_transfers)'')
       (filter (\<lambda>fragment. contains fragment stripped) FORBIDDEN_FRAGMENTS))"

text \<open>\<open>None\<close> for a directory that does not exist. The exit code and the violations printed.\<close>

definition check_refs_main :: "(string \<times> string) list option \<Rightarrow> string list option \<Rightarrow> int \<times> string list" where
  "check_refs_main analytics marts_dir = (case (analytics, marts_dir) of
     (Some files, Some marts) \<Rightarrow>
       if marts = [] then (1, [])
       else let violations = concat (map (file_violations marts) files) in
         (if violations \<noteq> [] then 1 else 0, violations)
   | _ \<Rightarrow> (1, []))"

section \<open>Models as parts\<close>

text \<open>A model as it is written: text, expressions and tags of the template language, references and
  calls of \<open>source\<close> with the spacing the patterns allow, and comments of both kinds.\<close>

datatype sql_part = Text string | Jinja string | Tag string
  | Ref "string \<times> string \<times> string \<times> string" char string | Source string string
  | Block_comment string | Line_comment string

fun render_part :: "sql_part \<Rightarrow> string" where
  "render_part (Text t) = t"
| "render_part (Jinja t) = ''{{'' @ t @ ''}}''"
| "render_part (Tag t) = ''{%'' @ t @ ''%}''"
| "render_part (Ref (a, b, c, d) q n) = ''{{'' @ a @ ''ref('' @ b @ [q] @ n @ [q] @ c @ '')'' @ d @ ''}}''"
| "render_part (Source a t) = ''{{'' @ a @ ''source('' @ t @ ''}}''"
| "render_part (Block_comment t) = ''/*'' @ t @ ''*/''"
| "render_part (Line_comment t) = ''--'' @ t @ [newline]"

definition render :: "sql_part list \<Rightarrow> string" where
  "render ps = concat (map render_part ps)"

text \<open>The model without its comments; a line comment leaves the end of its line.\<close>

definition code_part :: "sql_part \<Rightarrow> string" where
  "code_part p = (case p of Block_comment t \<Rightarrow> [] | Line_comment t \<Rightarrow> [newline] | _ \<Rightarrow> render_part p)"

definition code :: "sql_part list \<Rightarrow> string" where
  "code ps = concat (map code_part ps)"

definition refs_of :: "sql_part list \<Rightarrow> string list" where
  "refs_of ps = concat (map (\<lambda>p. case p of Ref _ _ n \<Rightarrow> [n] | _ \<Rightarrow> []) ps)"

definition calls_source :: "sql_part list \<Rightarrow> bool" where
  "calls_source ps = list_ex (\<lambda>p. case p of Source _ _ \<Rightarrow> True | _ \<Rightarrow> False) ps"

text \<open>What the parts may hold: no brace but the delimiters, no comment mark outside of comments, no end
  mark inside one; an expression is not itself a call of \<open>ref\<close> or \<open>source\<close>.\<close>

definition unmarked :: "string \<Rightarrow> bool" where
  "unmarked r = (\<not> contains ''/*'' r \<and> \<not> contains ''--'' r \<and> (r = [] \<or> last r \<noteq> CHR ''/'' \<and> last r \<noteq> CHR ''-''))"

abbreviation braceless :: "string \<Rightarrow> bool" where "braceless t \<equiv> CHR ''{'' \<notin> set t"

fun part_ok :: "sql_part \<Rightarrow> bool" where
  "part_ok (Text t) = (braceless t \<and> unmarked t)"
| "part_ok (Jinja t) = (braceless t \<and> unmarked (''{{'' @ t @ ''}}'') \<and> \<not> starts_with (skip_space t) ''ref(''
     \<and> \<not> starts_with (skip_space t) ''source('')"
| "part_ok (Tag t) = (braceless t \<and> unmarked (''{%'' @ t @ ''%}''))"
| "part_ok (Ref (a, b, c, d) q n) = (list_all re_space (a @ b @ c @ d) \<and> is_quote q \<and> n \<noteq> []
     \<and> list_all (\<lambda>x. \<not> is_quote x) n \<and> braceless n \<and> unmarked (render_part (Ref (a, b, c, d) q n)))"
| "part_ok (Source a t) = (list_all re_space a \<and> braceless t \<and> unmarked (render_part (Source a t)))"
| "part_ok (Block_comment t) = (\<not> contains ''*/'' t)"
| "part_ok (Line_comment t) = (newline \<notin> set t \<and> \<not> contains ''/*'' t)"

section \<open>Comments are removed, and nothing else\<close>

lemma strip_block_text:
  "\<not> contains ''/*'' r \<Longrightarrow> r = [] \<or> last r \<noteq> CHR ''/'' \<Longrightarrow> strip_block_comments (r @ s) = r @ strip_block_comments s"
proof (induction r)
  case (Cons c r)
  show ?case
  proof (cases r)
    case Nil
    with Cons.prems show ?thesis by (cases s) simp_all
  next
    case (Cons d r')
    with Cons.prems Cons.IH show ?thesis by (auto simp: starts_with_def)
  qed
qed simp

lemma after_mark_end: "\<not> contains ''*/'' t \<Longrightarrow> after_mark (CHR ''*'') (CHR ''/'') (t @ CHR ''*'' # CHR ''/'' # s) = Some s"
proof (induction t)
  case (Cons c t)
  then show ?case by (cases t) (auto simp: starts_with_def)
qed simp

lemma strip_block_comment: "\<not> contains ''*/'' t \<Longrightarrow> strip_block_comments (''/*'' @ t @ ''*/'' @ s) = strip_block_comments s"
  by (simp add: after_mark_end)

lemma strip_line_text:
  "\<not> contains ''--'' r \<Longrightarrow> r = [] \<or> last r \<noteq> CHR ''-'' \<Longrightarrow> strip_line_comments False (r @ s) = r @ strip_line_comments False s"
proof (induction r)
  case (Cons c r)
  show ?case
  proof (cases r)
    case Nil
    with Cons.prems show ?thesis by (cases s) simp_all
  next
    case (Cons d r')
    with Cons.prems Cons.IH show ?thesis by (auto simp: starts_with_def)
  qed
qed simp

lemma strip_line_comment:
  "newline \<notin> set t \<Longrightarrow> strip_line_comments False (''--'' @ t @ newline # s) = newline # strip_line_comments False s"
proof -
  assume t: "newline \<notin> set t"
  then have "strip_line_comments True (t @ newline # s) = newline # strip_line_comments False s"
    by (induction t) auto
  then show ?thesis by simp
qed

lemma contains_snoc: "c \<noteq> CHR ''*'' \<Longrightarrow> contains ''/*'' (t @ [c]) = contains ''/*'' t"
proof (induction t)
  case (Cons x t)
  then show ?case by (cases t) (simp_all add: starts_with_def)
qed (simp add: starts_with_def)

lemma unmarked_code:
  assumes "part_ok p" shows "code_part p = render_part p \<and> unmarked (render_part p)
    \<or> (\<exists>t. p = Block_comment t) \<or> (\<exists>t. p = Line_comment t)"
  using assms by (cases p rule: part_ok.cases) (simp_all add: code_part_def)

lemma strip_render: "list_all part_ok ps \<Longrightarrow> strip_sql_comments (render ps) = code ps"
proof -
  let ?mid = "\<lambda>p. case p of Block_comment t \<Rightarrow> [] | _ \<Rightarrow> render_part p"
  assume ok: "list_all part_ok ps"
  have 1: "strip_block_comments (render ps) = concat (map ?mid ps)"
    using ok
  proof (induction ps)
    case (Cons p ps)
    then have p: "part_ok p" and ih: "strip_block_comments (concat (map render_part ps)) = concat (map ?mid ps)"
      by (simp_all add: render_def)
    consider (plain) "unmarked (render_part p)" "?mid p = render_part p" | (block) t where "p = Block_comment t"
      | (line) t where "p = Line_comment t"
      using unmarked_code [OF p] by (cases p) auto
    then show ?case
    proof cases
      case plain
      then have "strip_block_comments (render_part p @ concat (map render_part ps)) =
          render_part p @ strip_block_comments (concat (map render_part ps))"
        by (intro strip_block_text) (auto simp: unmarked_def)
      then show ?thesis using ih plain(2) by (simp add: render_def)
    next
      case block
      then show ?thesis using ih p strip_block_comment [of t "concat (map render_part ps)"] by (simp add: render_def)
    next
      case line
      have "\<not> contains ''/*'' (render_part p)"
        using line p by (simp add: starts_with_def contains_snoc newline_def)
      moreover have "last (render_part p) \<noteq> CHR ''/''" using line by (simp add: newline_def)
      ultimately have "strip_block_comments (render_part p @ concat (map render_part ps)) =
          render_part p @ strip_block_comments (concat (map render_part ps))" by (intro strip_block_text) simp_all
      then show ?thesis using ih line by (simp add: render_def)
    qed
  qed (simp add: render_def)
  have "strip_line_comments False (concat (map ?mid ps)) = code ps"
    using ok
  proof (induction ps)
    case (Cons p ps)
    then have p: "part_ok p" and ih: "strip_line_comments False (concat (map ?mid ps)) = code ps" by simp_all
    consider (plain) "unmarked (render_part p)" "?mid p = render_part p" "code_part p = render_part p"
      | (block) t where "p = Block_comment t" | (line) t where "p = Line_comment t"
      using unmarked_code [OF p] by (cases p) auto
    then show ?case
    proof cases
      case plain
      then have "strip_line_comments False (render_part p @ concat (map ?mid ps)) =
          render_part p @ strip_line_comments False (concat (map ?mid ps))"
        by (intro strip_line_text) (auto simp: unmarked_def)
      then show ?thesis using ih plain(2,3) by (simp add: code_def)
    next
      case block
      then show ?thesis using ih by (simp add: code_def code_part_def)
    next
      case line
      then show ?thesis using ih p strip_line_comment [of t "concat (map ?mid ps)"]
        by (simp add: code_def code_part_def)
    qed
  qed (simp add: code_def)
  with 1 show ?thesis by (simp add: strip_sql_comments_def)
qed

section \<open>References are found, and nothing else\<close>

lemma expect_append [simp]: "expect p (p @ s) = Some s"
  by (simp add: expect_def)

lemma no_open: "c \<noteq> CHR ''{'' \<Longrightarrow> match_open k (c # s) = None"
  by (simp add: match_open_def expect_def starts_with_def)

lemma no_open2: "c \<noteq> CHR ''{'' \<Longrightarrow> match_open k (CHR ''{'' # c # s) = None"
  by (simp add: match_open_def expect_def starts_with_def)

lemma no_ref: "match_open ''ref'' s = None \<Longrightarrow> match_ref s = None"
  by (simp add: match_ref_def)

lemma find_refs_step: "match_open ''ref'' (c # s) = None \<Longrightarrow> find_refs (c # s) = find_refs s"
  by (simp add: no_ref)

lemma find_refs_text: "braceless t \<Longrightarrow> find_refs (t @ s) = find_refs s"
  by (induction t) (auto simp: no_ref no_open)

lemma has_source_text: "braceless t \<Longrightarrow> has_source (t @ s) = has_source s"
  by (induction t) (auto simp: no_open)

lemma skip_space_append: "list_all re_space w \<Longrightarrow> skip_space (w @ s) = skip_space s"
  by (induction w) (simp_all add: skip_space_def)

lemma skip_space_stop: "\<not> re_space c \<Longrightarrow> skip_space (t @ c # s) = skip_space t @ c # s"
  by (induction t) (simp_all add: skip_space_def)

lemma starts_append: "CHR ''}'' \<notin> set p \<Longrightarrow> starts_with (y @ CHR ''}'' # s) p = starts_with y p"
proof (induction y arbitrary: p)
  case Nil
  then show ?case by (cases p) (simp_all add: starts_with_def)
next
  case (Cons c y)
  then show ?case by (cases p) (simp_all add: starts_with_def)
qed

lemma space_facts: "\<not> re_space CHR ''r''" "\<not> re_space CHR ''s''" "\<not> re_space CHR '')''" "\<not> re_space CHR ''}''"
  "\<not> re_space CHR ''{''" "\<not> is_quote CHR ''{''"
  by (simp_all add: re_space_def is_quote_def)

lemma quote_no_space: "is_quote q \<Longrightarrow> \<not> re_space q"
  by (auto simp: is_quote_def re_space_def)

lemma match_open_braces:
  assumes "CHR ''}'' \<notin> set k"
  shows "(match_open k (''{{'' @ t @ ''}}'' @ s) = None) = (\<not> starts_with (skip_space t) (k @ ''(''))"
proof -
  have "skip_space (t @ ''}}'' @ s) = skip_space t @ ''}}'' @ s"
    using skip_space_stop [OF space_facts(4), of t "CHR ''}'' # s"] by simp
  then show ?thesis
    using assms starts_append [of "k @ ''(''" "skip_space t" "CHR ''}'' # s"]
    by (simp add: match_open_def expect_def starts_with_def)
qed

lemma after_braces:
  assumes "braceless t"
  shows "find_refs (CHR ''{'' # t @ ''}}'' @ s) = find_refs s" "has_source (CHR ''{'' # t @ ''}}'' @ s) = has_source s"
proof -
  have b: "braceless (t @ ''}}'')" using assms by simp
  obtain c w where w: "t @ ''}}'' @ s = c # w" "c \<noteq> CHR ''{''" using assms by (cases t) auto
  have "match_open k (CHR ''{'' # t @ ''}}'' @ s) = None" for k
    unfolding w(1) by (rule no_open2 [OF w(2)])
  then show "find_refs (CHR ''{'' # t @ ''}}'' @ s) = find_refs s" "has_source (CHR ''{'' # t @ ''}}'' @ s) = has_source s"
    using find_refs_text [OF b, of s] has_source_text [OF b, of s] by (simp_all add: no_ref)
qed

lemma braces_refs:
  "braceless t \<Longrightarrow> \<not> starts_with (skip_space t) ''ref('' \<Longrightarrow> find_refs (''{{'' @ t @ ''}}'' @ s) = find_refs s"
  using match_open_braces [of "''ref''" t s] after_braces(1) [of t s] by (simp add: no_ref)

lemma braces_source:
  "braceless t \<Longrightarrow> has_source (''{{'' @ t @ ''}}'' @ s) = (starts_with (skip_space t) ''source('' \<or> has_source s)"
  using match_open_braces [of "''source''" t s] after_braces(2) [of t s] by simp

lemma tag_parts:
  assumes "braceless t"
  shows "find_refs (''{%'' @ t @ ''%}'' @ s) = find_refs s" "has_source (''{%'' @ t @ ''%}'' @ s) = has_source s"
proof -
  have b: "braceless (''%'' @ t @ ''%}'')" using assms by simp
  show "find_refs (''{%'' @ t @ ''%}'' @ s) = find_refs s" "has_source (''{%'' @ t @ ''%}'' @ s) = has_source s"
    using find_refs_text [OF b, of s] has_source_text [OF b, of s] by (simp_all add: no_ref no_open2)
qed

lemma match_ref_render:
  assumes "part_ok (Ref (a, b, c, d) q n)"
  shows "match_ref (render_part (Ref (a, b, c, d) q n) @ s) = Some (n, s)"
proof -
  have w: "list_all re_space a" "list_all re_space b" "list_all re_space c" "list_all re_space d"
    and q: "is_quote q" "\<not> re_space q" and n: "n \<noteq> []" "\<forall>x \<in> set n. \<not> is_quote x"
    using assms by (simp_all add: list_all_iff quote_no_space)
  have run: "takeWhile (\<lambda>c. \<not> is_quote c) (n @ q # t) = n" "dropWhile (\<lambda>c. \<not> is_quote c) (n @ q # t) = q # t" for t
    using n(2) q by (simp_all add: takeWhile_append dropWhile_append)
  have fix_space: "skip_space (x # t) = x # t" if "\<not> re_space x" for x t using that by (simp add: skip_space_def)
  have "match_open ''ref'' (render_part (Ref (a, b, c, d) q n) @ s) = Some (b @ q # n @ q # c @ '')'' @ d @ ''}}'' @ s)"
    using w(1) by (simp add: match_open_def expect_def starts_with_def skip_space_append fix_space space_facts)
  then show ?thesis
    using w q n by (simp add: match_ref_def skip_space_append fix_space space_facts quote_then_def run Let_def
      expect_def starts_with_def)
qed

lemma ref_body:
  assumes "part_ok (Ref (a, b, c, d) q n)"
  defines "body \<equiv> a @ ''ref('' @ b @ [q] @ n @ [q] @ c @ '')'' @ d"
  shows "braceless body" "\<not> starts_with (skip_space body) ''source(''"
    "render_part (Ref (a, b, c, d) q n) = ''{{'' @ body @ ''}}''"
proof -
  have "braceless w" if "list_all re_space w" for w using that space_facts(5) by (auto simp: list_all_iff)
  then show "braceless body" using assms space_facts(6) unfolding body_def by auto
  show "\<not> starts_with (skip_space body) ''source(''" "render_part (Ref (a, b, c, d) q n) = ''{{'' @ body @ ''}}''"
    using assms unfolding body_def
    by (simp_all add: skip_space_append skip_space_def [of "CHR ''r'' # _"] space_facts starts_with_def)
qed

lemma source_body:
  assumes "part_ok (Source a t)"
  shows "braceless (a @ ''source('' @ t)" "starts_with (skip_space (a @ ''source('' @ t)) ''source(''"
    "\<not> starts_with (skip_space (a @ ''source('' @ t)) ''ref(''"
proof -
  have "braceless a" using assms space_facts(5) by (auto simp: list_all_iff)
  then show "braceless (a @ ''source('' @ t)" using assms by auto
  show "starts_with (skip_space (a @ ''source('' @ t)) ''source(''" "\<not> starts_with (skip_space (a @ ''source('' @ t)) ''ref(''"
    using assms by (simp_all add: skip_space_append skip_space_def [of "CHR ''s'' # _"] space_facts starts_with_def)
qed

lemma part_found:
  assumes "part_ok p"
  shows "find_refs (code_part p @ s) = refs_of [p] @ find_refs s \<and> has_source (code_part p @ s) = (calls_source [p] \<or> has_source s)"
proof (cases p)
  case (Ref sp q n)
  obtain a b c d where p: "p = Ref (a, b, c, d) q n" using Ref by (cases sp) auto
  note ok = assms [unfolded p]
  obtain x t where xt: "render_part p @ s = x # t" unfolding p by simp
  then have "find_refs (render_part p @ s) = n # find_refs s"
    using match_ref_render [OF ok, of s] unfolding p [symmetric] by simp
  then show ?thesis
    using braces_source [OF ref_body(1) [OF ok], of s] ref_body(2,3) [OF ok]
    by (simp add: p code_part_def refs_of_def calls_source_def del: render_part.simps)
next
  case (Source a t)
  note ok = assms [unfolded Source]
  show ?thesis
    using braces_refs [OF source_body(1,3) [OF ok], of s] braces_source [OF source_body(1) [OF ok], of s] source_body(2) [OF ok]
    by (simp add: Source code_part_def refs_of_def calls_source_def)
next
  case (Line_comment t)
  have "braceless [newline]" by (simp add: newline_def)
  from find_refs_text [OF this, of s] has_source_text [OF this, of s] Line_comment show ?thesis
    by (simp add: code_part_def refs_of_def calls_source_def)
next
  case (Text t)
  with assms show ?thesis by (simp add: code_part_def refs_of_def calls_source_def find_refs_text has_source_text)
next
  case (Tag t)
  with assms tag_parts [of t s] show ?thesis by (simp add: code_part_def refs_of_def calls_source_def)
next
  case (Jinja t)
  with assms braces_refs [of t s] braces_source [of t s] show ?thesis
    by (simp add: code_part_def refs_of_def calls_source_def)
qed (simp add: code_part_def refs_of_def calls_source_def)

lemma code_found: "list_all part_ok ps \<Longrightarrow> find_refs (code ps) = refs_of ps \<and> has_source (code ps) = calls_source ps"
proof (induction ps)
  case (Cons p ps)
  have "code (p # ps) = code_part p @ code ps" by (simp add: code_def)
  then show ?case using Cons part_found [of p "code ps"] by (simp add: refs_of_def calls_source_def)
qed (simp add: code_def refs_of_def calls_source_def)

section \<open>Properties\<close>


text \<open>Comments and the second form of \<open>ref\<close> get past the gate: a block comment opened inside a line
  comment swallows the statement below it, and a reference with a package name is not seen.\<close>

lemma gate_evaded:
  "strip_sql_comments (''-- marts/*.sql'' @ newline # ''{{ ref('' @ quoted ''stg_x'' @ '') }}'' @ newline # ''-- */'') = ''''"
  "find_refs (''{{ ref('' @ quoted ''p'' @ '', '' @ quoted ''stg_x'' @ '') }}'') = []"
  by code_simp+

text \<open>The script agrees with the registry: on the canonical signature of an ABI entry it computes the
  topic the decoder looks for, unless the signature holds a space or the text \<open>indexed\<close>.\<close>

lemma topic0_agrees:
  assumes "find_entry ''event'' name (json_abi abi) = Some entry" "canonical_event_signature entry = Inr signature"
    and "\<not> contains '' '' signature" "\<not> contains ''indexed'' signature"
  shows "compute_topic0 keccak signature = event_signature keccak abi name"
proof -
  from assms(2) obtain n ts where s: "signature = (n @ ''('' @ ts) @ '')''"
    by (auto simp: canonical_event_signature_def rbind_Inr)
  have "contains ''('' signature" unfolding contains_iff s by (intro exI [of _ n] exI [of _ "ts @ '')''"]) simp
  moreover have "ends_with signature '')''" unfolding s by (simp add: ends_with_def)
  ultimately show ?thesis
    using assms by (simp add: compute_topic0_def validate_canonical_def event_signature_def)
qed

definition sample_model :: "string \<Rightarrow> sql_part list" where
  "sample_model name = [Jinja '' config(materialized=view) '', Text [newline],
     Line_comment '' not from raw_ tables '', Text ''select * from '', Ref ('' '', '''', '''', '' '') CHR 0x27 name]"


end
