(* ===== verification/Probes.thy ===== *)
theory Probes
  imports Seed_Fixtures Pa_Reserves Movement_Builder Lineage_Storage
begin

text \<open>
  \<open>spikes/one_stake_tx_probe.py\<close> and \<open>spikes/one_pa_tx_probe.py\<close>: the two scripts that decode one
  transaction by hand, from the JSON-RPC answers to a balanced pair of entries. Parameters: \<open>post\<close>,
  from a JSON-RPC payload to the body of the answer (\<open>requests.post\<close> with \<open>raise_for_status\<close> and
  \<open>json\<close>), and \<open>abi_decode\<close>. The fixture directory is a partial map from file names to the JSON the
  files hold, or \<open>None\<close> when there is no such directory; a run yields what it prints and the directory
  it leaves behind.
\<close>

section \<open>Artifacts (\<open>fetch_tx_artifacts\<close>, \<open>save_artifacts_as_fixtures\<close>)\<close>

type_synonym fixture_dir = "(string \<rightharpoonup> pyval) option"

definition rpc_call :: "(pydict \<Rightarrow> pydict res) \<Rightarrow> string \<Rightarrow> pyval list \<Rightarrow> pyval res" where
  "rpc_call post method params =
     rbind (post [(''jsonrpc'', PStr ''2.0''), (''id'', PInt 1), (''method'', PStr method), (''params'', PList params)])
       (\<lambda>body. case map_of body ''error'' of
           Some e \<Rightarrow> Inl (Raise RuntimeError (''RPC error: '' @ py_str e))
         | None \<Rightarrow> dict_index body ''result'')"

definition fetch_tx_artifacts :: "(pydict \<Rightarrow> pydict res) \<Rightarrow> string \<Rightarrow> pydict res" where
  "fetch_tx_artifacts post tx_hash =
     rbind (rpc_call post ''eth_getTransactionByHash'' [PStr tx_hash]) (\<lambda>tx.
     rbind (rpc_call post ''eth_getTransactionReceipt'' [PStr tx_hash]) (\<lambda>receipt.
     rbind (rbind (as_dict tx) (\<lambda>d. dict_index d ''blockNumber'')) (\<lambda>block_number.
     rbind (rpc_call post ''eth_getBlockByNumber'' [block_number, PBool False]) (\<lambda>block.
     rbind (rbind (as_dict receipt) (\<lambda>d. dict_index d ''logs'')) (\<lambda>logs.
     let trace = (case rpc_call post ''debug_traceTransaction''
                      [PStr tx_hash, PDict [(''tracer'', PStr ''callTracer'')]] of
                    Inl _ \<Rightarrow> PDict [] | Inr t \<Rightarrow> t) in
     Inr [(''tx'', tx), (''receipt'', receipt), (''block'', block), (''logs'', logs), (''trace'', trace)])))))"

definition artifact_keys :: "string list" where
  "artifact_keys = [''tx'', ''receipt'', ''block'', ''logs'', ''trace'']"

definition save_artifacts_as_fixtures :: "pydict \<Rightarrow> fixture_dir \<Rightarrow> fixture_dir" where
  "save_artifacts_as_fixtures artifacts dir = Some (fold (\<lambda>k files. case map_of artifacts k of
       None \<Rightarrow> files | Some v \<Rightarrow> files(k @ ''.json'' \<mapsto> jsonify v))
     artifact_keys (case dir of None \<Rightarrow> Map.empty | Some files \<Rightarrow> files))"

definition load_artifacts :: "(string \<rightharpoonup> pyval) \<Rightarrow> pydict" where
  "load_artifacts files = map (\<lambda>k. (k, case files (k @ ''.json'') of None \<Rightarrow> PDict [] | Some v \<Rightarrow> v)) artifact_keys"

text \<open>The Payment Abstraction probe has its own copies of both.\<close>

definition fetch_pa_tx_artifacts :: "(pydict \<Rightarrow> pydict res) \<Rightarrow> string \<Rightarrow> pydict res" where
  "fetch_pa_tx_artifacts = fetch_tx_artifacts"

definition cache_artifacts :: "pydict \<Rightarrow> fixture_dir \<Rightarrow> fixture_dir" where
  "cache_artifacts = save_artifacts_as_fixtures"

section \<open>Transfers in the logs\<close>

text \<open>The dictionaries of the probes; \<open>via\<close> and \<open>call_path\<close> are there only for some of them.\<close>

record ProbeTransfer =
  pt_from :: string
  pt_to :: string
  pt_amount :: int
  pt_call_path :: "string option"

definition topic_tail :: "string \<Rightarrow> string" where
  \<comment> \<open>\<open>"0x" + topic[-40:].lower()\<close>\<close>
  "topic_tail topic = ''0x'' @ lower (drop (length topic - 40) topic)"

definition topic_at :: "pyval list \<Rightarrow> nat \<Rightarrow> string res" where
  "topic_at topics i = (if i < length topics then want_str (topics ! i)
     else Inl (Raise IndexError ''list index out of range''))"

definition log_data_bytes :: "pydict \<Rightarrow> byte list res" where
  "log_data_bytes log = rbind (index_str log ''data'') (\<lambda>data_hex.
     from_hex (if starts_with data_hex ''0x'' then drop 2 data_hex else data_hex))"

definition is_link_transfer_log :: "pydict \<Rightarrow> string \<Rightarrow> bool res" where
  "is_link_transfer_log log link_token_address =
     rbind (py_lower (dict_get_or log ''address'' (PStr ''''))) (\<lambda>address.
     if address \<noteq> lower link_token_address then Inr False
     else rbind (as_list (py_or (dict_get log ''topics'') (PList []))) (\<lambda>topics. case topics of
         [] \<Rightarrow> Inr False
       | t # _ \<Rightarrow> rbind (py_lower t) (\<lambda>topic0. Inr (topic0 = ERC20_TRANSFER_TOPIC0))))"

definition decode_link_transfer :: "(string list \<Rightarrow> byte list \<Rightarrow> pyval list res) \<Rightarrow> pydict \<Rightarrow> ProbeTransfer res" where
  "decode_link_transfer abi_decode log =
     rbind (rbind (dict_index log ''topics'') as_list) (\<lambda>topics.
     rbind (topic_at topics 1) (\<lambda>t1.
     rbind (topic_at topics 2) (\<lambda>t2.
     rbind (log_data_bytes log) (\<lambda>data_bytes.
     rbind (abi_decode [''uint256''] data_bytes) (\<lambda>vals. case vals of
       [amount] \<Rightarrow> rbind (py_int amount) (\<lambda>n. Inr
         \<lparr>pt_from = topic_tail t1, pt_to = topic_tail t2, pt_amount = n, pt_call_path = None\<rparr>)
     | _ \<Rightarrow> value_error ''not enough values to unpack'')))))"

section \<open>The Staked event\<close>

fun staked_indexed :: "(string list \<Rightarrow> byte list \<Rightarrow> pyval list res) \<Rightarrow> pydict list \<Rightarrow> pyval list
    \<Rightarrow> pydict \<Rightarrow> pydict res" where
  "staked_indexed abi_decode [] topics out = Inr out"
| "staked_indexed abi_decode (inp # inps) topics out =
     rbind (topic_at topics 0) (\<lambda>topic.
     rbind (dict_index inp ''type'') (\<lambda>ty.
     rbind (if ty = PStr ''address'' then Inr (PStr (topic_tail topic))
            else rbind (from_hex (drop 2 topic)) (\<lambda>bs. rbind (abi_decode [py_str ty] bs) (\<lambda>vs. case vs of
                v # _ \<Rightarrow> Inr v | [] \<Rightarrow> Inl (Raise IndexError ''tuple index out of range'')))) (\<lambda>v.
     rbind (dict_index inp ''name'') (\<lambda>name.
     staked_indexed abi_decode inps (drop 1 topics) (AList.update (py_str name) v out)))))"

definition decode_staked_event :: "(string list \<Rightarrow> byte list \<Rightarrow> pyval list res) \<Rightarrow> pydict \<Rightarrow> pydict
    \<Rightarrow> pydict res" where
  "decode_staked_event abi_decode log abi_event =
     rbind (dict_items (dict_get_or abi_event ''inputs'' (PList []))) (\<lambda>inputs.
     let indexed = filter is_indexed inputs; non_indexed = filter (\<lambda>i. \<not> is_indexed i) inputs in
     rbind (rbind (dict_index log ''topics'') as_list) (\<lambda>topics.
     rbind (staked_indexed abi_decode indexed (drop 1 topics) []) (\<lambda>out.
     if non_indexed = [] then Inr out
     else rbind (log_data_bytes log) (\<lambda>data_bytes.
       rbind (mapR (\<lambda>inp. dict_index inp ''type'') non_indexed) (\<lambda>types.
       rbind (abi_decode (map py_str types) data_bytes) (\<lambda>decoded.
       data_loop (\<lambda>_ val. Inr val) non_indexed decoded out))))))"

text \<open>The event the script decodes with when no ABI file names another.\<close>

definition abi_event_def :: pydict where
  "abi_event_def = [(''type'', PStr ''event''), (''name'', PStr ''Staked''),
     (''inputs'', PList [abi_arg ''staker'' ''address'' True, abi_arg ''newPrincipal'' ''uint256'' False,
        abi_arg ''newAllowance'' ''uint256'' False, abi_arg ''maxPrincipal'' ''uint256'' False])]"

definition staked_event_def :: "pyval option \<Rightarrow> pydict res" where
  "staked_event_def abi_json = (case abi_json of
     None \<Rightarrow> Inr abi_event_def
   | Some v \<Rightarrow> rbind (dict_items v) (\<lambda>entries.
       Inr (case find (\<lambda>e. dict_get e ''type'' = PStr ''event'' \<and> dict_get e ''name'' = PStr ''Staked'') entries of
         None \<Rightarrow> abi_event_def | Some entry \<Rightarrow> entry)))"

text \<open>The loop over the logs of the stake probe: every LINK transfer, and the first Staked event of the
  community pool. Its topic is compared as it stands, that of a transfer in lower case.\<close>

definition is_staked_log :: "pydict \<Rightarrow> bool res" where
  "is_staked_log log = rbind (py_lower (py_or (dict_get log ''address'') (PStr ''''))) (\<lambda>address.
     if address \<noteq> COMMUNITY_POOL then Inr False
     else rbind (as_list (py_or (dict_get log ''topics'') (PList [PNone]))) (\<lambda>topics. case topics of
         [] \<Rightarrow> Inr False | t # _ \<Rightarrow> Inr (t = PStr STAKED_TOPIC0)))"

definition stake_log_step :: "(string list \<Rightarrow> byte list \<Rightarrow> pyval list res) \<Rightarrow> pydict \<Rightarrow> pydict
    \<Rightarrow> ProbeTransfer list \<times> pydict \<Rightarrow> (ProbeTransfer list \<times> pydict) res" where
  "stake_log_step abi_decode event_def log s = (case s of (log_movements, decoded) \<Rightarrow>
     rbind (is_link_transfer_log log LINK_TOKEN_ADDRESS) (\<lambda>transfer.
     if transfer then rbind (decode_link_transfer abi_decode log) (\<lambda>m. Inr (log_movements @ [m], decoded))
     else if decoded \<noteq> [] then Inr s
     else rbind (is_staked_log log) (\<lambda>staked.
       if staked then rbind (decode_staked_event abi_decode log event_def) (\<lambda>d. Inr (log_movements, d))
       else Inr s)))"

section \<open>Transfers in the trace\<close>

text \<open>One call: the transfer its calldata encodes, or nothing when anything about it raises. The call
  targets LINK and its input starts with one of the two selectors, in lower case.\<close>

definition transfer_call :: "(string list \<Rightarrow> byte list \<Rightarrow> pyval list res) \<Rightarrow> pydict \<Rightarrow> string \<Rightarrow> string
    \<Rightarrow> ProbeTransfer res" where
  "transfer_call abi_decode node node_input call_path =
     rbind (from_hex (drop 10 node_input)) (\<lambda>body.
     if starts_with node_input ERC20_TRANSFER_SELECTOR then
       rbind (abi_decode [''address'', ''uint256''] (take 64 body)) (\<lambda>vals. case vals of
         [to_addr, amount] \<Rightarrow>
           rbind (py_lower (py_or (dict_get node ''from'') (PStr ''''))) (\<lambda>f.
           rbind (py_lower to_addr) (\<lambda>t. rbind (py_int amount) (\<lambda>n. Inr
             \<lparr>pt_from = f, pt_to = t, pt_amount = n, pt_call_path = Some call_path\<rparr>)))
       | _ \<Rightarrow> value_error ''wrong number of values to unpack'')
     else
       rbind (abi_decode [''address'', ''address'', ''uint256''] (take 96 body)) (\<lambda>vals. case vals of
         [from_addr, to_addr, amount] \<Rightarrow>
           rbind (py_lower from_addr) (\<lambda>f.
           rbind (py_lower to_addr) (\<lambda>t. rbind (py_int amount) (\<lambda>n. Inr
             \<lparr>pt_from = f, pt_to = t, pt_amount = n, pt_call_path = Some call_path\<rparr>)))
       | _ \<Rightarrow> value_error ''wrong number of values to unpack''))"

definition node_transfer :: "(string list \<Rightarrow> byte list \<Rightarrow> pyval list res) \<Rightarrow> (ProbeTransfer \<Rightarrow> bool) \<Rightarrow> string
    \<Rightarrow> pydict \<Rightarrow> string \<Rightarrow> ProbeTransfer list res" where
  "node_transfer abi_decode keep link_token_address node call_path =
     rbind (py_lower (py_or (dict_get node ''to'') (PStr ''''))) (\<lambda>node_to.
     if node_to \<noteq> lower link_token_address then Inr []
     else rbind (want_str (py_or (dict_get node ''input'') (PStr ''0x''))) (\<lambda>node_input.
       if starts_with node_input ERC20_TRANSFER_SELECTOR \<or> starts_with node_input ERC20_TRANSFER_FROM_SELECTOR
       then (case transfer_call abi_decode node node_input call_path of
           Inr m \<Rightarrow> Inr (if keep m then [m] else []) | Inl _ \<Rightarrow> Inr [])
       else Inr []))"

definition child_path :: "string \<Rightarrow> nat \<Rightarrow> string" where
  "child_path call_path i = (if call_path = '''' then show_int (int i) else call_path @ ''.'' @ show_int (int i))"

function walk_node :: "(string list \<Rightarrow> byte list \<Rightarrow> pyval list res) \<Rightarrow> (ProbeTransfer \<Rightarrow> bool) \<Rightarrow> string
    \<Rightarrow> pydict \<Rightarrow> string \<Rightarrow> ProbeTransfer list res" where
  "walk_node abi_decode keep token node call_path =
     (if truthy (dict_get node ''error'') then Inr []
      else rbind (node_transfer abi_decode keep token node call_path) (\<lambda>here.
        rbind (child_nodes node) (\<lambda>children.
        rbind (mapR (\<lambda>(i, child). walk_node abi_decode keep token child (child_path call_path i))
          (enumerate 0 children)) (\<lambda>below. Inr (here @ concat below)))))"
  by pat_completeness auto
termination
  by (relation "measure (\<lambda>(dec, keep, token, node, path). size (PDict node))")
    (auto simp: in_set_enumerate_eq dest: child_nodes_size [OF _ nth_mem])

declare walk_node.simps [simp del]

definition walk_trace_for_link_transfers :: "(string list \<Rightarrow> byte list \<Rightarrow> pyval list res) \<Rightarrow> pydict \<Rightarrow> string
    \<Rightarrow> ProbeTransfer list res" where
  "walk_trace_for_link_transfers abi_decode trace_node link_token_address =
     walk_node abi_decode (\<lambda>_. True) link_token_address trace_node ''''"

definition find_reserves_inflows_in_trace :: "(string list \<Rightarrow> byte list \<Rightarrow> pyval list res) \<Rightarrow> pydict
    \<Rightarrow> ProbeTransfer list res" where
  "find_reserves_inflows_in_trace abi_decode trace_node =
     walk_node abi_decode (\<lambda>m. pt_to m = lower PA_RESERVES_ADDRESS) LINK_TOKEN_ADDRESS trace_node ''''"

section \<open>Action, reconciliation and entries of the stake probe\<close>

definition synthesize_economic_action :: "pydict \<Rightarrow> pydict res" where
  "synthesize_economic_action decoded_staked =
     rbind (py_int (py_or (dict_get decoded_staked ''newPrincipal'') (dict_get_or decoded_staked ''amount'' (PInt 0))))
       (\<lambda>amount. Inr [(''kind'', PStr ''stake''), (''wallet'', dict_get decoded_staked ''staker''),
          (''amount_link'', PInt amount), (''pool_role'', PStr ''community_pool'')])"

record ProbeRecon =
  pr_status :: string
  pr_matched_movements :: "ProbeTransfer list"
  pr_matched_method :: "string option"

definition reconcile_action_to_movements :: "pydict \<Rightarrow> ProbeTransfer list \<Rightarrow> ProbeTransfer list \<Rightarrow> ProbeRecon res" where
  "reconcile_action_to_movements action log_transfers trace_transfers =
     rbind (py_int (dict_get_or action ''amount_link'' (PInt 0))) (\<lambda>target.
     let matched_log = filter (\<lambda>m. pt_amount m = target) log_transfers;
         matched_trace = filter (\<lambda>m. pt_amount m = target) trace_transfers in
     Inr (if matched_log \<noteq> []
          then \<lparr>pr_status = ''exact'', pr_matched_movements = matched_log, pr_matched_method = Some ''event_log''\<rparr>
          else if matched_trace \<noteq> []
          then \<lparr>pr_status = ''exact'', pr_matched_movements = matched_trace, pr_matched_method = Some ''trace''\<rparr>
          else \<lparr>pr_status = ''unmatched'', pr_matched_movements = [], pr_matched_method = None\<rparr>))"

record ProbeEntry =
  pe_direction :: string
  pe_account :: string
  pe_amount_link :: int

definition probe_pair :: "string \<Rightarrow> string \<Rightarrow> int \<Rightarrow> ProbeEntry list" where
  "probe_pair debit_account credit_account amount =
     [\<lparr>pe_direction = ''debit'', pe_account = debit_account, pe_amount_link = amount\<rparr>,
      \<lparr>pe_direction = ''credit'', pe_account = credit_account, pe_amount_link = amount\<rparr>]"

definition probe_ledger_entries :: "pydict \<Rightarrow> ProbeEntry list res" where
  "probe_ledger_entries action =
     rbind (py_int (dict_get_or action ''amount_link'' (PInt 0))) (\<lambda>amount. Inr (probe_pair
       (''wallet:'' @ py_str (dict_get_or action ''wallet'' (PStr ''unknown'')))
       (''pool:'' @ py_str (dict_get_or action ''pool_role'' (PStr ''community_pool''))) amount))"

section \<open>Inflows, action and entries of the Payment Abstraction probe\<close>

fun find_reserves_inflows_in_logs :: "(string list \<Rightarrow> byte list \<Rightarrow> pyval list res) \<Rightarrow> pydict list
    \<Rightarrow> ProbeTransfer list res" where
  "find_reserves_inflows_in_logs abi_decode [] = Inr []"
| "find_reserves_inflows_in_logs abi_decode (log # logs) =
     rbind (is_link_transfer_log log LINK_TOKEN_ADDRESS) (\<lambda>transfer.
     rbind (if \<not> transfer then Inr []
       else rbind (rbind (dict_index log ''topics'') as_list) (\<lambda>topics.
         rbind (topic_at topics 1) (\<lambda>t1. rbind (topic_at topics 2) (\<lambda>t2.
         if topic_tail t2 \<noteq> lower PA_RESERVES_ADDRESS then Inr []
         else rbind (decode_link_transfer abi_decode log) (\<lambda>m. Inr [m]))))) (\<lambda>here.
     rbind (find_reserves_inflows_in_logs abi_decode logs) (\<lambda>rest. Inr (here @ rest))))"

text \<open>Log evidence first; a trace inflow is added when no log shows its sender and amount.\<close>

definition combine_inflows :: "ProbeTransfer list \<Rightarrow> ProbeTransfer list \<Rightarrow> ProbeTransfer list" where
  "combine_inflows log_inflows trace_inflows =
     log_inflows @ filter (\<lambda>m. (pt_from m, pt_amount m) \<notin> set (map (\<lambda>l. (pt_from l, pt_amount l)) log_inflows))
       trace_inflows"

definition synthesize_pa_probe_action :: "ProbeTransfer list \<Rightarrow> pydict" where
  "synthesize_pa_probe_action inflows =
     [(''kind'', PStr ''pa_reserves_deposit''), (''contract_role'', PStr ''pa_reserves''),
      (''contract_address'', PStr (lower PA_RESERVES_ADDRESS)),
      (''amount_link'', PInt (sum_list (map pt_amount inflows))), (''n_evidence'', PInt (int (length inflows)))]"

definition probe_pa_ledger_entries :: "pydict \<Rightarrow> ProbeEntry list res" where
  "probe_pa_ledger_entries action =
     rbind (py_int (dict_get_or action ''amount_link'' (PInt 0))) (\<lambda>amount.
     if amount = 0 then Inr []
     else rbind (dict_index action ''contract_address'') (\<lambda>address.
       Inr (probe_pair ''upstream:fee_aggregator_or_swap'' (''pa_reserves:'' @ py_str address) amount)))"

section \<open>What the scripts print\<close>

definition ljust :: "nat \<Rightarrow> string \<Rightarrow> string" where
  "ljust n s = s @ replicate (n - length s) CHR '' ''"

definition py_len :: "pyval \<Rightarrow> int res" where
  "py_len v = (case v of PList xs \<Rightarrow> Inr (int (length xs)) | PTuple xs \<Rightarrow> Inr (int (length xs))
     | PStr s \<Rightarrow> Inr (int (length s)) | PBytes bs \<Rightarrow> Inr (int (length bs)) | PDict d \<Rightarrow> Inr (int (length d))
     | _ \<Rightarrow> Inl (Raise TypeError ''object has no len()''))"

definition probe_debits :: "ProbeEntry list \<Rightarrow> int" where
  "probe_debits es = sum_list (map pe_amount_link (filter (\<lambda>e. pe_direction e = ''debit'') es))"

definition probe_credits :: "ProbeEntry list \<Rightarrow> int" where
  "probe_credits es = sum_list (map pe_amount_link (filter (\<lambda>e. pe_direction e = ''credit'') es))"

definition dict_lines :: "pydict \<Rightarrow> string list" where
  "dict_lines d = map (\<lambda>(k, v). ''  '' @ k @ '': '' @ py_str v) d"

definition ledger_lines :: "ProbeEntry list \<Rightarrow> string list" where
  "ledger_lines es = [''=== LEDGER ===''] @
     map (\<lambda>e. ''  '' @ ljust 6 (pe_direction e) @ '' '' @ ljust 50 (pe_account e) @ '' '' @ show_int (pe_amount_link e)) es @
     [''  balance: '' @ (if probe_debits es = probe_credits es then ''OK''
        else ''OFF by '' @ show_int (probe_debits es - probe_credits es))]"

definition transfer_line :: "ProbeTransfer \<Rightarrow> string" where
  "transfer_line m = ''from='' @ pt_from m @ '' to='' @ pt_to m @ '' amount='' @ show_int (pt_amount m)"

definition text_or_none :: "string option \<Rightarrow> string" where
  "text_or_none v = (case v of None \<Rightarrow> ''None'' | Some s \<Rightarrow> s)"

definition raw_lines :: "string \<Rightarrow> bool \<Rightarrow> pydict \<Rightarrow> string list res" where
  "raw_lines title with_gas artifacts =
     rbind (as_dict (dict_get_or artifacts ''tx'' (PDict []))) (\<lambda>tx.
     rbind (as_dict (dict_get_or artifacts ''receipt'' (PDict []))) (\<lambda>receipt.
     rbind (py_len (dict_get_or receipt ''logs'' (PList []))) (\<lambda>n_logs.
     Inr ([title, ''tx_hash       = '' @ py_str (dict_get tx ''hash''),
       ''block_number  = '' @ py_str (dict_get tx ''blockNumber''),
       ''status        = '' @ py_str (dict_get receipt ''status'')] @
       (if with_gas then [''gas_used      = '' @ py_str (dict_get receipt ''gasUsed'')] else []) @
       [''n_logs        = '' @ show_int n_logs, '''']))))"

definition print_walkthrough :: "pydict \<Rightarrow> pydict \<Rightarrow> pydict \<Rightarrow> ProbeTransfer list \<Rightarrow> ProbeTransfer list
    \<Rightarrow> ProbeRecon \<Rightarrow> ProbeEntry list \<Rightarrow> string list res" where
  "print_walkthrough artifacts decoded action log_movements trace_movements recon entries =
     rbind (raw_lines ''=== RAW ==='' True artifacts) (\<lambda>raw. Inr (raw @
       [''=== DECODED EVENT ==='' ] @ dict_lines decoded @ ['''', ''=== MOVEMENTS ===''] @
       map (\<lambda>m. ''  [log]   '' @ transfer_line m) log_movements @
       map (\<lambda>m. ''  [trace] '' @ transfer_line m @ '' path='' @ text_or_none (pt_call_path m)) trace_movements @
       ['''', ''=== ECONOMIC ACTION ===''] @ dict_lines action @ ['''', ''=== RECONCILIATION ==='',
        ''  status='' @ pr_status recon @ '' method='' @ text_or_none (pr_matched_method recon), ''''] @
       ledger_lines entries))"

definition print_pa_walkthrough :: "pydict \<Rightarrow> ProbeTransfer list \<Rightarrow> ProbeTransfer list \<Rightarrow> pydict
    \<Rightarrow> ProbeEntry list \<Rightarrow> string list res" where
  "print_pa_walkthrough artifacts log_inflows trace_inflows action entries =
     rbind (raw_lines ''=== RAW PA TX ==='' False artifacts) (\<lambda>raw. Inr (raw @
       [''=== RESERVES INFLOWS (LOG) ===''] @
       map (\<lambda>m. ''  from='' @ pt_from m @ '' amount='' @ show_int (pt_amount m)) log_inflows @
       ['''', ''=== RESERVES INFLOWS (TRACE) ===''] @
       map (\<lambda>m. ''  from='' @ pt_from m @ '' amount='' @ show_int (pt_amount m) @ '' path='' @ text_or_none (pt_call_path m))
         trace_inflows @
       ['''', ''=== PA ACTION ===''] @ dict_lines action @ [''''] @ ledger_lines entries))"

section \<open>The scripts\<close>

record ProbeArgs =
  ar_tx :: "string option"
  ar_rpc :: "string option"
  ar_cache :: bool
  ar_abi :: "pyval option"

definition analyse_stake :: "(string list \<Rightarrow> byte list \<Rightarrow> pyval list res) \<Rightarrow> ProbeArgs \<Rightarrow> pydict
    \<Rightarrow> (int \<times> string list) res" where
  "analyse_stake abi_decode args artifacts =
     rbind (staked_event_def (ar_abi args)) (\<lambda>event_def.
     rbind (dict_items (py_or (dict_get artifacts ''logs'') (PList []))) (\<lambda>logs.
     rbind (foldR (stake_log_step abi_decode event_def) logs ([], [])) (\<lambda>(log_movements, decoded).
     let trace = dict_get artifacts ''trace'';
         trace_movements = (if \<not> truthy trace then []
           else case rbind (as_dict trace) (\<lambda>t. walk_trace_for_link_transfers abi_decode t LINK_TOKEN_ADDRESS) of
             Inl _ \<Rightarrow> [] | Inr ms \<Rightarrow> ms) in
     rbind (synthesize_economic_action decoded) (\<lambda>action.
     rbind (reconcile_action_to_movements action log_movements trace_movements) (\<lambda>recon.
     rbind (probe_ledger_entries action) (\<lambda>entries.
     rbind (print_walkthrough artifacts decoded action log_movements trace_movements recon entries) (\<lambda>out.
     Inr (if probe_debits entries = probe_credits entries then 0 else 1, out))))))))"

definition analyse_pa :: "(string list \<Rightarrow> byte list \<Rightarrow> pyval list res) \<Rightarrow> pydict \<Rightarrow> (int \<times> string list) res" where
  "analyse_pa abi_decode artifacts =
     rbind (rbind (dict_items (py_or (dict_get artifacts ''logs'') (PList [])))
        (find_reserves_inflows_in_logs abi_decode)) (\<lambda>log_inflows.
     rbind (if truthy (dict_get artifacts ''trace'')
            then rbind (as_dict (dict_get artifacts ''trace'')) (find_reserves_inflows_in_trace abi_decode)
            else Inr []) (\<lambda>trace_inflows.
     let action = synthesize_pa_probe_action (combine_inflows log_inflows trace_inflows) in
     rbind (probe_pa_ledger_entries action) (\<lambda>entries.
     rbind (print_pa_walkthrough artifacts log_inflows trace_inflows action entries) (\<lambda>out.
     Inr (if probe_debits entries = probe_credits entries then 0 else 1, out)))))"

text \<open>The common shape of the two \<open>main\<close> functions: the exit code with the lines on standard output, or
  the exception that ends the script, and the fixture directory afterwards.\<close>

definition run_probe :: "(string \<Rightarrow> pydict res) \<Rightarrow> (pydict \<Rightarrow> fixture_dir \<Rightarrow> fixture_dir)
    \<Rightarrow> (pydict \<Rightarrow> (int \<times> string list) res) \<Rightarrow> ProbeArgs
    \<Rightarrow> fixture_dir \<Rightarrow> (int \<times> string list) res \<times> fixture_dir" where
  "run_probe fetch save analyse args dir = (case ar_tx args of
     None \<Rightarrow> (case dir of
         None \<Rightarrow> (Inr (2, []), dir)
       | Some files \<Rightarrow> (analyse (load_artifacts files), dir))
   | Some tx_hash \<Rightarrow>
       if ar_rpc args = None \<or> ar_rpc args = Some '''' then (Inr (2, []), dir)
       else (case fetch tx_hash of
           Inl e \<Rightarrow> (Inl e, dir)
         | Inr artifacts \<Rightarrow> (analyse artifacts,
             if ar_cache args then save artifacts dir else dir)))"

definition stake_probe_main :: "(pydict \<Rightarrow> pydict res) \<Rightarrow> (string list \<Rightarrow> byte list \<Rightarrow> pyval list res)
    \<Rightarrow> ProbeArgs \<Rightarrow> fixture_dir \<Rightarrow> (int \<times> string list) res \<times> fixture_dir" where
  "stake_probe_main post abi_decode args dir = run_probe (fetch_tx_artifacts post) save_artifacts_as_fixtures (analyse_stake abi_decode args) args dir"

definition pa_probe_main :: "(pydict \<Rightarrow> pydict res) \<Rightarrow> (string list \<Rightarrow> byte list \<Rightarrow> pyval list res)
    \<Rightarrow> ProbeArgs \<Rightarrow> fixture_dir \<Rightarrow> (int \<times> string list) res \<times> fixture_dir" where
  "pa_probe_main post abi_decode args dir = run_probe (fetch_pa_tx_artifacts post) cache_artifacts (analyse_pa abi_decode) args dir"

section \<open>Balance\<close>

definition is_debit_row :: "ProbeEntry \<Rightarrow> bool" where "is_debit_row e = (pe_direction e = ''debit'')"

interpretation probe_book: double_entry "\<lambda>(d, c, n). probe_pair d c n" is_debit_row pe_amount_link "\<lambda>_. ''''" "\<lambda>_. ''''"
  by unfold_locales (auto simp: probe_pair_def is_debit_row_def)

lemma probe_pair_totals: "probe_debits (probe_pair d c n) = probe_credits (probe_pair d c n)"
  using probe_book.balanced [of "(d, c, n)"]
  by (simp add: probe_debits_def probe_credits_def probe_pair_def is_debit_row_def)

lemma no_rows: "probe_debits [] = probe_credits []"
  by (simp add: probe_debits_def probe_credits_def)

lemma stake_entries_balance: "probe_ledger_entries action = Inr es \<Longrightarrow> probe_debits es = probe_credits es"
  by (auto simp: probe_ledger_entries_def rbind_Inr probe_pair_totals)

lemma pa_entries_balance: "probe_pa_ledger_entries action = Inr es \<Longrightarrow> probe_debits es = probe_credits es"
  by (auto simp: probe_pa_ledger_entries_def rbind_Inr probe_pair_totals no_rows split: if_splits)

lemma analyse_stake_code: "analyse_stake dec args a = Inr (code, out) \<Longrightarrow> code = 0"
  unfolding analyse_stake_def Let_def
  by (elim rbind_InrE) (auto elim!: rbind_InrE dest: stake_entries_balance)

lemma analyse_pa_code: "analyse_pa dec a = Inr (code, out) \<Longrightarrow> code = 0"
  unfolding analyse_pa_def Let_def
  by (elim rbind_InrE) (auto elim!: rbind_InrE dest: pa_entries_balance)

section \<open>Cached artifacts\<close>

definition json_value :: "pyval \<Rightarrow> bool" where
  \<comment> \<open>what \<open>json\<close> can return: a value that its own serialisation leaves as it is\<close>
  "json_value v = (jsonify v = v)"

lemma json_field: "json_value (PDict d) \<Longrightarrow> map_of d k = Some v \<Longrightarrow> json_value v"
proof (induction d)
  case (Cons p d)
  obtain k' v' where p: "p = (k', v')" by (cases p)
  with Cons.prems(1) have "jsonify v' = v'" "json_value (PDict d)" by (simp_all add: json_value_def)
  then show ?case using Cons p by (auto simp: json_value_def split: if_splits)
qed simp

lemma rpc_call_json:
  assumes "\<forall>p body. post p = Inr body \<longrightarrow> json_value (PDict body)" "rpc_call post m ps = Inr v"
  shows "json_value v"
  using assms(2) unfolding rpc_call_def
  by (auto elim!: rbind_InrE simp: dict_index_def split: option.splits
    intro: json_field [OF assms(1) [rule_format]])

lemma fetched_artifacts:
  assumes "\<forall>p body. post p = Inr body \<longrightarrow> json_value (PDict body)" "fetch_tx_artifacts post h = Inr arts"
  shows "\<exists>tx receipt block logs trace. arts = [(''tx'', tx), (''receipt'', receipt), (''block'', block),
      (''logs'', logs), (''trace'', trace)]
    \<and> json_value tx \<and> json_value receipt \<and> json_value block \<and> json_value logs \<and> json_value trace"
proof -
  note call = rpc_call_json [OF assms(1)]
  define trace where "trace = (case rpc_call post ''debug_traceTransaction''
      [PStr h, PDict [(''tracer'', PStr ''callTracer'')]] of Inl _ \<Rightarrow> PDict [] | Inr t \<Rightarrow> t)"
  have "json_value trace"
    using call by (auto simp: trace_def json_value_def split: sum.splits)
  moreover from assms(2) obtain tx receipt n block logs where
    c: "rpc_call post ''eth_getTransactionByHash'' [PStr h] = Inr tx"
      "rpc_call post ''eth_getTransactionReceipt'' [PStr h] = Inr receipt"
      "rpc_call post ''eth_getBlockByNumber'' [n, PBool False] = Inr block"
      "rbind (as_dict receipt) (\<lambda>d. dict_index d ''logs'') = Inr logs"
    and arts: "arts = [(''tx'', tx), (''receipt'', receipt), (''block'', block), (''logs'', logs), (''trace'', trace)]"
    unfolding fetch_tx_artifacts_def Let_def trace_def [symmetric] by (auto elim!: rbind_InrE)
  moreover have "json_value logs"
    using c(4) call [OF c(2)]
    by (auto elim!: rbind_InrE simp: as_dict_def dict_index_def split: pyval.splits option.splits intro: json_field)
  ultimately show ?thesis using call by blast
qed

lemma load_saved_artifacts:
  assumes "\<forall>p body. post p = Inr body \<longrightarrow> json_value (PDict body)" "fetch_tx_artifacts post h = Inr arts"
  shows "\<exists>files. save_artifacts_as_fixtures arts dir = Some files \<and> load_artifacts files = arts"
  using fetched_artifacts [OF assms]
  by (auto simp: save_artifacts_as_fixtures_def load_artifacts_def artifact_keys_def json_value_def)

section \<open>Properties\<close>

text \<open>A probe run that fetches a transaction and caches it can be replayed without the node: run again
  on the directory it left, it ends the same way, prints the same and leaves the directory as it
  is; and a run that ends normally ends with exit code 0, since its entries balance.\<close>

theorem cached_run_replays:
  assumes "\<forall>p body. post p = Inr body \<longrightarrow> json_value (PDict body)"
    and "ar_tx args = Some h" "ar_rpc args = Some url" "url \<noteq> ''''" "ar_cache args"
    and "fetch_tx_artifacts post h = Inr arts"
  shows "\<forall>main \<in> {stake_probe_main, pa_probe_main}. \<exists>r files. main post dec args dir = (r, Some files)
      \<and> main offline dec (args\<lparr>ar_tx := None\<rparr>) (Some files) = (r, Some files)
      \<and> (\<forall>code out. r = Inr (code, out) \<longrightarrow> code = 0)"
proof -
  obtain files where f: "save_artifacts_as_fixtures arts dir = Some files" "load_artifacts files = arts"
    using load_saved_artifacts [OF assms(1,6)] by blast
  have abi: "analyse_stake dec (args\<lparr>ar_tx := None\<rparr>) = analyse_stake dec args"
    by (rule ext) (simp add: analyse_stake_def)
  show ?thesis
    using assms(2-6) f by (auto simp: stake_probe_main_def pa_probe_main_def run_probe_def fetch_pa_tx_artifacts_def
      cache_artifacts_def abi
      dest: analyse_stake_code analyse_pa_code)
qed

definition sample_post :: "pydict \<Rightarrow> pydict res" where
  "sample_post payload = Inr [(''result'',
     if dict_get payload ''method'' = PStr ''eth_getTransactionByHash'' then PDict [(''blockNumber'', PStr ''0x1'')]
     else if dict_get payload ''method'' = PStr ''eth_getTransactionReceipt'' then PDict [(''logs'', PList [])]
     else PDict [])]"

lemma sample_post_json: "sample_post p = Inr body \<Longrightarrow> json_value (PDict body)"
  by (auto simp: sample_post_def json_value_def)

lemma sample_post_fetch: "fetch_tx_artifacts sample_post ''0xaa'' = Inr
   [(''tx'', PDict [(''blockNumber'', PStr ''0x1'')]), (''receipt'', PDict [(''logs'', PList [])]),
    (''block'', PDict []), (''logs'', PList []), (''trace'', PDict [])]"
  by (simp add: fetch_tx_artifacts_def rpc_call_def sample_post_def dict_get_def dict_index_def as_dict_def)

theorem cached_run_replays_witness:
  "\<exists>r files. pa_probe_main sample_post dec \<lparr>ar_tx = Some ''0xaa'', ar_rpc = Some ''u'', ar_cache = True, ar_abi = None\<rparr> None
      = (r, Some files)
    \<and> pa_probe_main (\<lambda>_. Inl (Raise ExternalError [])) dec
        \<lparr>ar_tx = None, ar_rpc = Some ''u'', ar_cache = True, ar_abi = None\<rparr> (Some files) = (r, Some files)"
proof -
  have "\<exists>r files. pa_probe_main sample_post dec
        \<lparr>ar_tx = Some ''0xaa'', ar_rpc = Some ''u'', ar_cache = True, ar_abi = None\<rparr> None = (r, Some files)
      \<and> pa_probe_main (\<lambda>_. Inl (Raise ExternalError [])) dec
          (\<lparr>ar_tx = Some ''0xaa'', ar_rpc = Some ''u'', ar_cache = True, ar_abi = None\<rparr>\<lparr>ar_tx := None\<rparr>)
          (Some files) = (r, Some files)
      \<and> (\<forall>code out. r = Inr (code, out) \<longrightarrow> code = 0)"
    by (rule bspec [OF cached_run_replays [where url = "''u''", OF _ _ _ _ _ sample_post_fetch]])
      (simp_all add: sample_post_json)
  then show ?thesis by simp blast
qed

section \<open>What the probes show and production loses\<close>

text \<open>A run without a Staked event still ends with exit code 0: the entries of an action of amount 0
  balance, whatever the reconciliation found, and the account of the unknown wallet is that of
  \<open>None\<close>.\<close>

lemma stake_probe_without_event:
  "synthesize_economic_action [] = Inr [(''kind'', PStr ''stake''), (''wallet'', PNone), (''amount_link'', PInt 0),
     (''pool_role'', PStr ''community_pool'')]"
  "probe_ledger_entries [(''kind'', PStr ''stake''), (''wallet'', PNone), (''amount_link'', PInt 0),
     (''pool_role'', PStr ''community_pool'')] = Inr (probe_pair ''wallet:None'' ''pool:community_pool'' 0)"
  by (simp_all add: synthesize_economic_action_def probe_ledger_entries_def dict_get_def dict_get_or_def py_or_def)

end
