(* ===== verification/Probe_Agreement.thy ===== *)
theory Probe_Agreement
  imports Probes
begin

text \<open>
  The probes against the production decoders: both are run on the same transaction, and find the same
  transfers of the token, in the same order, with the same recipients, amounts and places, where the
  calldata reads as a transfer; for the rest production alone records an empty transfer.
\<close>

section \<open>Nodes as a node of the network reports them\<close>

text \<open>The nodes of a call tree in JSON.\<close>

inductive sub_node :: "pydict \<Rightarrow> pydict \<Rightarrow> bool" where
  here: "sub_node n n"
| below: "child_nodes n = Inr ds \<Longrightarrow> d \<in> set ds \<Longrightarrow> sub_node d e \<Longrightarrow> sub_node n e"

inductive_cases sub_nodeE: "sub_node n e"

definition node_input :: "pydict \<Rightarrow> string" where
  "node_input n = py_str (dict_get_or n ''input'' (PStr ''0x''))"

definition transfer_selectors :: "string set" where
  "transfer_selectors = {ERC20_TRANSFER_SELECTOR, ERC20_TRANSFER_FROM_SELECTOR}"

text \<open>What \<open>callTracer\<close> reports of one call: texts for the addresses, the input in lower case with its
  prefix, a revert reason only beside an error, an error that is not empty.\<close>

definition tracer_node :: "pydict \<Rightarrow> bool" where
  "tracer_node n = (
     (dict_get n ''error'' = PNone \<and> dict_get n ''revertReason'' = PNone \<or> truthy (dict_get n ''error''))
     \<and> (dict_get n ''to'' = PNone \<or> (\<exists>a. dict_get n ''to'' = PStr a))
     \<and> (\<exists>f. dict_get n ''from'' = PStr f)
     \<and> (\<exists>s. dict_get n ''input'' = PStr (''0x'' @ s) \<and> lower s = s))"

text \<open>What \<open>eth_abi\<close> promises of static types: one word of data for each, or an exception, and a value of the
  type for each.\<close>

definition static_value :: "string \<Rightarrow> pyval \<Rightarrow> bool" where
  "static_value ty v = (case v of PStr s \<Rightarrow> ty = ''address'' \<and> s \<noteq> '''' | PInt n \<Rightarrow> ty = ''uint256'' \<and> 0 \<le> n | _ \<Rightarrow> False)"

definition static_decoder :: "(string list \<Rightarrow> byte list \<Rightarrow> pyval list res) \<Rightarrow> bool" where
  "static_decoder dec = (\<forall>tys bs vals. set tys \<subseteq> {''address'', ''uint256''} \<and> dec tys bs = Inr vals \<longrightarrow>
     32 * length tys \<le> length bs \<and> list_all2 static_value tys vals)"

section \<open>One call\<close>

lemma selector_prefix:
  assumes "lower s = s" "sel \<in> transfer_selectors"
  shows "starts_with (''0x'' @ s) sel \<longleftrightarrow> extract_method_selector (''0x'' @ s) = sel"
proof -
  obtain r where sel: "sel = ''0x'' @ r" "length r = 8"
    using assms(2) by (auto simp: transfer_selectors_def ERC20_TRANSFER_SELECTOR_def ERC20_TRANSFER_FROM_SELECTOR_def)
  have st: "starts_with (''0x'' @ s) sel \<longleftrightarrow> take 8 s = r"
    by (simp add: starts_with_def sel)
  show ?thesis
  proof (cases "length s < 8")
    case True
    then have "extract_method_selector (''0x'' @ s) = ''0x''"
      by (simp add: extract_method_selector_def Let_def strip_0x_def starts_with_def)
    moreover have "take 8 s \<noteq> r" using True sel(2) by auto
    ultimately show ?thesis unfolding st using sel by auto
  next
    case False
    then have "extract_method_selector (''0x'' @ s) = ''0x'' @ lower (take 8 s)"
      by (auto simp: extract_method_selector_def Let_def strip_0x_def starts_with_def)
    moreover have "lower (take 8 s) = take 8 s" using assms(1) by (simp add: lower_take)
    ultimately show ?thesis unfolding st by (auto simp: sel(1))
  qed
qed

lemma decoded_transfer:
  assumes "decode_erc20_transfer_calldata dec c = Inr (Some e)" "8 \<le> length (strip_0x c)"
    and "extract_method_selector c = ERC20_TRANSFER_SELECTOR"
  obtains body a n where "from_hex (drop 8 (strip_0x c)) = Inr body"
    "dec [''address'', ''uint256''] (take 64 body) = Inr [a, n]"
    "py_lower a = Inr (ec_to e)" "py_int n = Inr (ec_amount e)" "ec_from e = None"
  using assms by (auto simp: decode_erc20_transfer_calldata_def Let_def rbind_Inr
    split: if_splits sum.splits list.splits)

lemma decoded_transfer_from:
  assumes "decode_erc20_transfer_calldata dec c = Inr (Some e)" "8 \<le> length (strip_0x c)"
    and "extract_method_selector c = ERC20_TRANSFER_FROM_SELECTOR"
  obtains body g a n where "from_hex (drop 8 (strip_0x c)) = Inr body"
    "dec [''address'', ''address'', ''uint256''] (take 96 body) = Inr [g, a, n]"
    "py_lower a = Inr (ec_to e)" "py_int n = Inr (ec_amount e)" "ec_from e \<noteq> None" "py_lower g = Inr (the (ec_from e))"
  using assms selectors_differ by (auto simp: decode_erc20_transfer_calldata_def Let_def rbind_Inr
    split: if_splits sum.splits list.splits)

lemma transfer_selector_long: "extract_method_selector c \<in> transfer_selectors \<Longrightarrow> 8 \<le> length (strip_0x c)"
  by (auto simp: extract_method_selector_def Let_def transfer_selectors_def ERC20_TRANSFER_SELECTOR_def
    ERC20_TRANSFER_FROM_SELECTOR_def split: if_splits)

lemma lowered: "py_lower v = Inr t \<Longrightarrow> lower t = t"
  by (auto simp: py_lower_def split: pyval.splits)

lemma decoded_recipient:
  assumes e: "decode_erc20_transfer_calldata dec c = Inr (Some e)"
  shows "lower (ec_to e) = ec_to e \<and> (\<forall>g. ec_from e = Some g \<longrightarrow> lower g = g)"
  using erc20_calldata_cases [OF e]
proof
  assume s: "extract_method_selector c = ERC20_TRANSFER_SELECTOR \<and> ec_method e = ''transfer'' \<and> ec_from e = None"
  then show ?thesis using decoded_transfer [OF e transfer_selector_long] lowered
    by (metis insertI1 option.distinct(1) transfer_selectors_def)
next
  assume s: "extract_method_selector c = ERC20_TRANSFER_FROM_SELECTOR \<and> ec_method e = ''transferFrom''
    \<and> ec_from e \<noteq> None"
  then show ?thesis using decoded_transfer_from [OF e transfer_selector_long] lowered
    by (metis insertI1 insertI2 option.sel transfer_selectors_def)
qed

lemma transfer_call_agrees:
  assumes dec: "decode_erc20_transfer_calldata dec (''0x'' @ s) = Inr (Some e)"
    and low: "lower s = s" and sender: "dict_get n ''from'' = PStr f"
  shows "transfer_call dec n (''0x'' @ s) path = Inr \<lparr>pt_from = (case ec_from e of None \<Rightarrow> lower f | Some g \<Rightarrow> g),
    pt_to = ec_to e, pt_amount = ec_amount e, pt_call_path = Some path\<rparr>"
proof -
  let ?sel = "extract_method_selector (''0x'' @ s)"
  have drop: "drop 10 (''0x'' @ s) = drop 8 s" and strip: "strip_0x (''0x'' @ s) = s"
    by (simp, rule strip_0x_prefixed)
  have long: "8 \<le> length s" if "?sel \<in> transfer_selectors"
    using transfer_selector_long [OF that] unfolding strip .
  have fr: "py_lower (py_or (dict_get n ''from'') (PStr '''')) = Inr (lower f)"
    by (cases f) (simp_all add: sender py_or_def py_lower_def)
  from erc20_calldata_cases [OF dec] show ?thesis
  proof
    assume sel: "?sel = ERC20_TRANSFER_SELECTOR \<and> ec_method e = ''transfer'' \<and> ec_from e = None"
    then have "starts_with (''0x'' @ s) ERC20_TRANSFER_SELECTOR" "8 \<le> length s"
      using selector_prefix [OF low, of ERC20_TRANSFER_SELECTOR] long by (simp_all add: transfer_selectors_def)
    moreover obtain body a n where "from_hex (drop 8 s) = Inr body"
      "dec [''address'', ''uint256''] (take 64 body) = Inr [a, n]"
      "py_lower a = Inr (ec_to e)" "py_int n = Inr (ec_amount e)" "ec_from e = None"
      using decoded_transfer [OF dec] sel calculation(2) unfolding strip by blast
    ultimately show ?thesis
      unfolding transfer_call_def drop by (simp add: fr del: append.simps)
  next
    assume sel: "?sel = ERC20_TRANSFER_FROM_SELECTOR \<and> ec_method e = ''transferFrom'' \<and> ec_from e \<noteq> None"
    then have "\<not> starts_with (''0x'' @ s) ERC20_TRANSFER_SELECTOR" "8 \<le> length s" "?sel \<noteq> ERC20_TRANSFER_SELECTOR"
      using selector_prefix [OF low, of ERC20_TRANSFER_SELECTOR] long selectors_differ
      by (simp_all add: transfer_selectors_def)
    moreover obtain body g a n where "from_hex (drop 8 s) = Inr body"
      "dec [''address'', ''address'', ''uint256''] (take 96 body) = Inr [g, a, n]"
      "py_lower a = Inr (ec_to e)" "py_int n = Inr (ec_amount e)" "ec_from e \<noteq> None" "py_lower g = Inr (the (ec_from e))"
      using decoded_transfer_from [OF dec] sel calculation(2) unfolding strip by blast
    ultimately show ?thesis
      unfolding transfer_call_def drop by (auto simp del: append.simps)
  qed
qed

text \<open>A recipient the fast path reads is not the empty text; calldata it does not read raises in the probe.\<close>

lemma static_values:
  "static_decoder dec \<Longrightarrow> set tys \<subseteq> {''address'', ''uint256''} \<Longrightarrow> dec tys bs = Inr vals \<Longrightarrow> list_all2 static_value tys vals"
  unfolding static_decoder_def by blast

lemma decoded_to:
  assumes law: "static_decoder dec" and e: "decode_erc20_transfer_calldata dec c = Inr (Some e)"
  shows "ec_to e \<noteq> ''''"
proof -
  have to: "ec_to e \<noteq> ''''" if "py_lower v = Inr (ec_to e)" "static_value ''address'' v" for v
    using that by (cases v) (auto simp: py_lower_def static_value_def)
  from erc20_calldata_cases [OF e] show ?thesis
  proof
    assume sel: "extract_method_selector c = ERC20_TRANSFER_SELECTOR \<and> ec_method e = ''transfer'' \<and> ec_from e = None"
    then have long: "8 \<le> length (strip_0x c)" by (intro transfer_selector_long) (simp add: transfer_selectors_def)
    obtain body a n where v: "dec [''address'', ''uint256''] (take 64 body) = Inr [a, n]" "py_lower a = Inr (ec_to e)"
      using decoded_transfer [OF e long conjunct1 [OF sel]] by metis
    from static_values [OF law _ v(1)] have "static_value ''address'' a" by simp
    with v(2) show ?thesis by (rule to)
  next
    assume sel: "extract_method_selector c = ERC20_TRANSFER_FROM_SELECTOR \<and> ec_method e = ''transferFrom'' \<and> ec_from e \<noteq> None"
    then have long: "8 \<le> length (strip_0x c)" by (intro transfer_selector_long) (simp add: transfer_selectors_def)
    obtain body g a n where v: "dec [''address'', ''address'', ''uint256''] (take 96 body) = Inr [g, a, n]"
      "py_lower a = Inr (ec_to e)"
      using decoded_transfer_from [OF e long conjunct1 [OF sel]] by metis
    from static_values [OF law _ v(1)] have "static_value ''address'' a" by simp
    with v(2) show ?thesis by (rule to)
  qed
qed

lemma short_data_raises:
  "static_decoder dec \<Longrightarrow> set tys \<subseteq> {''address'', ''uint256''} \<Longrightarrow> length bs < 32 * length tys \<Longrightarrow> \<exists>x. dec tys bs = Inl x"
  unfolding static_decoder_def by (cases "dec tys bs") (auto simp: not_less [symmetric])

lemma transfer_call_raises:
  assumes dec: "decode_erc20_transfer_calldata dec (''0x'' @ s) = Inr None" and law: "static_decoder dec"
    and low: "lower s = s" and sel: "extract_method_selector (''0x'' @ s) \<in> transfer_selectors"
  shows "\<exists>x. transfer_call dec n (''0x'' @ s) path = Inl x"
proof -
  let ?sel = "extract_method_selector (''0x'' @ s)"
  have drop: "drop 10 (''0x'' @ s) = drop 8 s" and strip: "strip_0x (''0x'' @ s) = s"
    by (simp, rule strip_0x_prefixed)
  have long: "8 \<le> length s" using transfer_selector_long [OF sel] unfolding strip .
  show ?thesis
  proof (cases "from_hex (drop 8 s)")
    case Inl
    then show ?thesis unfolding transfer_call_def drop by simp
  next
    case (Inr body)
    note body = Inr
    show ?thesis
    proof (cases "?sel = ERC20_TRANSFER_SELECTOR")
      case True
      then have pre: "starts_with (''0x'' @ s) ERC20_TRANSFER_SELECTOR"
        using selector_prefix [OF low, of ERC20_TRANSFER_SELECTOR] by (simp add: transfer_selectors_def)
      from dec True long body have "length body < 64 \<or> (\<forall>a n. dec [''address'', ''uint256''] (take 64 body) \<noteq> Inr [a, n])"
        unfolding decode_erc20_transfer_calldata_def Let_def strip
        by (auto simp: rbind_Inr split: if_splits)
      then have "\<forall>a n. dec [''address'', ''uint256''] (take 64 body) \<noteq> Inr [a, n]"
        using short_data_raises [OF law, of "[''address'', ''uint256'']" "take 64 body"] by auto
      then show ?thesis unfolding transfer_call_def drop body
        by (cases "dec [''address'', ''uint256''] (take 64 body)")
          (auto simp: pre value_error_def simp del: append.simps split: list.split)
    next
      case False
      then have sel': "?sel = ERC20_TRANSFER_FROM_SELECTOR" using sel by (simp add: transfer_selectors_def)
      with False have pre: "\<not> starts_with (''0x'' @ s) ERC20_TRANSFER_SELECTOR"
        using selector_prefix [OF low, of ERC20_TRANSFER_SELECTOR] by (simp add: transfer_selectors_def)
      from dec sel' long body selectors_differ have "length body < 96
          \<or> (\<forall>g a n. dec [''address'', ''address'', ''uint256''] (take 96 body) \<noteq> Inr [g, a, n])"
        unfolding decode_erc20_transfer_calldata_def Let_def strip
        by (auto simp: rbind_Inr split: if_splits)
      then have "\<forall>g a n. dec [''address'', ''address'', ''uint256''] (take 96 body) \<noteq> Inr [g, a, n]"
        using short_data_raises [OF law, of "[''address'', ''address'', ''uint256'']" "take 96 body"] by auto
      then show ?thesis unfolding transfer_call_def drop body
        by (cases "dec [''address'', ''address'', ''uint256''] (take 96 body)")
          (auto simp: pre value_error_def simp del: append.simps split: list.split)
    qed
  qed
qed

section \<open>One node\<close>

definition path_text :: "int list \<Rightarrow> string" where
  "path_text a = join ''.'' (map show_int a)"

definition same_transfer :: "TraceTokenCall \<Rightarrow> ProbeTransfer \<Rightarrow> bool" where
  "same_transfer c m = (tt_to_addr c = pt_to m \<and> tt_amount c = pt_amount m
     \<and> pt_call_path m = Some (path_text (tt_trace_address c)) \<and> tt_method_name c \<in> {''transfer'', ''transferFrom''}
     \<and> tt_from_addr c = (if tt_method_name c = ''transfer'' then '''' else pt_from m))"

definition unregistered :: "AbiRegistry \<Rightarrow> string \<Rightarrow> bool" where
  "unregistered reg token = (\<forall>n. \<exists>msg. registry_get reg (lower token) n = Inl (Raise KeyError msg))"

definition taken :: "string \<Rightarrow> (string \<times> Receipt) list \<Rightarrow> DecodedCall \<Rightarrow> bool" where
  "taken token receipts d = (is_token_transfer (lower token) d \<and> call_in_effect receipts d)"

text \<open>The calls whose calldata reads as a transfer.\<close>

definition moved :: "string \<Rightarrow> (string \<times> Receipt) list \<Rightarrow> DecodedCall \<Rightarrow> bool" where
  "moved token receipts d = (taken token receipts d \<and> dc_params d \<noteq> [])"

definition agrees :: "string \<Rightarrow> DecodedCall \<Rightarrow> ProbeTransfer \<Rightarrow> bool" where
  "agrees token d m = (\<exists>c. token_call_of (lower token) d = Inr c \<and> same_transfer c m)"

lemma tracer_frame:
  assumes "trace_frame_of n c h a b = Inr f" "tracer_node n"
  shows "tf_tx_hash f = h" "tf_trace_address f = a" "input_or_0x f = node_input n"
    "tf_to_addr f = (case dict_get n ''to'' of PStr t \<Rightarrow> if t = '''' then None else Some (lower t) | _ \<Rightarrow> None)"
    "frame_ok f \<longleftrightarrow> \<not> truthy (dict_get n ''error'')"
proof -
  note f = assms(1) [unfolded trace_frame_of_def]
  show "tf_tx_hash f = h" "tf_trace_address f = a" using f by (auto simp: rbind_Inr)
  obtain s where "dict_get n ''input'' = PStr (''0x'' @ s)" using assms(2) by (auto simp: tracer_node_def)
  then have "node_input n = ''0x'' @ s"
    by (auto simp: node_input_def dict_get_def dict_get_or_def split: option.splits)
  then show "input_or_0x f = node_input n" using f by (auto simp: rbind_Inr input_or_0x_def node_input_def)
  show "tf_to_addr f = (case dict_get n ''to'' of PStr t \<Rightarrow> if t = '''' then None else Some (lower t) | _ \<Rightarrow> None)"
    using f assms(2) by (auto simp: rbind_Inr tracer_node_def)
  show "frame_ok f \<longleftrightarrow> \<not> truthy (dict_get n ''error'')"
  proof -
    have "tf_error f = opt_str (dict_get n ''error'')" "tf_revert_reason f = opt_str (dict_get n ''revertReason'')"
      using f by (auto simp: rbind_Inr)
    moreover have "dict_get n ''error'' = PNone \<and> dict_get n ''revertReason'' = PNone \<or> truthy (dict_get n ''error'')"
      using assms(2) unfolding tracer_node_def by blast
    ultimately show ?thesis by (cases "dict_get n ''error'' = PNone") (auto simp: frame_ok_def opt_str_def)
  qed
qed

lemma unregistered_call:
  assumes "unregistered reg token" "tf_to_addr f = Some a" "lower a = lower token"
  shows "registry_call keccak dec reg f = Inr (''<unknown>'', [])"
proof -
  obtain msg where "registry_get reg (lower a) (tf_block_number f) = Inl (Raise KeyError msg)"
    using assms(1,3) unfolding unregistered_def by metis
  then show ?thesis by (simp add: registry_call_def assms(2) swallow_key_error_def)
qed

text \<open>A call on the token that carries no transfer selector is taken by neither; one that does is taken by
  both, with the same recipient and amount.\<close>

lemma other_call_not_taken:
  assumes "decode_frame keccak dec reg ps f = Inr d" "registry_call keccak dec reg f = Inr (''<unknown>'', [])"
    and "extract_method_selector (input_or_0x f) \<notin> transfer_selectors"
  shows "\<not> moved token receipts d"
proof -
  obtain x where x: "decode_erc20_transfer_calldata dec (input_or_0x f) = Inr x"
    using assms(1,2) by (auto simp: decode_frame_def elim!: rbind_InrE)
  have "x = None"
  proof (rule ccontr)
    assume "x \<noteq> None"
    with x obtain e where "decode_erc20_transfer_calldata dec (input_or_0x f) = Inr (Some e)" by auto
    from erc20_calldata_cases [OF this] show False using assms(3) by (auto simp: transfer_selectors_def)
  qed
  then have "dc_method_name d = ''<unknown>''" using assms(1,2) x by (auto simp: decode_frame_def)
  moreover have "dc_method_selector d \<notin> transfer_selectors" using assms(3) decode_frame_fields [OF assms(1)] by simp
  ultimately show ?thesis by (simp add: moved_def taken_def is_token_transfer_def transfer_selectors_def)
qed

lemma transfer_taken:
  assumes d: "decode_frame keccak dec reg True f = Inr d"
    and reg: "registry_call keccak dec reg f = Inr (''<unknown>'', [])"
    and e: "decode_erc20_transfer_calldata dec (input_or_0x f) = Inr (Some e)"
    and f: "tf_to_addr f = Some t" "t \<noteq> ''''" "lower t = lower token" "frame_ok f"
    and r: "map_of receipts (lower (tf_tx_hash f)) = Some r" "rc_status r = 1"
    and m: "m = \<lparr>pt_from = (case ec_from e of None \<Rightarrow> g | Some g' \<Rightarrow> g'), pt_to = ec_to e, pt_amount = ec_amount e,
      pt_call_path = Some (path_text (tf_trace_address f))\<rparr>"
  shows "moved token receipts d \<and> agrees token d m"
proof -
  note fields = decode_frame_fields [OF d]
  have p: "dc_params d = erc20_params e" "dc_method_name d = ec_method e"
    using d reg e by (auto simp: decode_frame_def)
  have "dc_method_selector d \<in> transfer_selectors"
    using erc20_calldata_cases [OF e] fields by (auto simp: transfer_selectors_def)
  then have "is_token_transfer (lower token) d"
    using fields f by (simp add: is_token_transfer_def transfer_selectors_def)
  moreover have "call_in_effect receipts d"
    using fields f(4) r by (simp add: call_in_effect_def)
  moreover have "agrees token d m"
    using fields p decoded_recipient [OF e] erc20_calldata_cases [OF e] selectors_differ
    by (auto simp: agrees_def token_call_of_def transfer_amount_def erc20_params_def dict_get_or_def param_str_def
      same_transfer_def m split: option.splits)
  moreover have "dc_params d \<noteq> []" by (simp add: p(1) erc20_params_def)
  ultimately show ?thesis by (simp add: moved_def taken_def)
qed

lemma token_node_agrees:
  assumes law: "static_decoder dec" and f: "trace_frame_of n c h a b = Inr f" and n: "tracer_node n" "\<not> truthy (dict_get n ''error'')"
    and reg: "unregistered reg token" "token \<noteq> ''''"
    and d: "decode_frame keccak dec reg True f = Inr d"
    and r: "map_of receipts (lower h) = Some r" "rc_status r = 1"
    and t: "dict_get n ''to'' = PStr t" "lower t = lower token"
  shows "\<exists>ms. node_transfer dec (\<lambda>_. True) token n (path_text a) = Inr ms
    \<and> list_all2 (agrees token) (filter (moved token receipts) [d]) ms"
proof -
  note frame = tracer_frame [OF f n(1)]
  obtain s g where inp: "dict_get n ''input'' = PStr (''0x'' @ s)" "lower s = s" and g: "dict_get n ''from'' = PStr g"
    using n(1) unfolding tracer_node_def by blast
  have input: "node_input n = ''0x'' @ s" "py_or (dict_get n ''input'') (PStr ''0x'') = PStr (''0x'' @ s)"
    using inp(1) by (auto simp: node_input_def dict_get_def dict_get_or_def py_or_def split: option.splits)
  have "t \<noteq> ''''" using t(2) [symmetric] reg(2) by auto
  then have tf: "tf_to_addr f = Some (lower t)" "lower t \<noteq> ''''" "lower (lower t) = lower token"
    and tgt: "py_lower (py_or (dict_get n ''to'') (PStr '''')) = Inr (lower token)"
    using frame(4) t reg(2) by (simp_all add: py_or_def py_lower_def)
  have rc: "registry_call keccak dec reg f = Inr (''<unknown>'', [])"
    using reg(1) tf(1,3) by (rule unregistered_call)
  have pre: "starts_with (''0x'' @ s) ERC20_TRANSFER_SELECTOR \<or> starts_with (''0x'' @ s) ERC20_TRANSFER_FROM_SELECTOR
      \<longleftrightarrow> extract_method_selector (node_input n) \<in> transfer_selectors"
    unfolding input(1) using selector_prefix [OF inp(2)] by (auto simp: transfer_selectors_def)
  show ?thesis
  proof (cases "extract_method_selector (node_input n) \<in> transfer_selectors")
    case False
    then have "\<not> moved token receipts d" using other_call_not_taken [OF d rc] by (simp add: frame(3))
    moreover have "node_transfer dec (\<lambda>_. True) token n (path_text a) = Inr []"
      using False pre by (simp add: node_transfer_def tgt input(2) del: append.simps)
    ultimately show ?thesis by simp
  next
    case sel: True
    from d rc obtain x where x: "decode_erc20_transfer_calldata dec (node_input n) = Inr x"
      "dc_params d = (case x of None \<Rightarrow> [] | Some e \<Rightarrow> erc20_params e)"
      by (auto simp: decode_frame_def frame(3) rbind_Inr split: option.splits)
    show ?thesis
    proof (cases x)
      case None
      obtain err where "transfer_call dec n (''0x'' @ s) (path_text a) = Inl err"
        using transfer_call_raises [OF x(1) [unfolded None input(1)] law inp(2)] sel unfolding input(1) by blast
      then have "node_transfer dec (\<lambda>_. True) token n (path_text a) = Inr []"
        by (simp add: node_transfer_def tgt input(2) del: append.simps)
      moreover have "\<not> moved token receipts d" using x(2) None by (simp add: moved_def)
      ultimately show ?thesis by simp
    next
      case (Some e)
      note e = x(1) [unfolded Some]
      define m where "m = \<lparr>pt_from = (case ec_from e of None \<Rightarrow> lower g | Some g' \<Rightarrow> g'), pt_to = ec_to e,
        pt_amount = ec_amount e, pt_call_path = Some (path_text a)\<rparr>"
      have "node_transfer dec (\<lambda>_. True) token n (path_text a) = Inr [m]"
        using sel pre transfer_call_agrees [OF e [unfolded input(1)] inp(2) g]
        by (simp add: node_transfer_def tgt input(2) m_def del: append.simps)
      moreover have "moved token receipts d \<and> agrees token d m"
        by (rule transfer_taken [where r = r, OF d rc _ tf]) (simp_all add: frame e n(2) r m_def)
      ultimately show ?thesis by simp
    qed
  qed
qed

lemma node_agrees:
  assumes law: "static_decoder dec" and f: "trace_frame_of n c h a b = Inr f" and n: "tracer_node n" "\<not> truthy (dict_get n ''error'')"
    and reg: "unregistered reg token" "token \<noteq> ''''"
    and d: "decode_frame keccak dec reg True f = Inr d"
    and r: "map_of receipts (lower h) = Some r" "rc_status r = 1"
  shows "\<exists>ms. node_transfer dec (\<lambda>_. True) token n (path_text a) = Inr ms
    \<and> list_all2 (agrees token) (filter (moved token receipts) [d]) ms"
proof -
  note frame = tracer_frame [OF f n(1)]
  have to: "dict_get n ''to'' = PNone \<or> (\<exists>t. dict_get n ''to'' = PStr t)"
    using n(1) unfolding tracer_node_def by blast
  define target where "target = (case dict_get n ''to'' of PStr t \<Rightarrow> lower t | _ \<Rightarrow> '''')"
  have tgt: "py_lower (py_or (dict_get n ''to'') (PStr '''')) = Inr target"
    using to by (auto simp: target_def py_or_def py_lower_def)
  show ?thesis
  proof (cases "target = lower token")
    case False
    then have "\<not> moved token receipts d"
      using decode_frame_fields [OF d] frame(4) to
      by (auto simp: moved_def taken_def is_token_transfer_def target_def split: if_splits)
    moreover have "node_transfer dec (\<lambda>_. True) token n (path_text a) = Inr []"
      using False by (simp add: node_transfer_def tgt)
    ultimately show ?thesis by simp
  next
    case True
    have "dict_get n ''to'' \<noteq> PNone" using True [symmetric] reg(2) by (auto simp: target_def)
    then obtain t where "dict_get n ''to'' = PStr t" "lower t = lower token"
      using to True by (auto simp: target_def)
    then show ?thesis by (rule token_node_agrees [OF law f n reg d r])
  qed
qed

section \<open>The walk\<close>

lemma path_text_snoc: "path_text (a @ [i]) = (if a = [] then show_int i else path_text a @ ''.'' @ show_int i)"
proof -
  have "join ''.'' (xs @ [y]) = (if xs = [] then y else join ''.'' xs @ ''.'' @ y)" for xs y
    by (induction "''.''" xs rule: join.induct) simp_all
  then show ?thesis by (simp add: path_text_def)
qed

lemma child_path_text: "child_path (path_text a) i = path_text (a @ [int i])"
proof -
  have "path_text a \<noteq> ''''" if "a \<noteq> []" using that by (cases a rule: rev_cases) (simp_all add: path_text_snoc)
  moreover have "path_text [] = ''''" by (simp add: path_text_def)
  ultimately show ?thesis by (cases "a = []") (simp_all add: child_path_def path_text_snoc path_text_snoc [of "[]", simplified])
qed

lemma walk_below_error:
  assumes "walk_calls (decode_frame keccak dec reg) False t = Inr ds"
  shows "filter (moved token receipts) ds = []"
proof -
  have "\<not> dc_parent_success d" if "d \<in> set ds" for d
  proof -
    from list_all2_set2 [OF walk_calls_paths [OF assms] that] obtain p s
      where "decode_frame keccak dec reg (False \<and> ancestors_ok t p) (frame s) = Inr d"
      by (auto simp: decoded_at_def)
    from decode_frame_fields [OF this] show ?thesis by simp
  qed
  then show ?thesis by (auto simp: filter_empty_conv moved_def taken_def call_in_effect_def)
qed

lemma mapR_list_all2:
  assumes "\<And>i. i < length xs \<Longrightarrow> \<exists>y. f (xs ! i) = Inr y \<and> P (zs ! i) y" "length zs = length xs"
  shows "\<exists>ys. mapR f xs = Inr ys \<and> list_all2 P zs ys"
proof -
  from assms(1) obtain g where g: "\<And>i. i < length xs \<Longrightarrow> f (xs ! i) = Inr (g i) \<and> P (zs ! i) (g i)" by metis
  let ?ys = "map g [0..<length xs]"
  have "list_all2 (\<lambda>x y. f x = Inr y) xs ?ys" "list_all2 P zs ?ys"
    using g assms(2) by (auto simp: list_all2_conv_all_nth)
  then show ?thesis by (auto simp: mapR_Inr)
qed

lemma failed_node_agrees:
  assumes "trace_frame_of n c h a b = Inr f" "tracer_node n" "truthy (dict_get n ''error'')"
    and "decode_frame keccak dec reg True f = Inr d"
    and "list_all2 (\<lambda>c es. walk_calls (decode_frame keccak dec reg) (frame_ok f) c = Inr es) cs dss"
  shows "filter (moved token receipts) (d # concat dss) = []"
proof -
  note ok = tracer_frame(5) [OF assms(1,2)]
  have "filter (moved token receipts) es = []" if "es \<in> set dss" for es
    using list_all2_set2 [OF assms(5) that] ok assms(3) walk_below_error by auto
  then have "filter (moved token receipts) (concat dss) = []" by (auto simp: filter_concat)
  moreover have "\<not> moved token receipts d"
    using decode_frame_fields [OF assms(4)] ok assms(3) by (simp add: moved_def taken_def call_in_effect_def)
  ultimately show ?thesis by simp
qed

lemma walks_agree:
  assumes law: "static_decoder dec" and "trace_dict_to_raw_trace n c h a b = Inr t" "\<forall>e. sub_node n e \<longrightarrow> tracer_node e"
    and reg: "unregistered reg token" "token \<noteq> ''''"
    and "walk_calls (decode_frame keccak dec reg) True t = Inr ds"
    and r: "map_of receipts (lower h) = Some r" "rc_status r = 1"
  shows "\<exists>ms. walk_node dec (\<lambda>_. True) token n (path_text a) = Inr ms
    \<and> list_all2 (agrees token) (filter (moved token receipts) ds) ms"
  using assms(2,3,6)
proof (induction t arbitrary: n a ds)
  case (RawTrace f cs)
  from RawTrace.prems(1) obtain ns where f: "trace_frame_of n c h a b = Inr f" and ns: "child_nodes n = Inr ns"
    and cs: "list_all2 (\<lambda>(i, d) s. trace_dict_to_raw_trace d c h (a @ [int i]) b = Inr s) (enumerate 0 ns) cs"
    by (elim trace_dict_cases) auto
  have n: "tracer_node n" using RawTrace.prems(2) sub_node.here by blast
  note ok = tracer_frame(5) [OF f n]
  from RawTrace.prems(3) obtain d dss where d: "decode_frame keccak dec reg True f = Inr d"
    and dss: "mapR (walk_calls (decode_frame keccak dec reg) (frame_ok f)) cs = Inr dss" and ds: "ds = d # concat dss"
    by (auto simp: rbind_Inr)
  have l: "list_all2 (\<lambda>c es. walk_calls (decode_frame keccak dec reg) (frame_ok f) c = Inr es) cs dss"
    using dss by (simp add: mapR_Inr)
  note len = list_all2_lengthD [OF cs] list_all2_lengthD [OF l]
  show ?case
  proof (cases "truthy (dict_get n ''error'')")
    case True
    then show ?thesis using failed_node_agrees [OF f n True d l]
      by (simp add: walk_node.simps [of _ _ _ n] ds)
  next
    case False
    obtain here where here: "node_transfer dec (\<lambda>_. True) token n (path_text a) = Inr here"
      "list_all2 (agrees token) (filter (moved token receipts) [d]) here"
      using node_agrees [OF law f n False reg d r] by blast
    have each: "\<exists>ms. (\<lambda>(i, child). walk_node dec (\<lambda>_. True) token child (child_path (path_text a) i)) (enumerate 0 ns ! i) = Inr ms
        \<and> list_all2 (agrees token) (map (filter (moved token receipts)) dss ! i) ms"
      if i: "i < length (enumerate 0 ns)" for i
    proof -
      from i len have ii: "i < length ns" "i < length cs" "i < length dss" by simp_all
      have t: "trace_dict_to_raw_trace (ns ! i) c h (a @ [int i]) b = Inr (cs ! i)"
        using trace_dict_child [OF cs ii(2)] by simp
      have sub: "\<forall>e. sub_node (ns ! i) e \<longrightarrow> tracer_node e"
        using RawTrace.prems(2) sub_node.below [OF ns nth_mem [OF ii(1)]] by blast
      have "walk_calls (decode_frame keccak dec reg) True (cs ! i) = Inr (dss ! i)"
        using list_all2_nthD [OF l ii(2)] ok False by simp
      from RawTrace.IH [OF nth_mem [OF ii(2)] t sub this] show ?thesis
        using ii by (simp add: child_path_text nth_enumerate_eq)
    qed
    have "\<exists>below. mapR (\<lambda>(i, child). walk_node dec (\<lambda>_. True) token child (child_path (path_text a) i))
        (enumerate 0 ns) = Inr below
      \<and> list_all2 (list_all2 (agrees token)) (map (filter (moved token receipts)) dss) below"
      by (rule mapR_list_all2, erule each) (use len in simp)
    then obtain below where "mapR (\<lambda>(i, child). walk_node dec (\<lambda>_. True) token child (child_path (path_text a) i))
        (enumerate 0 ns) = Inr below"
      "list_all2 (list_all2 (agrees token)) (map (filter (moved token receipts)) dss) below" by blast
    moreover from this(2) have "list_all2 (agrees token) (filter (moved token receipts) (concat dss)) (concat below)"
      unfolding filter_concat by (rule list_all2_concat)
    then have "list_all2 (agrees token) (filter (moved token receipts) [d] @ filter (moved token receipts) (concat dss))
        (here @ concat below)"
      using here(2) by (intro list_all2_appendI)
    then have "list_all2 (agrees token) (filter (moved token receipts) ds) (here @ concat below)"
      by (simp add: ds split: if_splits)
    ultimately show ?thesis using False by (simp add: walk_node.simps [of _ _ _ n] here(1) ns)
  qed
qed

section \<open>Properties\<close>

lemma list_all2_filter:
  assumes "list_all2 P xs ys" "\<And>x y. x \<in> set xs \<Longrightarrow> P x y \<Longrightarrow> Q x = R y"
  shows "list_all2 P (filter Q xs) (filter R ys)"
  using assms by (induction rule: list_all2_induct) auto

lemma taken_readable:
  assumes "decode_frame keccak dec reg ps f = Inr d" "unregistered reg token" "taken token receipts d" "static_decoder dec"
    and c: "token_call_of (lower token) d = Inr c"
  shows "(decode_erc20_transfer_calldata dec (input_or_0x f) = Inr None \<longleftrightarrow> dc_params d = [])
    \<and> (tt_to_addr c = '''' \<longleftrightarrow> dc_params d = []) \<and> (dc_params d = [] \<longrightarrow> tt_from_addr c = '''' \<and> tt_amount c = 0)"
proof -
  obtain a where a: "tf_to_addr f = Some a" "lower a = lower token"
    using assms(3) decode_frame_fields [OF assms(1)]
    by (auto simp: taken_def is_token_transfer_def split: option.splits if_splits)
  have "registry_call keccak dec reg f = Inr (''<unknown>'', [])" using assms(2) a by (rule unregistered_call)
  with assms(1) obtain x where x: "decode_erc20_transfer_calldata dec (input_or_0x f) = Inr x"
    "dc_params d = (case x of None \<Rightarrow> [] | Some e \<Rightarrow> erc20_params e)"
    by (auto simp: decode_frame_def rbind_Inr split: option.splits)
  show ?thesis
  proof (cases x)
    case None
    with x have "dc_params d = []" by simp
    with c x None show ?thesis
      by (auto simp: token_call_of_def transfer_amount_def param_str_def dict_get_or_def rbind_Inr)
  next
    case (Some e)
    have "tt_to_addr c = ec_to e" using c x(2) Some decoded_recipient [OF x(1) [unfolded Some]]
      by (auto simp: token_call_of_def param_str_def dict_get_or_def erc20_params_def rbind_Inr split: option.splits)
    then show ?thesis using x Some decoded_to [OF assms(4) x(1) [unfolded Some]] by (simp add: erc20_params_def)
  qed
qed


definition call_node :: "string \<Rightarrow> string \<Rightarrow> pydict list \<Rightarrow> pydict" where
  "call_node target inp cs = [(''from'', PStr ''0xf''), (''to'', PStr target), (''input'', PStr inp),
     (''calls'', PList (map PDict cs))]"

text \<open>A decoder that answers what is long enough, and a contract that calls the token three times: a
  \<open>transfer\<close>, one whose calldata ends after the selector, and a \<open>transferFrom\<close>.\<close>

definition word_decode :: "string list \<Rightarrow> byte list \<Rightarrow> pyval list res" where
  "word_decode tys bs = (if length bs < 32 * length tys then Inl (Raise ExternalError ''InsufficientDataBytes'')
     else Inr (map (\<lambda>ty. if ty = ''address'' then PStr ''0xB'' else PInt 5) tys))"

definition short_input :: string where "short_input = ''0xa9059cbb''"

definition from_input :: string where "from_input = ''0x23b872dd'' @ replicate 192 (CHR ''0'')"

definition probe_root :: pydict where
  "probe_root = call_node ''0xc0'' ''0x'' (map (\<lambda>s. call_node ''0x70'' s []) [transfer_input, short_input, from_input])"

lemma word_decode_static: "static_decoder word_decode"
  by (auto simp: static_decoder_def word_decode_def list_all2_conv_all_nth static_value_def split: if_splits dest!: nth_mem)

lemma probe_inputs_decode:
  "decode_erc20_transfer_calldata word_decode transfer_input = Inr (Some
     \<lparr>ec_method = ''transfer'', ec_from = None, ec_to = ''0xb'', ec_amount = 5\<rparr>)"
  "decode_erc20_transfer_calldata word_decode short_input = Inr None"
  "decode_erc20_transfer_calldata word_decode from_input = Inr (Some
     \<lparr>ec_method = ''transferFrom'', ec_from = Some ''0xb'', ec_to = ''0xb'', ec_amount = 5\<rparr>)"
  "decode_erc20_transfer_calldata word_decode ''0x'' = Inr None"
  "extract_method_selector transfer_input = ERC20_TRANSFER_SELECTOR"
  "extract_method_selector short_input = ERC20_TRANSFER_SELECTOR"
  "extract_method_selector from_input = ERC20_TRANSFER_FROM_SELECTOR"
  "lower ''0xb'' = ''0xb''"
  by code_simp+

lemma probe_inputs_hex:
  "s \<in> {transfer_input, short_input, from_input, ''0x''} \<Longrightarrow> \<exists>r. s = ''0x'' @ r \<and> lower r = r"
proof -
  have "s = ''0x'' @ drop 2 s \<and> lower (drop 2 s) = drop 2 s" if "s \<in> set [transfer_input, short_input, from_input, ''0x'']"
  proof -
    have "list_all (\<lambda>s. s = ''0x'' @ drop 2 s \<and> lower (drop 2 s) = drop 2 s) [transfer_input, short_input, from_input, ''0x'']"
      by code_simp
    with that show ?thesis unfolding list_all_iff by blast
  qed
  then show "s \<in> {transfer_input, short_input, from_input, ''0x''} \<Longrightarrow> \<exists>r. s = ''0x'' @ r \<and> lower r = r" by auto
qed

lemma call_node_children: "child_nodes (call_node target inp cs) = Inr cs"
proof -
  have "mapR as_dict (map PDict cs) = Inr cs" by (induction cs) (simp_all add: as_dict_def)
  then show ?thesis by (simp add: child_nodes_def call_node_def dict_get_def py_or_def dict_items_def)
qed

lemma probe_nodes: "sub_node probe_root e \<Longrightarrow> tracer_node e"
proof -
  have node: "tracer_node (call_node target s cs)" if "s \<in> {transfer_input, short_input, from_input, ''0x''}" for target s cs
    unfolding tracer_node_def using probe_inputs_hex [OF that] by (simp add: call_node_def dict_get_def)
  have leaf: "e = call_node ''0x70'' s []" if "sub_node (call_node ''0x70'' s []) e" for s
    using that by (cases rule: sub_node.cases) (auto simp: call_node_children)
  have kids: "child_nodes probe_root = Inr (map (\<lambda>s. call_node ''0x70'' s []) [transfer_input, short_input, from_input])"
    unfolding probe_root_def by (rule call_node_children)
  have root: "tracer_node probe_root" unfolding probe_root_def by (rule node) simp
  assume "sub_node probe_root e"
  then show "tracer_node e"
  proof (cases rule: sub_node.cases)
    case here
    with root show ?thesis by simp
  next
    case (below ds d)
    with kids obtain s where s: "s \<in> set [transfer_input, short_input, from_input]" "d = call_node ''0x70'' s []" by auto
    with leaf below have "e = call_node ''0x70'' s []" by blast
    with s(1) show ?thesis by (auto intro: node)
  qed
qed

lemma sample_receipt: "\<exists>r. map_of sample_receipts (lower ''0xaa'') = Some r \<and> rc_status r = 1"
  by (simp add: sample_receipts_def transfer_input_decodes(6))

lemma leaf_tree:
  "\<exists>g. trace_dict_to_raw_trace (call_node ''0x70'' s []) 1 ''0xaa'' a 0 = Inr (RawTrace g []) \<and> input_or_0x g = (if s = '''' then ''0x'' else s)
    \<and> tf_to_addr g = Some ''0x70'' \<and> tf_tx_hash g = ''0xaa'' \<and> tf_trace_address g = a \<and> frame_ok g"
proof -
  have "lower ''0x70'' = ''0x70''" by code_simp
  moreover have "child_nodes (call_node ''0x70'' s []) = Inr []" by (rule call_node_children)
  ultimately show ?thesis
    by (simp add: trace_dict_to_raw_trace.simps [of "call_node _ _ _"])
      (auto simp: trace_frame_of_def call_node_def hex_field_def dict_get_def dict_get_or_def frame_ok_def opt_str_def input_or_0x_def)
qed

lemma root_frame: "\<exists>f. trace_frame_of probe_root 1 ''0xaa'' [] 0 = Inr f \<and> frame_ok f \<and> tf_to_addr f = Some ''0xc0''
  \<and> input_or_0x f = ''0x''"
proof -
  have "lower ''0xc0'' = ''0xc0''" by code_simp
  then show ?thesis
    by (auto simp: trace_frame_of_def probe_root_def call_node_def hex_field_def dict_get_def dict_get_or_def
      frame_ok_def opt_str_def input_or_0x_def)
qed

text \<open>One of the calls, from its node to its decoding.\<close>

lemma leaf_decodes:
  assumes "decode_erc20_transfer_calldata word_decode s = Inr x" "extract_method_selector s \<in> transfer_selectors"
  shows "\<exists>g d. trace_dict_to_raw_trace (call_node ''0x70'' s []) 1 ''0xaa'' a 0 = Inr (RawTrace g []) \<and> frame_ok g
    \<and> decode_frame (\<lambda>_. []) word_decode [] True g = Inr d \<and> taken ''0x70'' sample_receipts d
    \<and> dc_params d = (case x of None \<Rightarrow> [] | Some e \<Rightarrow> erc20_params e) \<and> dc_method_selector d = extract_method_selector s
    \<and> dc_method_name d = (case x of None \<Rightarrow> ''<unknown>'' | Some e \<Rightarrow> ec_method e)"
proof -
  have low: "lower ''0x70'' = ''0x70''" "lower ''0xaa'' = ''0xaa''" by code_simp+
  have "s \<noteq> ''''" using assms(2) by (auto simp: extract_method_selector_def transfer_selectors_def
      ERC20_TRANSFER_SELECTOR_def ERC20_TRANSFER_FROM_SELECTOR_def)
  with leaf_tree [of s a] obtain g where g: "trace_dict_to_raw_trace (call_node ''0x70'' s []) 1 ''0xaa'' a 0 = Inr (RawTrace g [])"
    "input_or_0x g = s" "tf_to_addr g = Some ''0x70''" "tf_tx_hash g = ''0xaa''" "frame_ok g"
    by auto
  have "registry_call (\<lambda>_. []) word_decode [] g = Inr (''<unknown>'', [])"
    by (simp add: registry_call_def g(3) registry_get_def swallow_key_error_def)
  then obtain d where d: "decode_frame (\<lambda>_. []) word_decode [] True g = Inr d"
    "dc_params d = (case x of None \<Rightarrow> [] | Some e \<Rightarrow> erc20_params e)"
    "dc_method_name d = (case x of None \<Rightarrow> ''<unknown>'' | Some e \<Rightarrow> ec_method e)"
    using assms(1) by (cases x) (auto simp: decode_frame_def g(2))
  from decode_frame_fields [OF d(1)] assms(2) g have "taken ''0x70'' sample_receipts d"
    by (auto simp: taken_def is_token_transfer_def call_in_effect_def transfer_selectors_def sample_receipts_def low)
  with g(1,2,5) d decode_frame_fields [OF d(1)] show ?thesis by auto
qed


end
