(* ===== verification/Spec2Isabelle.thy ===== *)
theory Spec2Isabelle
  imports Checks Balance_Reconciler Analytics Pa_Reserves Rpc_Client Finality_Reorg Lineage_Storage
    Seed_Pipeline Bq_Extract Parity_Check Warehouse Pipeline_Dag Repo_Scripts Probe_Agreement
begin

text \<open>
  A model of the economic ledger pipeline, package by package, with the properties that make it
  correct. The pipeline reads Ethereum logs, receipts and call traces, from a node or from
  BigQuery, decodes them against versioned ABIs, turns LINK transfers into token movements and
  protocol events into economic actions, matches the two, and posts balanced ledger entries.

  \<^bold>\<open>Conventions.\<close> A definition has the name of the function it models, without the leading
  underscore; where that name is a constant of HOL or of another theory it is prefixed or suffixed.
  A dataclass is a record with a prefix on each field, an enumeration a datatype with its \<open>value\<close>
  function. An exception is a value: \<open>'a res\<close> is \<open>py_err + 'a\<close>, with the class and, where the source
  composes it, the message; \<open>rbind\<close> sequences what may raise, \<open>mapR\<close> and \<open>foldR\<close> are loops that may raise.
  Integers are \<open>int\<close>, for Python's are unbounded; bytes are \<open>8 word\<close>, and SHA-256 is computed on
  \<open>32 word\<close>. A value of dynamic type is a \<open>pyval\<close>, a dictionary an association list in insertion order,
  so that iteration order and the last write to a key are those of Python. Where the source stores
  a value of another type than the field declares, the model raises \<open>TypeError\<close>. A generator is the
  list it yields. A float is the rational it holds: \<open>Py_Float\<close> has the rounding of integers, of quotients
  of integers and of quotients of floats to the nearest double, and the overflow; the ratios of the
  analytics, of the checks and of the partition report go through it, one rounding per operation.

  \<^bold>\<open>Parameters.\<close> Code outside the repository is an argument of the definitions that use it:
  \<open>keccak\<close> (eth_utils), \<open>abi_decode\<close> (eth_abi), the web3 client (\<open>Web3\<close>), \<open>google.cloud.bigquery\<close>
  (\<open>BigQuery\<close>, the \<open>query\<close> an extractor runs, or \<open>BqAdmin\<close> for loads and merges), \<open>requests.post\<close>, the
  directory of ABI files, Spark's readers, the clock, float formatting. Hypotheses on them are named definitions: \<open>serves_chain\<close> (a node answers a
  range with the logs of the range or refuses it), \<open>node_serves\<close> and \<open>dataset_holds\<close> (a node and the public
  dataset answer for one chain, the dataset to the statements in their text), \<open>runs_merges\<close> (a text that
  reads as a MERGE statement does what SQL says; other texts are left open), \<open>tracer_node\<close> (the fields of
  a node of \<open>callTracer\<close>), \<open>static_decoder\<close> (eth_abi wants a word of data per static type). SHA-256 is defined in full; that two keys do not collide is never assumed globally but is
  an alternative in the conclusion (\<open>collides\<close>, \<open>entry_keys\<close>) or a hypothesis on the two keys.

  \<^bold>\<open>Foundations.\<close>
  \<^item> \<open>Prelude\<close>: results, strings, decimal and hexadecimal texts, dynamic values, dictionaries, grouping
    and summing by key, with the lemmas the components share.
  \<^item> \<open>Py_Float\<close>: doubles as rationals, with bounds on their error.
  \<^item> \<open>Sha256\<close>: the digest and the canonical keys of all identifiers; locale \<open>hashed_id\<close> (an identifier is a
    function of its fields and distinguishes them up to a collision), \<open>two_hashed_ids\<close> (tags keep
    two families apart). Every identifier of the pipeline is an interpretation.
  \<^item> \<open>Evm_Types\<close>: \<open>decoder/types.py\<close>. \<open>Double_Entry\<close>: locale \<open>double_entry\<close> (an action posts nothing or a
    debit and a credit of one amount) and \<open>numbered_entries\<close>, interpreted on both ledger builders.

  \<^bold>\<open>Decoding\<close> (\<open>decoder/\<close>).
  \<^item> \<open>Abi_Registry\<close>, \<open>Contract_Registry\<close>: signatures, phases, loading and lookup; locale \<open>phase_lookup\<close>
    (disjoint phases make the phase of a block unique) serves both, \<open>role_table\<close> what protocols need.
  \<^item> \<open>Event_Decoder\<close>, \<open>Calldata_Decoder\<close>: one log or calldata against an ABI, and batches of logs.
  \<^item> \<open>Trace_Tree\<close>: flat rows to a call tree and back; the source's graph of objects is a store keyed by
    address, and the recursion that reads it off has a fuel (\<open>depth_bound\<close>: one more than the longest
    address), which suffices because a child's address is longer than its parent's.
  \<^item> \<open>Trace_Decoder\<close>: every frame decoded with the success of its ancestors, and the transfers in effect.
  \<^item> \<open>Proxy_Resolver\<close>: storage slots and implementation addresses.

  \<^bold>\<open>Protocols and reconciliation\<close> (\<open>protocols/\<close>, \<open>reconciliation/\<close>, \<open>analytics/\<close>).
  \<^item> \<open>Movement_Builder\<close>: movements from logs and calls and their unification.
  \<^item> \<open>Staking\<close>, \<open>Payment_Abstraction\<close>, \<open>Pa_Reserves\<close>: events to actions, actions to ledger entries, Reserves
    inflows with their path through the call tree.
  \<^item> \<open>Reconciler\<close>, \<open>Balance_Reconciler\<close>, \<open>Checks\<close>: matching of actions to movements (exact, a batch of
    up to \<open>max_size\<close> movements, ambiguous, unmatched), balances, data-quality checks.
  \<^item> \<open>Analytics\<close>: yield, fee attribution, reward distribution.

  \<^bold>\<open>Ingestion and storage\<close> (\<open>ingestion/\<close>, \<open>storage/\<close>, \<open>lineage/\<close>, \<open>databricks/\<close>).
  \<^item> \<open>Rpc_Fetch\<close>: windowed fetching; the two loops that may run forever are partial functions into
    \<open>option\<close>, proved to end when the window is positive and to diverge when it is zero.
  \<^item> \<open>Rpc_Client\<close>, \<open>Bq_Extract\<close>: the two sources and their conversion to the records.
  \<^item> \<open>Checkpoint_Store\<close>: the JSON store refines a map from keys to cursors. \<open>Finality_Reorg\<close>: watermarks,
    conflicts, promotion. \<open>Lineage_Storage\<close>: runs, manifests, dataset files. \<open>Warehouse\<close>: the rows of the
    nine record types (locales \<open>record_rows\<close> and \<open>json_rows\<close>: a row determines its record, a file its
    records), load jobs, MERGE statements and their replay; \<open>Sql_Merge\<close>: the text of a MERGE statement, and
    a reader of such texts that gives back the statement. \<open>Parity_Check\<close>: two copies of a mart.
  \<^item> \<open>Pipeline_Dag\<close> (\<open>airflow/dags/staking_pipeline_dag.py\<close>): the tasks and their dependencies; a run is a
    step relation of a scheduler, with the invariant that what has finished is a prefix of the chain.

  \<^bold>\<open>The whole\<close> (\<open>scripts/seed_to_local.py\<close>): \<open>Seed_Fixtures\<close> loads cached transactions, \<open>Seed_Rows\<close> shapes the
  tables, \<open>Seed_Pipeline\<close> runs decoding, unification, classification, matching and the ledgers, merges
  the tables and checks them.

  \<^bold>\<open>Beside it.\<close> \<open>Probes\<close> (\<open>spikes/\<close>): the two scripts that decode one transaction by hand;
  \<open>Probe_Agreement\<close>: what they find is what the client, the trace decoder and the extraction find, less the
  empty transfers production records for calldata it cannot decode.
  \<open>Repo_Scripts\<close>: the topic calculator and the gate on the analytics models, with its two regular
  expressions as matchers.

  \<^bold>\<open>Not modelled.\<close> Monitoring, the source-manifest sink and the DAGs and operators that only raise
  \<open>NotImplementedError\<close>; the notebook that publishes to Delta, which does the same; SQL models and
  infrastructure, which are not Python; logging, the parsing of arguments, and printing except by the
  probes and the parity notebook. The layout of Parquet
  files and the text of JSON files are left to their libraries: a file is the value it encodes.
\<close>

end
